(* ===== verification/Kms_Prelude.thy ===== *)
theory Kms_Prelude
  imports Main "HOL-Library.Word"
begin

text \<open>Shared vocabulary of the development: machine integers and byte strings, Rust's
  \<^verbatim>\<open>Result\<close> as a sum type (\<^term>\<open>Inl\<close> is the error), the ASCII string functions of the Rust
  standard library that the code calls, big-endian conversion of 32-bit lengths, a
  state-and-error monad for code that threads a store through \<^verbatim>\<open>?\<close>, and reachability for
  the step relations.  Strings are ASCII: a character is one byte.\<close>

type_synonym u8 = "8 word"
type_synonym u16 = "16 word"
type_synonym u32 = "32 word"
type_synonym u64 = "64 word"
type_synonym bytes = "u8 list"

named_theorems result_simps "rewriting of results and of the state-and-error monad"
named_theorems preserve "introduction rules for preservation of an invariant"

section \<open>Results\<close>

definition bindR :: "'e + 'a \<Rightarrow> ('a \<Rightarrow> 'e + 'b) \<Rightarrow> 'e + 'b" where
  "bindR r f = (case r of Inl e \<Rightarrow> Inl e | Inr x \<Rightarrow> f x)"

definition map_err :: "('e \<Rightarrow> 'f) \<Rightarrow> 'e + 'a \<Rightarrow> 'f + 'a" where
  "map_err g r = (case r of Inl e \<Rightarrow> Inl (g e) | Inr x \<Rightarrow> Inr x)"

definition ok_or :: "'e \<Rightarrow> 'a option \<Rightarrow> 'e + 'a" where
  "ok_or e x = (case x of None \<Rightarrow> Inl e | Some y \<Rightarrow> Inr y)"

fun is_ok :: "'e + 'a \<Rightarrow> bool" where
  "is_ok (Inl e) = False"
| "is_ok (Inr x) = True"

section \<open>Strings\<close>

fun dec_digits :: "nat \<Rightarrow> nat \<Rightarrow> string" where
  "dec_digits 0 n = ''''"
| "dec_digits (Suc fuel) n =
     (if n < 10 then [char_of (48 + n)] else dec_digits fuel (n div 10) @ [char_of (48 + n mod 10)])"

text \<open>Decimal rendering, Rust's \<^verbatim>\<open>{}\<close> of an unsigned integer; \<^term>\<open>Suc n\<close> digits always suffice.\<close>

definition dec :: "nat \<Rightarrow> string" where
  "dec n = dec_digits (Suc n) n"

definition is_whitespace :: "char \<Rightarrow> bool" where
  "is_whitespace c = (of_char c = (32::nat) \<or> (9 \<le> (of_char c :: nat) \<and> of_char c \<le> (13::nat)))"

definition trim :: "string \<Rightarrow> string" where
  "trim s = rev (dropWhile is_whitespace (rev (dropWhile is_whitespace s)))"

definition lower_char :: "char \<Rightarrow> char" where
  "lower_char c = (if 65 \<le> (of_char c :: nat) \<and> of_char c \<le> (90::nat) then char_of (of_char c + (32::nat)) else c)"

definition to_ascii_lowercase :: "string \<Rightarrow> string" where
  "to_ascii_lowercase s = map lower_char s"

fun starts_with :: "'a list \<Rightarrow> 'a list \<Rightarrow> bool" where
  "starts_with s [] = True"
| "starts_with [] (p # ps) = False"
| "starts_with (c # s) (p # ps) = (c = p \<and> starts_with s ps)"

text \<open>\<^verbatim>\<open>str::find\<close>: offset of the first occurrence of a pattern.\<close>

fun find_sub :: "'a list \<Rightarrow> 'a list \<Rightarrow> nat option" where
  "find_sub pat [] = (if pat = [] then Some 0 else None)"
| "find_sub pat (c # s) =
     (if starts_with (c # s) pat then Some 0 else map_option Suc (find_sub pat s))"

definition contains_sub :: "'a list \<Rightarrow> 'a list \<Rightarrow> bool" where
  "contains_sub s pat = (find_sub pat s \<noteq> None)"

text \<open>\<^verbatim>\<open>str::strip_prefix\<close>.\<close>

definition strip_prefix :: "string \<Rightarrow> string \<Rightarrow> string option" where
  "strip_prefix p s = (if starts_with s p then Some (drop (length p) s) else None)"

text \<open>\<^verbatim>\<open>str::as_bytes\<close> and its inverse on ASCII.\<close>

definition as_bytes :: "string \<Rightarrow> bytes" where
  "as_bytes s = map (\<lambda>c. word_of_nat (of_char c)) s"

definition from_bytes :: "bytes \<Rightarrow> string" where
  "from_bytes b = map (\<lambda>w. char_of (unat w)) b"

section \<open>Big-endian lengths\<close>

definition u32_to_be_bytes :: "u32 \<Rightarrow> bytes" where
  "u32_to_be_bytes w =
     [word_of_nat (unat w div 2 ^ 24), word_of_nat (unat w div 2 ^ 16),
      word_of_nat (unat w div 2 ^ 8), word_of_nat (unat w)]"

fun u32_from_be_bytes :: "bytes \<Rightarrow> u32" where
  "u32_from_be_bytes [a, b, c, d] =
     word_of_nat (unat a * 2 ^ 24 + unat b * 2 ^ 16 + unat c * 2 ^ 8 + unat d)"
| "u32_from_be_bytes _ = 0"

definition u64_from_be_bytes :: "bytes \<Rightarrow> u64" where
  "u64_from_be_bytes b = word_of_nat (foldl (\<lambda>a x. a * 256 + unat x) 0 b)"

section \<open>Code that threads a store and may fail\<close>

type_synonym ('s, 'e, 'a) sm = "'s \<Rightarrow> ('e + 'a) \<times> 's"

definition returnE :: "'a \<Rightarrow> ('s, 'e, 'a) sm" where
  "returnE x = (\<lambda>s. (Inr x, s))"

definition throwE :: "'e \<Rightarrow> ('s, 'e, 'a) sm" where
  "throwE e = (\<lambda>s. (Inl e, s))"

definition bindE :: "('s, 'e, 'a) sm \<Rightarrow> ('a \<Rightarrow> ('s, 'e, 'b) sm) \<Rightarrow> ('s, 'e, 'b) sm" where
  "bindE m f = (\<lambda>s. case m s of (Inl e, t) \<Rightarrow> (Inl e, t) | (Inr x, t) \<Rightarrow> f x t)"

definition thenE :: "('s, 'e, 'a) sm \<Rightarrow> ('s, 'e, 'b) sm \<Rightarrow> ('s, 'e, 'b) sm" where
  "thenE m n = bindE m (\<lambda>_. n)"

definition liftE :: "'e + 'a \<Rightarrow> ('s, 'e, 'a) sm" where
  "liftE r = (\<lambda>s. (r, s))"

definition map_errE :: "('e \<Rightarrow> 'f) \<Rightarrow> ('s, 'e, 'a) sm \<Rightarrow> ('s, 'f, 'a) sm" where
  "map_errE g m = (\<lambda>s. case m s of (r, t) \<Rightarrow> (map_err g r, t))"

text \<open>\<^verbatim>\<open>let _ = m\<close>: run for the effect on the store, ignore the result.\<close>

definition ignoreE :: "('s, 'e, 'a) sm \<Rightarrow> ('s, 'f, unit) sm" where
  "ignoreE m = (\<lambda>s. (Inr (), snd (m s)))"

text \<open>\<^verbatim>\<open>match m { Ok(x) => ok(x), Err(e) => bad(e) }\<close>.\<close>

definition matchE :: "('s, 'e, 'a) sm \<Rightarrow> ('a \<Rightarrow> ('s, 'f, 'b) sm) \<Rightarrow> ('e \<Rightarrow> ('s, 'f, 'b) sm) \<Rightarrow> ('s, 'f, 'b) sm" where
  "matchE m ok bad = (\<lambda>s. case m s of (Inr x, t) \<Rightarrow> ok x t | (Inl e, t) \<Rightarrow> bad e t)"

definition preserves :: "('s \<Rightarrow> bool) \<Rightarrow> ('s, 'e, 'a) sm \<Rightarrow> bool" where
  "preserves I m = (\<forall>s. I s \<longrightarrow> I (snd (m s)))"

text \<open>From a state with \<^verbatim>\<open>P\<close>, every outcome of the run satisfies \<^verbatim>\<open>Q\<close>, failures included.\<close>

definition outcome :: "('s \<Rightarrow> bool) \<Rightarrow> ('s, 'e, 'a) sm \<Rightarrow> ('e + 'a \<Rightarrow> 's \<Rightarrow> bool) \<Rightarrow> bool" where
  "outcome P m Q = (\<forall>s r t. P s \<longrightarrow> m s = (r, t) \<longrightarrow> Q r t)"

section \<open>Reachability\<close>

inductive reachable :: "('s \<Rightarrow> bool) \<Rightarrow> ('s \<Rightarrow> 's \<Rightarrow> bool) \<Rightarrow> 's \<Rightarrow> bool"
  for init :: "'s \<Rightarrow> bool" and step :: "'s \<Rightarrow> 's \<Rightarrow> bool" where
  reachable_init: "init s \<Longrightarrow> reachable init step s"
| reachable_step: "reachable init step s \<Longrightarrow> step s t \<Longrightarrow> reachable init step t"

text \<open>The contract of an inductive invariant; a component interprets it with its step relation.\<close>

locale invariant_system =
  fixes init :: "'s \<Rightarrow> bool"
    and step :: "'s \<Rightarrow> 's \<Rightarrow> bool"
    and inv :: "'s \<Rightarrow> bool"
  assumes inv_init: "init s \<Longrightarrow> inv s"
    and inv_step: "inv s \<Longrightarrow> step s t \<Longrightarrow> inv t"
begin

lemma inv_reachable: "reachable init step s \<Longrightarrow> inv s"
  by (induction rule: reachable.induct) (auto intro: inv_init inv_step)

lemma inv_star: "step\<^sup>*\<^sup>* s t \<Longrightarrow> inv s \<Longrightarrow> inv t"
  by (induction rule: rtranclp_induct) (auto intro: inv_step)

end

section \<open>Lemmas on results and the monad\<close>

lemma bindR_Inr [result_simps, simp]: "bindR (Inr x) f = f x"
  by (simp add: bindR_def)

lemma bindR_Inl [result_simps, simp]: "bindR (Inl e) f = Inl e"
  by (simp add: bindR_def)

lemma bindR_eq_Inr_iff: "bindR r f = Inr y \<longleftrightarrow> (\<exists>x. r = Inr x \<and> f x = Inr y)"
  by (cases r) simp_all

lemma map_err_simps [result_simps, simp]:
  "map_err g (Inr x) = Inr x" "map_err g (Inl e) = Inl (g e)"
  by (simp_all add: map_err_def)

lemma map_err_eq_Inr_iff [simp]: "map_err g r = Inr y \<longleftrightarrow> r = Inr y"
  by (cases r) simp_all

lemma ok_or_simps [result_simps, simp]: "ok_or e (Some x) = Inr x" "ok_or e None = Inl e"
  by (simp_all add: ok_or_def)

lemma ok_or_eq_Inr_iff [simp]: "ok_or e x = Inr y \<longleftrightarrow> x = Some y"
  by (cases x) simp_all

lemma is_ok_iff: "is_ok r \<longleftrightarrow> (\<exists>x. r = Inr x)"
  by (cases r) simp_all

lemma bindE_eq_Inr_iff:
  "bindE m f s = (Inr y, t) \<longleftrightarrow> (\<exists>x u. m s = (Inr x, u) \<and> f x u = (Inr y, t))"
  by (auto simp: bindE_def split: prod.splits sum.splits)

lemma bindE_run [result_simps]:
  "m s = (Inr x, t) \<Longrightarrow> bindE m f s = f x t"
  "m s = (Inl e, t) \<Longrightarrow> bindE m f s = (Inl e, t)"
  by (simp_all add: bindE_def)

lemma returnE_run [result_simps, simp]: "returnE x s = (Inr x, s)"
  by (simp add: returnE_def)

lemma throwE_run [result_simps, simp]: "throwE e s = (Inl e, s)"
  by (simp add: throwE_def)

lemma liftE_run [result_simps, simp]: "liftE r s = (r, s)"
  by (simp add: liftE_def)

lemma bindE_returnE [simp]: "bindE (returnE x) f = f x"
  by (rule ext) (simp add: bindE_def)

lemma bindE_throwE [simp]: "bindE (throwE e) f = throwE e"
  by (rule ext) (simp add: bindE_def)

lemma preserves_returnE [preserve, intro]: "preserves I (returnE x)"
  by (simp add: preserves_def)

lemma preserves_throwE [preserve, intro]: "preserves I (throwE x)"
  by (simp add: preserves_def)

lemma preserves_liftE [preserve, intro]: "preserves I (liftE x)"
  by (simp add: preserves_def)

lemma preserves_bindE [preserve]:
  assumes "preserves I m" and "\<And>x. preserves I (f x)"
  shows "preserves I (bindE m f)"
  unfolding preserves_def
proof (intro allI impI)
  fix s assume I: "I s"
  obtain r t where m: "m s = (r, t)" by (cases "m s")
  with assms(1) I have "I t" by (metis preserves_def snd_conv)
  with assms(2) show "I (snd (bindE m f s))" by (cases r) (auto simp: m bindE_def preserves_def)
qed

lemma preserves_thenE [preserve]:
  "preserves I m \<Longrightarrow> preserves I n \<Longrightarrow> preserves I (thenE m n)"
  by (simp add: thenE_def preserves_bindE)

lemma preserves_map_errE [preserve]: "preserves I m \<Longrightarrow> preserves I (map_errE g m)"
  by (simp add: preserves_def map_errE_def case_prod_unfold)

lemma preserves_ignoreE [preserve]: "preserves I m \<Longrightarrow> preserves I (ignoreE m)"
  by (auto simp: preserves_def ignoreE_def)

lemma matchE_run [result_simps]:
  "m s = (Inr x, t) \<Longrightarrow> matchE m ok bad s = ok x t"
  "m s = (Inl e, t) \<Longrightarrow> matchE m ok bad s = bad e t"
  by (simp_all add: matchE_def)

lemma matchE_cases:
  obtains (ok) x t where "m s = (Inr x, t)" "matchE m f g s = f x t"
    | (bad) e t where "m s = (Inl e, t)" "matchE m f g s = g e t"
proof (cases "m s")
  case (Pair r t)
  with that show ?thesis by (cases r) (simp_all add: matchE_def)
qed

lemma preserves_matchE [preserve]:
  assumes "preserves I m" "\<And>x. preserves I (f x)" "\<And>e. preserves I (g e)"
  shows "preserves I (matchE m f g)"
  unfolding preserves_def
proof (intro allI impI)
  fix s assume "I s"
  with assms(1) have "I (snd (m s))" by (simp add: preserves_def)
  with assms(2,3) show "I (snd (matchE m f g s))"
    by (cases rule: matchE_cases [of m s f g]) (simp_all add: preserves_def)
qed

lemma preservesD: "preserves I m \<Longrightarrow> I s \<Longrightarrow> I (snd (m s))"
  by (simp add: preserves_def)

lemma outcomeD: "outcome P m Q \<Longrightarrow> P s \<Longrightarrow> m s = (r, t) \<Longrightarrow> Q r t"
  by (simp add: outcome_def)

lemma outcome_bindE:
  assumes "outcome P m R" and "\<And>x. outcome (R (Inr x)) (f x) Q" and "\<And>e t. R (Inl e) t \<Longrightarrow> Q (Inl e) t"
  shows "outcome P (bindE m f) Q"
  unfolding outcome_def
proof (intro allI impI)
  fix s r t assume P: "P s" and run: "bindE m f s = (r, t)"
  obtain r1 s1 where m: "m s = (r1, s1)" by (cases "m s")
  with assms(1) P have R: "R r1 s1" by (rule outcomeD)
  show "Q r t"
  proof (cases r1)
    case (Inl e)
    with m run R assms(3) show ?thesis by (auto simp: bindE_def)
  next
    case (Inr x)
    with m run R outcomeD [OF assms(2), of x s1 r t] show ?thesis by (simp add: bindE_def)
  qed
qed

lemma outcome_matchE:
  assumes "outcome P m R" and "\<And>x. outcome (R (Inr x)) (f x) Q" and "\<And>e. outcome (R (Inl e)) (g e) Q"
  shows "outcome P (matchE m f g) Q"
  unfolding outcome_def
proof (intro allI impI)
  fix s r t assume P: "P s" and run: "matchE m f g s = (r, t)"
  show "Q r t"
  proof (cases rule: matchE_cases [of m s f g])
    case (ok x u)
    with run have "f x u = (r, t)" by simp
    then show ?thesis by (rule outcomeD [OF assms(2) outcomeD [OF assms(1) P ok(1)]])
  next
    case (bad e u)
    with run have "g e u = (r, t)" by simp
    then show ?thesis by (rule outcomeD [OF assms(3) outcomeD [OF assms(1) P bad(1)]])
  qed
qed

lemma outcome_weaken:
  "outcome P m R \<Longrightarrow> (\<And>s. P' s \<Longrightarrow> P s) \<Longrightarrow> (\<And>r t. R r t \<Longrightarrow> Q r t) \<Longrightarrow> outcome P' m Q"
  unfolding outcome_def by blast

lemma outcome_pre: "outcome P m Q \<Longrightarrow> (\<And>s. P' s \<Longrightarrow> P s) \<Longrightarrow> outcome P' m Q"
  unfolding outcome_def by blast

lemma outcome_given: "(A \<Longrightarrow> outcome P m Q) \<Longrightarrow> (\<And>s. P' s \<Longrightarrow> P s \<and> A) \<Longrightarrow> outcome P' m Q"
  unfolding outcome_def by blast

lemma outcome_returnE: "(\<And>s. P s \<Longrightarrow> Q (Inr x) s) \<Longrightarrow> outcome P (returnE x) Q"
  by (auto simp: outcome_def)

lemma outcome_throwE: "(\<And>s. P s \<Longrightarrow> Q (Inl e) s) \<Longrightarrow> outcome P (throwE e) Q"
  by (auto simp: outcome_def)

lemma outcome_liftE: "(\<And>s. P s \<Longrightarrow> Q x s) \<Longrightarrow> outcome P (liftE x) Q"
  by (auto simp: outcome_def)

lemma outcome_if:
  "(b \<Longrightarrow> outcome P m Q) \<Longrightarrow> (\<not> b \<Longrightarrow> outcome P n Q) \<Longrightarrow> outcome P (if b then m else n) Q"
  by simp

section \<open>Lemmas on strings\<close>

lemma starts_with_iff: "starts_with s p \<longleftrightarrow> (\<exists>t. s = p @ t)"
  by (induction s p rule: starts_with.induct) auto

lemma find_sub_Some:
  "find_sub pat s = Some n \<Longrightarrow> \<exists>t. s = take n s @ pat @ t \<and> n + length pat \<le> length s"
proof (induction pat s arbitrary: n rule: find_sub.induct)
  case (1 pat)
  then show ?case by (simp split: if_splits)
next
  case (2 pat c s)
  show ?case
  proof (cases "starts_with (c # s) pat")
    case True
    with 2 obtain t where "c # s = pat @ t" "n = 0" by (auto simp: starts_with_iff)
    then show ?thesis by (metis append_self_conv2 length_append le_add1 add_0 take0)
  next
    case False
    with 2 obtain m where m: "find_sub pat s = Some m" "n = Suc m" by auto
    from 2(1) [OF False m(1)] obtain t where "s = take m s @ pat @ t" "m + length pat \<le> length s"
      by blast
    with m(2) show ?thesis by (intro exI [of _ t]) simp
  qed
qed

lemma contains_sub_iff: "contains_sub s pat \<longleftrightarrow> (\<exists>u v. s = u @ pat @ v)"
proof
  assume "contains_sub s pat"
  then show "\<exists>u v. s = u @ pat @ v"
    unfolding contains_sub_def using find_sub_Some by fastforce
next
  assume "\<exists>u v. s = u @ pat @ v"
  then obtain u v where s: "s = u @ pat @ v" by blast
  show "contains_sub s pat"
    unfolding s contains_sub_def
  proof (induction u)
    case Nil
    have "starts_with (pat @ v) pat" by (auto simp: starts_with_iff)
    then show ?case by (cases "pat @ v") auto
  next
    case (Cons a u)
    then show ?case by simp
  qed
qed

lemma trim_id:
  assumes "\<not> is_whitespace a" "\<not> is_whitespace b"
  shows "trim (a # s @ [b]) = a # s @ [b]"
  using assms by (simp add: trim_def)

lemma as_bytes_from_bytes [simp]: "as_bytes (from_bytes b) = b"
proof -
  have "unat w < 256" for w :: u8
    using unsigned_less [of w] by simp
  then show ?thesis by (simp add: as_bytes_def from_bytes_def comp_def map_idI of_char_of)
qed

lemma length_from_bytes [simp]: "length (from_bytes b) = length b"
  by (simp add: from_bytes_def)

section \<open>Lemmas on lengths\<close>

lemma length_u32_to_be_bytes [simp]: "length (u32_to_be_bytes w) = 4"
  by (simp add: u32_to_be_bytes_def)

lemma be_digits:
  assumes "(n::nat) < 2 ^ 32"
  shows "(n div 2 ^ 24 mod 256) * 2 ^ 24 + (n div 2 ^ 16 mod 256) * 2 ^ 16
    + (n div 2 ^ 8 mod 256) * 2 ^ 8 + n mod 256 = n"
proof -
  define a b c where "a = n div 256" and "b = a div 256" and "c = b div 256"
  have "n div 2 ^ 8 = a" "n div 2 ^ 16 = b" "n div 2 ^ 24 = c"
    by (simp_all add: a_def b_def c_def flip: div_mult2_eq)
  moreover have "c mod 256 = c" using assms by (simp add: a_def b_def c_def flip: div_mult2_eq)
  moreover have "n = a * 256 + n mod 256" "a = b * 256 + a mod 256" "b = c * 256 + b mod 256"
    by (simp_all add: a_def b_def c_def)
  ultimately show ?thesis by simp
qed

lemma u32_be_roundtrip [simp]: "u32_from_be_bytes (u32_to_be_bytes w) = w"
proof -
  have "unat w < 2 ^ 32" using unsigned_less [of w] by simp
  note digits = be_digits [OF this]
  have byte: "unat (word_of_nat n :: 8 word) = n mod 256" for n
    by (simp add: unat_of_nat)
  have "u32_from_be_bytes (u32_to_be_bytes w) = word_of_nat (unat w)"
    by (simp only: u32_to_be_bytes_def u32_from_be_bytes.simps byte digits)
  then show ?thesis by simp
qed

end
