(* ===== verification/Hsm_Protocol.thy ===== *)
theory Hsm_Protocol
  imports Kms_Prelude
begin

text \<open>The vHSM wire protocol and its client, \<^verbatim>\<open>kms-core/src/hsm/\<close>: request and response
  messages, length-prefixed frames, one request/response exchange and the typed client calls.
  A connection is the bytes the peer delivers and how it ends: it closes, or it stalls until the
  timeout fires.  Serialisation (\<^verbatim>\<open>serde_json\<close>) and the peer are parameters.\<close>

section \<open>Messages\<close>

datatype HsmRequest =
    Ping
  | Status
  | GenerateCeremony (ceremony_threshold: u8) (ceremony_total_shares: u8)
  | InitMasterKey (init_threshold: u8) (init_shares: "(u8 \<times> string) list")
  | GenerateKek string
  | GenerateDataKey bytes "u32 option" string
  | GenerateRandomBytes nat
  | GenerateCredential nat
  | InitRootCa string string u32 string
  | LoadRootCa string bytes
  | SignIntermediateCa string string u32
  | SignWithCaKey string string bytes
  | GenerateRootCaKey string
  | Encrypt string "u32 option" bytes
  | Decrypt string "u32 option" bytes

datatype HsmResponse =
    Pong
  | StatusInfo bool u32
  | CeremonyGenerated "(u8 \<times> string) list"
  | MasterKeyInitialized
  | KekGenerated bytes u32 u32 string
  | DataKeyGenerated bytes bytes u32 u32
  | RandomBytesGenerated bytes
  | Encrypted bytes u32
  | Decrypted bytes u32
  | CredentialGenerated string string bytes u32
  | RootCaKeyGenerated bytes bytes u32 string "string option"
  | SignedIntermediate string
  | Signature bytes
  | Error u16 string

datatype HsmClientError =
    Io string
  | Timeout
  | InvalidFrame
  | InvalidResponse
  | Serialization string
  | Remote string
  | PlatformNotSupported

section \<open>Connections and frames\<close>

datatype stream_end = Closed | Stalled

type_synonym stream = "bytes \<times> stream_end"

text \<open>\<^verbatim>\<open>tokio::time::timeout(t, stream.read_exact(buf))\<close>.\<close>

fun read_exact :: "nat \<Rightarrow> stream \<Rightarrow> HsmClientError + bytes \<times> stream" where
  "read_exact n (d, e) =
     (if n \<le> length d then Inr (take n d, (drop n d, e))
      else case e of Closed \<Rightarrow> Inl (Io ''early eof'') | Stalled \<Rightarrow> Inl Timeout)"

definition MAX_HSM_FRAME_SIZE :: nat where
  "MAX_HSM_FRAME_SIZE = 1024 * 1024"

definition framed_message :: "bytes \<Rightarrow> HsmClientError + bytes" where
  "framed_message payload =
     (if length payload > MAX_HSM_FRAME_SIZE then Inl InvalidFrame
      else if length payload \<ge> 2 ^ 32 then Inl InvalidFrame
      else Inr (u32_to_be_bytes (word_of_nat (length payload)) @ payload))"

definition read_frame_with_timeout :: "stream \<Rightarrow> HsmClientError + bytes \<times> stream" where
  "read_frame_with_timeout st =
     bindR (read_exact 4 st) (\<lambda>(len_buf, st1).
       let len = unat (u32_from_be_bytes len_buf) in
       if len > MAX_HSM_FRAME_SIZE then Inl InvalidFrame
       else read_exact len st1)"

section \<open>One exchange\<close>

record serde_hsm =
  req_to_vec :: "HsmRequest \<Rightarrow> string + bytes"
  req_from_slice :: "bytes \<Rightarrow> string + HsmRequest"
  resp_to_vec :: "HsmResponse \<Rightarrow> string + bytes"
  resp_from_slice :: "bytes \<Rightarrow> string + HsmResponse"

text \<open>The peer: whether a socket path accepts a connection, and the reply to the bytes written.\<close>

record transport =
  tr_connect :: "string \<Rightarrow> HsmClientError + unit"
  tr_exchange :: "bytes \<Rightarrow> HsmClientError + stream"

definition HSM_SOCKET_DEFAULT_PATH :: string where
  "HSM_SOCKET_DEFAULT_PATH = ''/run/vhsm/vhsm.sock''"

text \<open>The final \<^verbatim>\<open>match\<close> of an exchange: an error response becomes the client's error.\<close>

fun response_or_error :: "HsmResponse \<Rightarrow> HsmClientError + HsmResponse" where
  "response_or_error (Error code message) =
     Inl (Remote (''HSM returned error '' @ dec (unat code) @ '': '' @ message))"
| "response_or_error response = Inr response"

definition send_hsm_request ::
  "serde_hsm \<Rightarrow> transport \<Rightarrow> string \<Rightarrow> HsmRequest \<Rightarrow> HsmClientError + HsmResponse" where
  "send_hsm_request sd tr socket_path req =
     (let socket = trim socket_path;
          path = (if socket = [] then HSM_SOCKET_DEFAULT_PATH else socket) in
      bindR (tr_connect tr path) (\<lambda>_.
      bindR (map_err Serialization (req_to_vec sd req)) (\<lambda>payload.
      bindR (framed_message payload) (\<lambda>frame.
      bindR (tr_exchange tr frame) (\<lambda>reply.
      bindR (read_frame_with_timeout reply) (\<lambda>(response_bytes, _).
      bindR (map_err Serialization (resp_from_slice sd response_bytes))
        response_or_error))))))"

section \<open>Typed calls\<close>

definition validate_key_version :: "u32 option \<Rightarrow> u32 \<Rightarrow> HsmClientError + unit" where
  "validate_key_version requested response_version =
     (case requested of
        None \<Rightarrow> Inr ()
      | Some req_v \<Rightarrow>
          if response_version < req_v then
            Inl (Remote (''Downgrade detected: response version '' @ dec (unat response_version)
                         @ '' < requested '' @ dec (unat req_v)))
          else if response_version \<noteq> req_v then Inl InvalidResponse
          else Inr ())"

definition remote_error :: "string \<Rightarrow> u16 \<Rightarrow> string \<Rightarrow> HsmClientError" where
  "remote_error what code message = Remote (what @ '' ('' @ dec (unat code) @ ''): '' @ message)"

definition encrypt_via_hsm ::
  "serde_hsm \<Rightarrow> transport \<Rightarrow> string \<Rightarrow> string \<Rightarrow> u32 option \<Rightarrow> bytes \<Rightarrow> HsmClientError + bytes" where
  "encrypt_via_hsm sd tr socket_path key_id key_version plaintext =
     bindR (send_hsm_request sd tr socket_path (Encrypt key_id key_version plaintext)) (\<lambda>resp.
       case resp of
         Encrypted ciphertext resp_version \<Rightarrow>
           bindR (validate_key_version key_version resp_version) (\<lambda>_.
             if resp_version = 0 then Inl InvalidResponse else Inr ciphertext)
       | Error code message \<Rightarrow> Inl (remote_error ''HSM encryption failed'' code message)
       | _ \<Rightarrow> Inl InvalidResponse)"

definition decrypt_via_hsm ::
  "serde_hsm \<Rightarrow> transport \<Rightarrow> string \<Rightarrow> string \<Rightarrow> u32 option \<Rightarrow> bytes \<Rightarrow> HsmClientError + bytes" where
  "decrypt_via_hsm sd tr socket_path key_id key_version ciphertext =
     bindR (send_hsm_request sd tr socket_path (Decrypt key_id key_version ciphertext)) (\<lambda>resp.
       case resp of
         Decrypted plaintext resp_version \<Rightarrow>
           bindR (validate_key_version key_version resp_version) (\<lambda>_.
             if resp_version = 0 then Inl InvalidResponse else Inr plaintext)
       | Error code message \<Rightarrow> Inl (remote_error ''HSM decryption failed'' code message)
       | _ \<Rightarrow> Inl InvalidResponse)"

definition load_root_ca_via_hsm ::
  "serde_hsm \<Rightarrow> transport \<Rightarrow> string \<Rightarrow> string \<Rightarrow> bytes \<Rightarrow> HsmClientError + unit" where
  "load_root_ca_via_hsm sd tr socket_path ca_tag encrypted_private_key =
     bindR (send_hsm_request sd tr socket_path (LoadRootCa ca_tag encrypted_private_key)) (\<lambda>resp.
       case resp of
         MasterKeyInitialized \<Rightarrow> Inr ()
       | Error code message \<Rightarrow> Inl (remote_error ''vHSM load Root CA failed'' code message)
       | _ \<Rightarrow> Inl InvalidResponse)"

definition generate_random_bytes_via_hsm ::
  "serde_hsm \<Rightarrow> transport \<Rightarrow> string \<Rightarrow> nat \<Rightarrow> HsmClientError + bytes" where
  "generate_random_bytes_via_hsm sd tr socket_path len =
     bindR (send_hsm_request sd tr socket_path (GenerateRandomBytes len)) (\<lambda>resp.
       case resp of
         RandomBytesGenerated random_bytes \<Rightarrow>
           if length random_bytes \<noteq> len then Inl InvalidResponse else Inr random_bytes
       | Error code message \<Rightarrow>
           Inl (remote_error ''HSM random bytes generation failed'' code message)
       | _ \<Rightarrow> Inl InvalidResponse)"

definition generate_root_ca_via_hsm ::
  "serde_hsm \<Rightarrow> transport \<Rightarrow> string \<Rightarrow> string
     \<Rightarrow> HsmClientError + bytes \<times> bytes \<times> u32 \<times> string \<times> string option" where
  "generate_root_ca_via_hsm sd tr socket_path algorithm =
     bindR (send_hsm_request sd tr socket_path
              (InitRootCa ''root'' ''kms-root-ca'' (365 * 20) algorithm)) (\<lambda>resp.
       case resp of
         RootCaKeyGenerated encrypted_private_key public_key master_key_version alg certificate_pem \<Rightarrow>
           Inr (encrypted_private_key, public_key, master_key_version, alg, certificate_pem)
       | Error code message \<Rightarrow> Inl (remote_error ''vHSM InitRootCa failed'' code message)
       | _ \<Rightarrow> Inl InvalidResponse)"

section \<open>The framing contract\<close>

text \<open>What a frame writer promises a frame reader on the other end of a byte stream.\<close>

locale framing =
  fixes encode :: "bytes \<Rightarrow> 'e + bytes"
    and decode :: "stream \<Rightarrow> 'f + bytes \<times> stream"
  assumes decode_encode: "encode p = Inr f \<Longrightarrow> decode (f @ d, e) = Inr (p, (d, e))"
    and encode_nonempty: "encode p = Inr f \<Longrightarrow> f \<noteq> []"
begin

lemma prefix_free:
  assumes "encode p = Inr f" "encode q = Inr g" "f @ x = g @ y"
  shows "p = q \<and> x = y"
  using decode_encode [OF assms(1), of x Closed] decode_encode [OF assms(2), of y Closed] assms(3)
  by simp

lemma encode_inj: "encode p = Inr f \<Longrightarrow> encode q = Inr f \<Longrightarrow> p = q"
  using prefix_free [of p f q f "[]" "[]"] by simp

lemma stream_unique:
  assumes "list_all2 (\<lambda>p f. encode p = Inr f) ps fs" "list_all2 (\<lambda>p f. encode p = Inr f) qs gs"
    and "concat fs = concat gs"
  shows "ps = qs"
  using assms
proof (induction ps fs arbitrary: qs gs rule: list_all2_induct)
  case Nil
  show ?case
  proof (cases qs)
    case (Cons q qs')
    with Nil show ?thesis using encode_nonempty by (auto simp: list_all2_Cons1)
  qed simp
next
  case (Cons p ps f fs)
  note hyp = Cons.hyps(1) and IH = Cons.IH and qs = Cons.prems(1) and eq = Cons.prems(2)
  have "f @ concat fs \<noteq> []" using encode_nonempty [OF hyp] by simp
  with eq have "concat gs \<noteq> []" by simp
  then obtain g gs' where g: "gs = g # gs'" by (cases gs) auto
  with qs obtain q qs' where q: "qs = q # qs'" "encode q = Inr g"
    "list_all2 (\<lambda>p f. encode p = Inr f) qs' gs'"
    by (auto simp: list_all2_Cons2)
  have "p = q \<and> concat fs = concat gs'"
    using prefix_free [OF hyp q(2)] eq g by simp
  with IH [OF q(3)] q(1) show ?case by simp
qed

end

section \<open>Lemmas\<close>

lemma read_exact_append [simp]:
  "length d = n \<Longrightarrow> read_exact n (d @ r, e) = Inr (d, (r, e))"
  by simp

lemma read_exact_Inr_iff:
  "read_exact n (d, e) = Inr (b, st) \<longleftrightarrow> n \<le> length d \<and> b = take n d \<and> st = (drop n d, e)"
  by (auto split: stream_end.splits)

lemma framed_message_Inr_iff:
  "framed_message p = Inr f \<longleftrightarrow>
     length p \<le> MAX_HSM_FRAME_SIZE \<and> f = u32_to_be_bytes (word_of_nat (length p)) @ p"
  by (auto simp: framed_message_def MAX_HSM_FRAME_SIZE_def)

lemma unat_length_u32:
  "n < 2 ^ 32 \<Longrightarrow> unat (word_of_nat n :: u32) = n"
  by (simp add: unat_of_nat)

lemma read_frame_of_prefixed:
  assumes "length p \<le> MAX_HSM_FRAME_SIZE"
  shows "read_frame_with_timeout (u32_to_be_bytes (word_of_nat (length p)) @ p @ d, e) = Inr (p, (d, e))"
proof -
  have "unat (word_of_nat (length p) :: u32) = length p"
    using assms by (intro unat_length_u32) (simp add: MAX_HSM_FRAME_SIZE_def)
  with assms show ?thesis
    by (simp del: read_exact.simps add: read_frame_with_timeout_def Let_def)
qed

interpretation client_frames: framing framed_message read_frame_with_timeout
proof (unfold_locales, goal_cases)
  case (1 p f d e)
  then show ?case by (simp add: framed_message_Inr_iff read_frame_of_prefixed)
next
  case (2 p f)
  then show ?case using length_u32_to_be_bytes by (auto simp: framed_message_Inr_iff u32_to_be_bytes_def)
qed

lemma response_or_error_Inr_iff: "response_or_error r = Inr r' \<longleftrightarrow> r' = r \<and> (\<forall>c m. r \<noteq> Error c m)"
  by (cases r) auto

lemma send_hsm_request_no_error:
  "send_hsm_request sd tr path req = Inr resp \<Longrightarrow> resp \<noteq> Error c m"
  by (auto simp: send_hsm_request_def Let_def bindR_eq_Inr_iff response_or_error_Inr_iff)

lemma validate_key_version_Inr_iff:
  "validate_key_version requested v = Inr () \<longleftrightarrow> (case requested of None \<Rightarrow> True | Some r \<Rightarrow> v = r)"
  by (cases requested) (simp_all add: validate_key_version_def)

section \<open>Properties\<close>

text \<open>C24: A sequence of payloads that the client frames can be read back from the concatenated bytes
  in only one way: two sequences of accepted payloads with the same bytes on the wire are equal.\<close>

theorem frames_unambiguous:
  assumes "list_all2 (\<lambda>p f. framed_message p = Inr f) ps fs"
    and "list_all2 (\<lambda>p f. framed_message p = Inr f) qs gs"
    and "concat fs = concat gs"
  shows "ps = qs"
  using assms by (rule client_frames.stream_unique)

theorem frames_unambiguous_witness:
  "framed_message [1, 2] = Inr [0, 0, 0, 2, 1, 2] \<and> framed_message [] = Inr [0, 0, 0, 0]
   \<and> [[1, 2], []] = [[1, 2], [] :: bytes]"
proof -
  have f: "framed_message [1, 2] = Inr [0, 0, 0, 2, 1, 2]" "framed_message [] = Inr [0, 0, 0, 0]"
    by (simp_all add: framed_message_def MAX_HSM_FRAME_SIZE_def u32_to_be_bytes_def)
  have "[[1, 2], []] = [[1, 2], [] :: bytes]"
    by (rule frames_unambiguous [where fs = "[[0, 0, 0, 2, 1, 2], [0, 0, 0, 0]]"
          and gs = "[[0, 0, 0, 2, 1, 2], [0, 0, 0, 0]]"]) (simp_all add: f)
  with f show ?thesis by simp
qed

text \<open>When an encryption call returns a ciphertext, the daemon answered with exactly that ciphertext
  under a nonzero key version, and that version is the requested one when the caller named one: a
  downgraded or mismatched version is never accepted.\<close>

theorem encrypt_via_hsm_no_downgrade:
  assumes "encrypt_via_hsm sd tr path key_id requested plaintext = Inr ct"
  shows "\<exists>v. send_hsm_request sd tr path (Encrypt key_id requested plaintext) = Inr (Encrypted ct v)
           \<and> v \<noteq> 0 \<and> (requested = None \<or> requested = Some v)"
proof -
  from assms obtain resp where
    "send_hsm_request sd tr path (Encrypt key_id requested plaintext) = Inr resp"
    by (auto simp: encrypt_via_hsm_def bindR_eq_Inr_iff)
  with assms show ?thesis
    by (cases resp; cases requested)
       (auto simp: encrypt_via_hsm_def bindR_eq_Inr_iff validate_key_version_Inr_iff split: if_splits)
qed

theorem encrypt_via_hsm_no_downgrade_witness:
  "\<exists>sd tr. encrypt_via_hsm sd tr [] ''master_key'' (Some 1) [7] = Inr [9]
     \<and> (\<exists>v. send_hsm_request sd tr [] (Encrypt ''master_key'' (Some 1) [7]) = Inr (Encrypted [9] v)
           \<and> v \<noteq> 0 \<and> (Some 1 = (None :: u32 option) \<or> Some 1 = Some v))"
proof -
  let ?sd = "\<lparr>req_to_vec = \<lambda>_. Inr [5], req_from_slice = \<lambda>_. Inl [], resp_to_vec = \<lambda>_. Inl [],
              resp_from_slice = \<lambda>_. Inr (Encrypted [9] 1)\<rparr>"
  let ?tr = "\<lparr>tr_connect = \<lambda>_. Inr (), tr_exchange = \<lambda>_. Inr ([0, 0, 0, 0], Closed)\<rparr>"
  have "encrypt_via_hsm ?sd ?tr [] ''master_key'' (Some 1) [7] = Inr [9]"
    by (simp add: encrypt_via_hsm_def send_hsm_request_def framed_message_def trim_def Let_def
        read_frame_with_timeout_def MAX_HSM_FRAME_SIZE_def validate_key_version_def)
  from this encrypt_via_hsm_no_downgrade [OF this] show ?thesis by blast
qed

end
