(* ===== verification/Core_Crypto.thy ===== *)
theory Core_Crypto
  imports Kms_Prelude
begin

text \<open>\<^verbatim>\<open>kms-core/src/crypto/\<close>: key generation, Shamir splitting, password-based containers, and
  \<^verbatim>\<open>kms-core/src/ceremony.rs\<close>.  The crates the code calls (\<^verbatim>\<open>aes-gcm\<close>, \<^verbatim>\<open>ssss\<close>, \<^verbatim>\<open>argon2\<close>,
  \<^verbatim>\<open>hex\<close>, \<^verbatim>\<open>sha2\<close>, the operating system's random generator) are the fields of two parameter
  records; what the code relies on is stated in \<^verbatim>\<open>aead_ok\<close>, \<^verbatim>\<open>ssss_ok\<close>, \<^verbatim>\<open>hex_ok\<close>, \<^verbatim>\<open>argon2_ok\<close>
  and \<^verbatim>\<open>entropy_ok\<close>.\<close>

section \<open>Parameters\<close>

text \<open>Randomness of one run: \<^verbatim>\<open>draw i n\<close> is the \<^verbatim>\<open>i\<close>-th buffer of \<^verbatim>\<open>n\<close> bytes filled by the
  generator, \<^verbatim>\<open>getrandom i n\<close> the same through the fallible interface.\<close>

record entropy =
  draw :: "nat \<Rightarrow> nat \<Rightarrow> bytes"
  getrandom :: "nat \<Rightarrow> nat \<Rightarrow> string + bytes"

record crypto_lib =
  aes_new_from_slice :: "bytes \<Rightarrow> string + unit"
  aes_encrypt :: "bytes \<Rightarrow> bytes \<Rightarrow> bytes \<Rightarrow> string + bytes"
  aes_decrypt :: "bytes \<Rightarrow> bytes \<Rightarrow> bytes \<Rightarrow> string + bytes"
  ssss_gen_shares :: "entropy \<Rightarrow> u8 \<Rightarrow> u8 \<Rightarrow> bytes \<Rightarrow> string + string list"
  ssss_unlock :: "string list \<Rightarrow> string + bytes"
  hex_encode :: "bytes \<Rightarrow> string"
  hex_decode :: "string \<Rightarrow> string + bytes"
  argon2_params_new :: "nat \<Rightarrow> nat \<Rightarrow> nat \<Rightarrow> nat \<Rightarrow> string + unit"
  argon2_hash :: "bytes \<Rightarrow> bytes \<Rightarrow> string + bytes"
  salt_encode_b64 :: "bytes \<Rightarrow> string + string"
  salt_generate :: "entropy \<Rightarrow> string"
  sha256 :: "bytes \<Rightarrow> bytes"

definition entropy_ok :: "entropy \<Rightarrow> bool" where
  "entropy_ok rnd = ((\<forall>i n. length (draw rnd i n) = n)
     \<and> (\<forall>i n b. getrandom rnd i n = Inr b \<longrightarrow> length b = n))"

text \<open>AES-256-GCM accepts 32-byte keys, and decryption inverts encryption.\<close>

definition aead_ok :: "crypto_lib \<Rightarrow> bool" where
  "aead_ok lib = (\<forall>k. length k = 32 \<longrightarrow> aes_new_from_slice lib k = Inr () \<and>
     (\<forall>n p c. length n = 12 \<longrightarrow> aes_encrypt lib k n p = Inr c \<longrightarrow> aes_decrypt lib k n c = Inr p))"

text \<open>\<^verbatim>\<open>gen_shares\<close> returns as many shares as configured, with no surrounding white space, and any
  choice of at least the threshold many different ones unlocks the secret.\<close>

definition ssss_ok :: "crypto_lib \<Rightarrow> bool" where
  "ssss_ok lib = (\<forall>rnd n t s shs. ssss_gen_shares lib rnd n t s = Inr shs \<longrightarrow>
     length shs = unat n \<and> (\<forall>x\<in>set shs. trim x = x) \<and>
     (\<forall>I. distinct I \<and> set I \<subseteq> {..<length shs} \<and> unat t \<le> length I \<longrightarrow>
        ssss_unlock lib (map (\<lambda>i. shs ! i) I) = Inr s))"

definition hex_ok :: "crypto_lib \<Rightarrow> bool" where
  "hex_ok lib = (\<forall>b. hex_decode lib (hex_encode lib b) = Inr b)"

definition argon2_ok :: "crypto_lib \<Rightarrow> bool" where
  "argon2_ok lib = (\<forall>p s k. argon2_hash lib p s = Inr k \<longrightarrow> length k = 32)"

section \<open>Keys\<close>

datatype KmsCoreError = InvalidInput string | Sss string | Internal string

fun core_error_to_string :: "KmsCoreError \<Rightarrow> string" where
  "core_error_to_string (InvalidInput m) = ''invalid input: '' @ m"
| "core_error_to_string (Sss m) = ''sss error: '' @ m"
| "core_error_to_string (Internal m) = ''internal error: '' @ m"

definition KEY_SIZE :: nat where
  "KEY_SIZE = 32"

text \<open>\<^verbatim>\<open>SecretKey::generate\<close>; \<^term>\<open>None\<close> is the process abort when the generator fails.\<close>

definition generate_master_key :: "entropy \<Rightarrow> nat \<Rightarrow> bytes option" where
  "generate_master_key rnd i =
     (case getrandom rnd i KEY_SIZE of Inl _ \<Rightarrow> None | Inr key \<Rightarrow> Some key)"

definition generate_secure_secret :: "entropy \<Rightarrow> nat \<Rightarrow> KmsCoreError + bytes" where
  "generate_secure_secret rnd len =
     (if len = 0 then Inl (InvalidInput ''Secret length must be greater than zero'')
      else if len > 4096 then
        Inl (InvalidInput ''Requested secret length exceeds maximum allowed limit of 4096 bytes'')
      else map_err (\<lambda>e. Internal (''Failed to generate secure random bytes: '' @ e)) (getrandom rnd 0 len))"

section \<open>Secret sharing\<close>

record SecretShare =
  share_index :: u8
  share_value :: string

definition split_secret ::
  "crypto_lib \<Rightarrow> entropy \<Rightarrow> bytes \<Rightarrow> u8 \<Rightarrow> u8 \<Rightarrow> KmsCoreError + SecretShare list" where
  "split_secret lib rnd secret threshold shares_count =
     (if length secret \<noteq> KEY_SIZE then
        Inl (InvalidInput (''Secret length must be exactly '' @ dec KEY_SIZE @ '' bytes''))
      else if shares_count = 0 then Inl (InvalidInput ''Total shares must be greater than zero'')
      else if threshold = 0 then Inl (InvalidInput ''Threshold must be greater than zero'')
      else if threshold > shares_count then
        Inl (InvalidInput ''Threshold cannot be greater than total shares'')
      else if threshold < 2 then Inl (InvalidInput ''Threshold must be at least 2'')
      else bindR (map_err Sss (ssss_gen_shares lib rnd shares_count threshold secret)) (\<lambda>share_strings.
        Inr (map (\<lambda>(idx, raw_value). \<lparr>share_index = word_of_nat idx + 1, share_value = trim raw_value\<rparr>)
               (zip [0..<length share_strings] share_strings))))"

definition combine_shares :: "crypto_lib \<Rightarrow> SecretShare list \<Rightarrow> KmsCoreError + bytes" where
  "combine_shares lib shares =
     (if shares = [] then
        Inl (InvalidInput ''At least one share is required to reconstruct the key'')
      else if length shares < 2 then
        Inl (InvalidInput ''At least two shares are required to meet minimum threshold'')
      else
        let share_strings = map share_value shares in
        bindR (map_err (\<lambda>e. Sss (''Failed to reconstruct secret from '' @ dec (length share_strings)
                                 @ '' shares: '' @ e))
                 (ssss_unlock lib share_strings)) (\<lambda>recovered_bytes.
          if length recovered_bytes \<noteq> KEY_SIZE then
            Inl (InvalidInput ''Reconstructed key has invalid size'')
          else Inr recovered_bytes))"

definition split_shares ::
  "crypto_lib \<Rightarrow> entropy \<Rightarrow> bytes \<Rightarrow> u8 \<Rightarrow> u8 \<Rightarrow> KmsCoreError + (u8 \<times> string) list" where
  "split_shares lib rnd secret shares threshold =
     bindR (split_secret lib rnd secret threshold shares) (\<lambda>shared.
       Inr (map (\<lambda>share. (share_index share, share_value share)) shared))"

definition combine_shares_legacy :: "crypto_lib \<Rightarrow> (u8 \<times> string) list \<Rightarrow> KmsCoreError + bytes" where
  "combine_shares_legacy lib shares =
     combine_shares lib
       (map (\<lambda>(index, v). \<lparr>share_index = index, share_value = trim v\<rparr>) shares)"

section \<open>Password containers\<close>

record EncryptedContainer =
  ec_salt :: string
  ec_nonce :: string
  ec_ciphertext :: string

datatype AesError =
    SaltRandomFailed string
  | SaltEncodingFailed string
  | ArgonParamsFailed string
  | KeyDerivationFailed string
  | CipherInitFailed string
  | NonceRandomFailed string
  | EncryptFailed string
  | HexFailed string
  | InvalidNonceLength
  | DecryptFailed string
  | InvalidKeyLength
  | FileTooShort

definition get_argon2_instance :: "crypto_lib \<Rightarrow> AesError + unit" where
  "get_argon2_instance lib = map_err ArgonParamsFailed (argon2_params_new lib 65536 3 4 KEY_SIZE)"

definition derive_key_from_password ::
  "crypto_lib \<Rightarrow> entropy \<Rightarrow> string \<Rightarrow> AesError + bytes \<times> string" where
  "derive_key_from_password lib rnd password =
     bindR (map_err SaltRandomFailed (getrandom rnd 0 16)) (\<lambda>rng_bytes.
     bindR (map_err SaltEncodingFailed (salt_encode_b64 lib rng_bytes)) (\<lambda>salt.
     bindR (get_argon2_instance lib) (\<lambda>_.
     bindR (map_err KeyDerivationFailed (argon2_hash lib (as_bytes password) (as_bytes salt))) (\<lambda>key.
       Inr (key, salt)))))"

definition derive_key_with_salt :: "crypto_lib \<Rightarrow> string \<Rightarrow> string \<Rightarrow> AesError + bytes" where
  "derive_key_with_salt lib password salt_str =
     bindR (get_argon2_instance lib) (\<lambda>_.
       map_err KeyDerivationFailed (argon2_hash lib (as_bytes password) (as_bytes salt_str)))"

definition encrypt_bytes_with_password ::
  "crypto_lib \<Rightarrow> entropy \<Rightarrow> string \<Rightarrow> bytes \<Rightarrow> AesError + EncryptedContainer" where
  "encrypt_bytes_with_password lib rnd password data =
     bindR (derive_key_from_password lib rnd password) (\<lambda>(key, salt).
     bindR (map_err CipherInitFailed (aes_new_from_slice lib key)) (\<lambda>_.
     bindR (map_err NonceRandomFailed (getrandom rnd 1 12)) (\<lambda>nonce_bytes.
     bindR (map_err EncryptFailed (aes_encrypt lib key nonce_bytes data)) (\<lambda>ciphertext.
       Inr \<lparr>ec_salt = salt, ec_nonce = hex_encode lib nonce_bytes,
            ec_ciphertext = hex_encode lib ciphertext\<rparr>))))"

definition decrypt_container :: "crypto_lib \<Rightarrow> bytes \<Rightarrow> EncryptedContainer \<Rightarrow> AesError + bytes" where
  "decrypt_container lib key container =
     bindR (map_err CipherInitFailed (aes_new_from_slice lib key)) (\<lambda>_.
     bindR (map_err HexFailed (hex_decode lib (ec_nonce container))) (\<lambda>nonce_bytes.
     bindR (map_err HexFailed (hex_decode lib (ec_ciphertext container))) (\<lambda>ciphertext_bytes.
       if length nonce_bytes \<noteq> 12 then Inl InvalidNonceLength
       else map_err DecryptFailed (aes_decrypt lib key nonce_bytes ciphertext_bytes))))"

definition decrypt_bytes_with_password ::
  "crypto_lib \<Rightarrow> string \<Rightarrow> EncryptedContainer \<Rightarrow> AesError + bytes" where
  "decrypt_bytes_with_password lib password container =
     bindR (derive_key_with_salt lib password (ec_salt container)) (\<lambda>key.
       decrypt_container lib key container)"

definition encrypt_storage_key ::
  "crypto_lib \<Rightarrow> entropy \<Rightarrow> bytes \<Rightarrow> bytes \<Rightarrow> AesError + EncryptedContainer" where
  "encrypt_storage_key lib rnd master_key storage_key =
     bindR (map_err CipherInitFailed (aes_new_from_slice lib master_key)) (\<lambda>_.
     bindR (map_err NonceRandomFailed (getrandom rnd 1 12)) (\<lambda>nonce_bytes.
     bindR (map_err EncryptFailed (aes_encrypt lib master_key nonce_bytes storage_key)) (\<lambda>ciphertext.
       Inr \<lparr>ec_salt = salt_generate lib rnd, ec_nonce = hex_encode lib nonce_bytes,
            ec_ciphertext = hex_encode lib ciphertext\<rparr>)))"

definition decrypt_storage_key ::
  "crypto_lib \<Rightarrow> bytes \<Rightarrow> EncryptedContainer \<Rightarrow> AesError + bytes" where
  "decrypt_storage_key lib master_key container =
     bindR (decrypt_container lib master_key container) (\<lambda>decrypted_bytes.
       if length decrypted_bytes \<noteq> KEY_SIZE then Inl InvalidKeyLength else Inr decrypted_bytes)"

definition decrypt_bytes_with_argon2_raw :: "crypto_lib \<Rightarrow> string \<Rightarrow> bytes \<Rightarrow> AesError + bytes" where
  "decrypt_bytes_with_argon2_raw lib password data =
     (if length data < 16 + 12 then Inl FileTooShort
      else
        let salt = take 16 data;
            encrypted_data = drop 16 data;
            nonce_bytes = take 12 encrypted_data;
            ciphertext = drop 12 encrypted_data in
        bindR (map_err ArgonParamsFailed (argon2_params_new lib 65536 3 4 KEY_SIZE)) (\<lambda>_.
        bindR (map_err KeyDerivationFailed (argon2_hash lib (as_bytes password) salt)) (\<lambda>key_bytes.
        bindR (map_err CipherInitFailed (aes_new_from_slice lib key_bytes)) (\<lambda>_.
          map_err DecryptFailed (aes_decrypt lib key_bytes nonce_bytes ciphertext)))))"

section \<open>Ceremony records\<close>

definition compute_share_sha256 :: "crypto_lib \<Rightarrow> string \<Rightarrow> string" where
  "compute_share_sha256 lib share_hex =
     (if length share_hex mod 2 \<noteq> 0 then hex_encode lib (sha256 lib (as_bytes (''0'' @ share_hex)))
      else hex_encode lib (sha256 lib (as_bytes share_hex)))"

section \<open>A sample library\<close>

text \<open>A concrete instance of the parameters, used where a theorem is evaluated: the cipher appends
  its key to the plaintext, every share carries the secret.\<close>

definition sample_entropy :: entropy where
  "sample_entropy = \<lparr>draw = \<lambda>i n. replicate n (word_of_nat (Suc i)),
                     getrandom = \<lambda>i n. Inr (replicate n (word_of_nat (Suc i)))\<rparr>"

definition sample_lib :: crypto_lib where
  "sample_lib = \<lparr>
     aes_new_from_slice = \<lambda>k. if length k = 32 then Inr () else Inl ''Invalid Length'',
     aes_encrypt = \<lambda>k n p. Inr (p @ k),
     aes_decrypt = \<lambda>k n c. if drop (length c - length k) c = k then Inr (take (length c - length k) c)
                           else Inl ''aead::Error'',
     ssss_gen_shares = \<lambda>rnd n t s. if 2 \<le> t \<and> t \<le> n
                           then Inr (replicate (unat n) (''x'' @ from_bytes s @ ''x'')) else Inl ''config'',
     ssss_unlock = \<lambda>shs. case shs of [] \<Rightarrow> Inl ''none'' | x # _ \<Rightarrow> Inr (as_bytes (butlast (tl x))),
     hex_encode = from_bytes,
     hex_decode = \<lambda>s. Inr (as_bytes s),
     argon2_params_new = \<lambda>m t p l. Inr (),
     argon2_hash = \<lambda>p s. Inr (replicate 32 7),
     salt_encode_b64 = \<lambda>b. Inr (from_bytes b),
     salt_generate = \<lambda>rnd. ''salt'',
     sha256 = \<lambda>b. b\<rparr>"

section \<open>Lemmas\<close>

lemma entropy_ok_sample: "entropy_ok sample_entropy"
  by (simp add: entropy_ok_def sample_entropy_def)

lemma aead_ok_sample: "aead_ok sample_lib"
  by (simp add: aead_ok_def sample_lib_def)

lemma hex_ok_sample: "hex_ok sample_lib"
  by (simp add: hex_ok_def sample_lib_def)

lemma argon2_ok_sample: "argon2_ok sample_lib"
  by (simp add: argon2_ok_def sample_lib_def)

lemma ssss_ok_sample: "ssss_ok sample_lib"
proof -
  have x: "trim (''x'' @ from_bytes s @ ''x'') = ''x'' @ from_bytes s @ ''x''" for s
    using trim_id [of "CHR ''x''" "CHR ''x''"] by (simp add: is_whitespace_def)
  have "ssss_unlock sample_lib (map (\<lambda>i. replicate m (''x'' @ from_bytes s @ ''x'') ! i) I) = Inr s"
    if "set I \<subseteq> {..<m}" "I \<noteq> []" for I m s
    using that by (cases I) (auto simp: sample_lib_def butlast_append)
  moreover have "I \<noteq> []" if "2 \<le> t" "unat t \<le> length I" for I :: "nat list" and t :: u8
    using that by (auto simp: word_le_nat_alt)
  ultimately show ?thesis
    using x by (auto simp: ssss_ok_def sample_lib_def split: if_splits)
qed

lemma split_secret_Inr_iff:
  "split_secret lib rnd secret t n = Inr shares \<longleftrightarrow>
     length secret = 32 \<and> 2 \<le> t \<and> t \<le> n \<and>
     (\<exists>strs. ssss_gen_shares lib rnd n t secret = Inr strs \<and>
       shares = map (\<lambda>(idx, v). \<lparr>share_index = word_of_nat idx + 1, share_value = trim v\<rparr>)
                  (zip [0..<length strs] strs))"
  (is "?L = ?R")
proof -
  have "t \<ge> 2 \<Longrightarrow> t \<noteq> 0" "t \<ge> 2 \<Longrightarrow> t \<le> n \<Longrightarrow> n \<noteq> 0"
    by (auto simp: word_le_nat_alt)
  then show ?thesis
    by (auto simp: split_secret_def KEY_SIZE_def bindR_eq_Inr_iff not_less)
qed

lemma split_shares_Inr_iff:
  "split_shares lib rnd secret n t = Inr shares \<longleftrightarrow>
     length secret = 32 \<and> 2 \<le> t \<and> t \<le> n \<and>
     (\<exists>strs. ssss_gen_shares lib rnd n t secret = Inr strs \<and>
       shares = map (\<lambda>i. (word_of_nat i + 1, trim (strs ! i))) [0..<length strs])"
proof -
  have "map (\<lambda>share. (share_index share, share_value share))
      (map (\<lambda>(idx, v). \<lparr>share_index = word_of_nat idx + 1, share_value = trim v\<rparr>)
         (zip [0..<length strs] strs))
     = map (\<lambda>i. (word_of_nat i + 1, trim (strs ! i))) [0..<length strs]" for strs
    by (rule nth_equalityI) auto
  then show ?thesis
    unfolding split_shares_def bindR_eq_Inr_iff split_secret_Inr_iff by auto
qed

lemma combine_shares_length: "combine_shares lib shares = Inr key \<Longrightarrow> length key = 32"
  by (auto simp: combine_shares_def bindR_eq_Inr_iff KEY_SIZE_def Let_def split: if_splits)

lemma combine_shares_of_unlock:
  assumes "2 \<le> length shares" "ssss_unlock lib (map share_value shares) = Inr key" "length key = 32"
  shows "combine_shares lib shares = Inr key"
  using assms by (auto simp: combine_shares_def KEY_SIZE_def Let_def)

end
