(* ===== verification/Vhsm_Certificates.thy ===== *)
theory Vhsm_Certificates
  imports Core_Crypto
begin

text \<open>The certificate helpers at the top of \<^verbatim>\<open>vhsm-daemon/src/handler.rs\<close>: the self-signed root
  certificate and the builder that signs an intermediate.  A TBSCertificate is a tree of the DER
  writer's calls; the DER encoder, P-256, the CSR parser and the certificate generator are fields
  of the parameter record \<^verbatim>\<open>hsm_lib\<close>.\<close>

section \<open>Parameters\<close>

datatype der =
    DerSequence "der list"
  | DerSet "der list"
  | DerOid "nat list"
  | DerU8 nat
  | DerU64 u64
  | DerUtf8 string
  | DerUtcTime int
  | DerBool bool
  | DerBytes bytes
  | DerBits bytes nat
  | DerTagged nat der
  | DerRaw bytes

record csr =
  csr_spki_raw :: bytes
  csr_signature_ok :: bool

record rcgen_params =
  rp_common_name :: string
  rp_is_ca :: bool
  rp_not_before :: int
  rp_not_after :: int
  rp_serial_number :: u64

record rcgen_cert =
  rc_serialize_pem :: "string + string"
  rc_private_key_der :: bytes

record hsm_lib =
  core :: crypto_lib
  p256_key_ok :: "bytes \<Rightarrow> bool"
  p256_public_sec1 :: "bytes \<Rightarrow> bytes"
  p256_random :: "entropy \<Rightarrow> bytes"
  p256_sign_sha256_der :: "bytes \<Rightarrow> bytes \<Rightarrow> bytes"
  p256_from_pkcs8_der :: "bytes \<Rightarrow> string + bytes"
  pem_parse :: "string \<Rightarrow> string + bytes"
  csr_from_der :: "bytes \<Rightarrow> csr option"
  rcgen_from_params :: "entropy \<Rightarrow> rcgen_params \<Rightarrow> string + rcgen_cert"
  construct_der :: "der \<Rightarrow> bytes"
  base64_encode :: "bytes \<Rightarrow> string"
  time_in_range :: "int \<Rightarrow> bool"
  utctime_in_range :: "int \<Rightarrow> bool"

text \<open>What one request run draws from its environment: randomness and the wall clock in seconds.\<close>

record run_ctx =
  rnd :: entropy
  now :: int

section \<open>Helpers\<close>

definition parse_pem_to_der :: "hsm_lib \<Rightarrow> string \<Rightarrow> string + bytes" where
  "parse_pem_to_der lib pem = map_err (\<lambda>e. ''PEM parse error: '' @ e) (pem_parse lib pem)"

text \<open>Adding days to a date panics when the result is not representable; \<^term>\<open>None\<close> is that panic.\<close>

definition add_days :: "hsm_lib \<Rightarrow> int \<Rightarrow> int \<Rightarrow> int option" where
  "add_days lib t days = (if time_in_range lib (t + days * 86400) then Some (t + days * 86400) else None)"

definition build_root_ca_certificate_pem ::
  "hsm_lib \<Rightarrow> run_ctx \<Rightarrow> string \<Rightarrow> string \<Rightarrow> u32 \<Rightarrow> (string + bytes \<times> bytes \<times> string) option" where
  "build_root_ca_certificate_pem lib ctx ca_tag common_name validity_days =
     (case add_days lib (now ctx) (- 1) of
        None \<Rightarrow> None
      | Some not_before \<Rightarrow>
        (case add_days lib not_before (int (unat validity_days)) of
           None \<Rightarrow> None
         | Some not_after \<Rightarrow>
           Some (
             bindR (map_err (\<lambda>e. ''Failed to build self-signed Root CA certificate: '' @ e)
               (rcgen_from_params lib (rnd ctx)
                  \<lparr>rp_common_name = common_name, rp_is_ca = True, rp_not_before = not_before,
                   rp_not_after = not_after,
                   rp_serial_number = u64_from_be_bytes (draw (rnd ctx) 0 8)\<rparr>)) (\<lambda>cert.
             bindR (map_err (\<lambda>e. ''Failed to serialize Root CA certificate: '' @ e)
               (rc_serialize_pem cert)) (\<lambda>cert_pem.
             bindR (map_err (\<lambda>e. ''Failed to parse generated CA private key: '' @ e)
               (p256_from_pkcs8_der lib (rc_private_key_der cert))) (\<lambda>secret_key.
               Inr (secret_key, p256_public_sec1 lib secret_key, cert_pem)))))))"

definition name_kms_root_ca :: der where
  "name_kms_root_ca =
     DerSequence [DerSet [DerSequence [DerOid [2, 5, 4, 3], DerUtf8 ''kms-root-ca'']]]"

definition ecdsa_with_sha256 :: der where
  "ecdsa_with_sha256 = DerSequence [DerOid [1, 2, 840, 10045, 4, 3, 2]]"

definition key_usage_octet :: u8 where
  "key_usage_octet = 0x06"

definition tbs_certificate :: "hsm_lib \<Rightarrow> u64 \<Rightarrow> int \<Rightarrow> int \<Rightarrow> bytes \<Rightarrow> der" where
  "tbs_certificate lib serial not_before not_after subject_spki_der =
     DerSequence [
       DerTagged 0 (DerU8 2),
       DerU64 serial,
       ecdsa_with_sha256,
       name_kms_root_ca,
       DerSequence [DerUtcTime not_before, DerUtcTime not_after],
       name_kms_root_ca,
       DerRaw subject_spki_der,
       DerTagged 3 (DerSequence [
         DerSequence [DerOid [2, 5, 29, 19], DerBool True,
           DerBytes (construct_der lib (DerSequence [DerBool True]))],
         DerSequence [DerOid [2, 5, 29, 15], DerBool True,
           DerBytes (construct_der lib (DerBits [key_usage_octet] 8))]])]"

function chunks :: "nat \<Rightarrow> 'a list \<Rightarrow> 'a list list" where
  "chunks n xs = (if xs = [] \<or> n = 0 then [] else take n xs # chunks n (drop n xs))"
  by auto
termination
  by (relation "measure (\<lambda>(n, xs). length xs)") auto

definition pem_encode_certificate :: "hsm_lib \<Rightarrow> bytes \<Rightarrow> string" where
  "pem_encode_certificate lib cert_der =
     ''-----BEGIN CERTIFICATE-----'' @ [CHR 0x0A]
     @ concat (map (\<lambda>chunk. chunk @ [CHR 0x0A]) (chunks 64 (base64_encode lib cert_der)))
     @ ''-----END CERTIFICATE-----'' @ [CHR 0x0A]"

definition subject_spki ::
  "hsm_lib \<Rightarrow> bytes \<Rightarrow> bytes \<Rightarrow> bool \<Rightarrow> string + bytes" where
  "subject_spki lib sk_arr csr_der_or_spki is_csr =
     (if is_csr then
        (case csr_from_der lib csr_der_or_spki of
           Some c \<Rightarrow> Inr (csr_spki_raw c)
         | None \<Rightarrow> Inl ''Failed to parse CSR to extract SubjectPublicKeyInfo'')
      else
        let public_point_bytes = p256_public_sec1 lib sk_arr in
        Inr (construct_der lib (DerSequence [
          DerSequence [DerOid [1, 2, 840, 10045, 2, 1], DerOid [1, 2, 840, 10045, 3, 1, 7]],
          DerBits public_point_bytes (8 * length public_point_bytes)])))"

definition signed_certificate :: "hsm_lib \<Rightarrow> bytes \<Rightarrow> der \<Rightarrow> der" where
  "signed_certificate lib sk_arr tbs =
     (let tbs_der = construct_der lib tbs;
          der_sig = p256_sign_sha256_der lib sk_arr tbs_der in
      DerSequence [DerRaw tbs_der, ecdsa_with_sha256, DerBits der_sig (length der_sig * 8)])"

definition build_and_sign_certificate ::
  "hsm_lib \<Rightarrow> run_ctx \<Rightarrow> bytes \<Rightarrow> bytes \<Rightarrow> u32 \<Rightarrow> bool \<Rightarrow> (string + string) option" where
  "build_and_sign_certificate lib ctx ca_sk_bytes csr_der_or_spki validity_days is_csr =
     (if length ca_sk_bytes \<noteq> 32 then Some (Inl ''Invalid CA private key length'')
      else if \<not> p256_key_ok lib ca_sk_bytes then Some (Inl ''Failed to construct signing key'')
      else case subject_spki lib ca_sk_bytes csr_der_or_spki is_csr of
        Inl e \<Rightarrow> Some (Inl e)
      | Inr spki \<Rightarrow>
        (case add_days lib (now ctx) (int (unat validity_days)) of
           None \<Rightarrow> None
         | Some not_after \<Rightarrow>
           if utctime_in_range lib (now ctx) \<and> utctime_in_range lib not_after then
             Some (Inr (pem_encode_certificate lib (construct_der lib
               (signed_certificate lib ca_sk_bytes
                  (tbs_certificate lib (u64_from_be_bytes (draw (rnd ctx) 0 8)) (now ctx) not_after spki)))))
           else None))"

section \<open>A sample library\<close>

definition sample_hsm :: hsm_lib where
  "sample_hsm = \<lparr>
     core = sample_lib,
     p256_key_ok = \<lambda>k. length k = 32,
     p256_public_sec1 = \<lambda>k. 4 # k,
     p256_random = \<lambda>rn. draw rn 0 32,
     p256_sign_sha256_der = \<lambda>k m. k @ m,
     p256_from_pkcs8_der = \<lambda>d. Inr d,
     pem_parse = \<lambda>s. Inr (as_bytes s),
     csr_from_der = \<lambda>b. Some \<lparr>csr_spki_raw = b, csr_signature_ok = True\<rparr>,
     rcgen_from_params = \<lambda>rn p. Inr \<lparr>rc_serialize_pem = Inr ''PEM'', rc_private_key_der = draw rn 3 32\<rparr>,
     construct_der = \<lambda>d. case d of DerRaw b \<Rightarrow> b | _ \<Rightarrow> [48, 0],
     base64_encode = from_bytes,
     time_in_range = \<lambda>_. True,
     utctime_in_range = \<lambda>_. True\<rparr>"

definition sample_ctx :: run_ctx where
  "sample_ctx = \<lparr>rnd = sample_entropy, now = 0\<rparr>"

section \<open>Lemmas\<close>

declare chunks.simps [simp del]

lemma chunks_Nil [simp]: "chunks n [] = []"
  by (simp add: chunks.simps)

lemma concat_chunks: "0 < n \<Longrightarrow> concat (chunks n xs) = xs"
  by (induction n xs rule: chunks.induct) (subst chunks.simps, auto)

lemma length_chunks: "c \<in> set (chunks n xs) \<Longrightarrow> c \<noteq> [] \<and> length c \<le> n"
proof (induction n xs rule: chunks.induct)
  case (1 n xs)
  show ?case
  proof (cases "xs = [] \<or> n = 0")
    case True
    with 1(2) show ?thesis by (subst (asm) chunks.simps) simp
  next
    case False
    with 1(2) have "c = take n xs \<or> c \<in> set (chunks n (drop n xs))"
      by (subst (asm) chunks.simps) simp
    with 1(1) False show ?thesis by auto
  qed
qed

lemma build_and_sign_certificate_ok:
  assumes "build_and_sign_certificate lib ctx sk csr_der days True = Some (Inr pem)"
  shows "\<exists>c not_after. csr_from_der lib csr_der = Some c \<and> length sk = 32 \<and> p256_key_ok lib sk
     \<and> not_after = now ctx + int (unat days) * 86400
     \<and> pem = pem_encode_certificate lib (construct_der lib (signed_certificate lib sk
           (tbs_certificate lib (u64_from_be_bytes (draw (rnd ctx) 0 8)) (now ctx) not_after (csr_spki_raw c))))"
  using assms
  by (auto simp: build_and_sign_certificate_def subject_spki_def add_days_def split: if_splits option.splits)

end
