(* ===== verification/Vhsm_Handler.thy ===== *)
theory Vhsm_Handler
  imports Vhsm_Certificates Hsm_Protocol
begin

text \<open>The daemon's state (\<^verbatim>\<open>state.rs\<close>), its cryptographic operations (\<^verbatim>\<open>crypto.rs\<close>) and the request
  handler (\<^verbatim>\<open>handler.rs\<close>).  A handler run takes the state lock at most twice.  Everything up to the
  release of its first lock, with the computation that follows, is its first section: it only
  reads the state and ends in a reply or in a value that waits for the second lock.  The second
  section takes that value and the state at that later time.  \<^verbatim>\<open>handle_request\<close> runs both in
  sequence; the interleaved system is in theory \<^verbatim>\<open>Vhsm_System\<close>.  A reply \<^term>\<open>None\<close> is a panic or
  process abort: no response is sent.\<close>

section \<open>State\<close>

record VhsmState =
  initialized :: bool
  active_key_version :: u32
  master_key :: "bytes option"
  unseal_started_at :: "nat option"
  active_ca_keys :: "string \<rightharpoonup> bytes"

definition new_state :: VhsmState where
  "new_state = \<lparr>initialized = False, active_key_version = 0, master_key = None,
     unseal_started_at = None, active_ca_keys = (\<lambda>_. None)\<rparr>"

definition start_unseal_timer :: "nat \<Rightarrow> VhsmState \<Rightarrow> VhsmState" where
  "start_unseal_timer instant st =
     (if unseal_started_at st = None then st\<lparr>unseal_started_at := Some instant\<rparr> else st)"

definition cancel_unseal_timer :: "VhsmState \<Rightarrow> VhsmState" where
  "cancel_unseal_timer st = st\<lparr>unseal_started_at := None\<rparr>"

definition zeroize_key :: "VhsmState \<Rightarrow> VhsmState" where
  "zeroize_key st = st\<lparr>master_key := None, initialized := False, active_key_version := 0,
     unseal_started_at := None, active_ca_keys := (\<lambda>_. None)\<rparr>"

section \<open>Cryptographic operations\<close>

definition generate_and_split_master_key ::
  "crypto_lib \<Rightarrow> entropy \<Rightarrow> u8 \<Rightarrow> u8 \<Rightarrow> (string + bytes \<times> (u8 \<times> string) list) option" where
  "generate_and_split_master_key lib rn total_shares threshold =
     (case generate_master_key rn 0 of
        None \<Rightarrow> None
      | Some raw_bytes \<Rightarrow>
          Some (bindR (map_err (\<lambda>e. ''Failed to split master key: '' @ core_error_to_string e)
                        (split_shares lib rn raw_bytes total_shares threshold)) (\<lambda>shares.
            Inr (raw_bytes, shares))))"

fun first_duplicate :: "u8 list \<Rightarrow> u8 list \<Rightarrow> u8 option" where
  "first_duplicate seen [] = None"
| "first_duplicate seen (i # is) = (if i \<in> set seen then Some i else first_duplicate (i # seen) is)"

definition reconstruct_master_key :: "crypto_lib \<Rightarrow> (u8 \<times> string) list \<Rightarrow> string + bytes" where
  "reconstruct_master_key lib shares =
     (if shares = [] then Inl ''At least one share is required''
      else case first_duplicate [] (map fst shares) of
        Some index \<Rightarrow> Inl (''Duplicate share index detected: '' @ dec (unat index))
      | None \<Rightarrow>
          bindR (map_err (\<lambda>e. ''Failed to reconstruct master key from shares: '' @ core_error_to_string e)
                   (combine_shares lib
                      (map (\<lambda>(index, v). \<lparr>share_index = index, share_value = v\<rparr>) shares))) (\<lambda>recovered.
            if length recovered \<noteq> 32 then Inl ''Recovered master key must be 32 bytes''
            else Inr recovered))"

text \<open>The nonce argument is the buffer the generator fills.\<close>

definition encrypt_bytes :: "crypto_lib \<Rightarrow> bytes \<Rightarrow> bytes \<Rightarrow> bytes \<Rightarrow> string + bytes" where
  "encrypt_bytes lib nonce_bytes key plaintext =
     bindR (map_err (\<lambda>e. ''Failed to initialize AES-GCM: '' @ e) (aes_new_from_slice lib key)) (\<lambda>_.
     bindR (map_err (\<lambda>e. ''Encryption failed: '' @ e) (aes_encrypt lib key nonce_bytes plaintext)) (\<lambda>ciphertext.
       Inr (nonce_bytes @ ciphertext)))"

definition decrypt_bytes :: "crypto_lib \<Rightarrow> bytes \<Rightarrow> bytes \<Rightarrow> string + bytes" where
  "decrypt_bytes lib key payload =
     (if length payload < 12 then Inl ''Ciphertext payload too short''
      else bindR (map_err (\<lambda>e. ''Failed to initialize AES-GCM: '' @ e) (aes_new_from_slice lib key)) (\<lambda>_.
        map_err (\<lambda>e. ''Decryption failed: '' @ e)
          (aes_decrypt lib key (take 12 payload) (drop 12 payload))))"

section \<open>Sections of a handler run\<close>

datatype pending =
    CeremonyReady bytes "(u8 \<times> string) list"
  | MasterKeyRecovered bytes
  | RootCaBuilt entropy string bytes bytes bytes string
  | RootCaDecrypted string bytes

datatype phase = Reply "HsmResponse option" | Wait pending

definition reply :: "HsmResponse \<Rightarrow> phase" where
  "reply r = Reply (Some r)"

definition locked_error :: HsmResponse where
  "locked_error = Error 403 ''vHSM is locked. Master key must be initialized first.''"

definition status_info :: "VhsmState \<Rightarrow> HsmResponse" where
  "status_info st = StatusInfo (initialized st) (active_key_version st)"

definition generate_ceremony :: "hsm_lib \<Rightarrow> run_ctx \<Rightarrow> u8 \<Rightarrow> u8 \<Rightarrow> VhsmState \<Rightarrow> phase" where
  "generate_ceremony lib ctx threshold total_shares st =
     (if initialized st then
        reply (Error 400 ''vHSM is already initialized. Reset required to re-run ceremony.'')
      else case generate_and_split_master_key (core lib) (rnd ctx) total_shares threshold of
        None \<Rightarrow> Reply None
      | Some (Inr (raw_master_key, shares)) \<Rightarrow> Wait (CeremonyReady raw_master_key shares)
      | Some (Inl msg) \<Rightarrow> reply (Error 500 msg))"

definition init_master_key :: "hsm_lib \<Rightarrow> u8 \<Rightarrow> (u8 \<times> string) list \<Rightarrow> phase" where
  "init_master_key lib threshold shares =
     (if threshold = 0 then reply (Error 400 ''Threshold must be greater than zero.'')
      else if length shares < unat threshold then
        reply (Error 422 (''Insufficient shares: '' @ dec (length shares) @ '' provided, ''
                          @ dec (unat threshold) @ '' required.''))
      else case reconstruct_master_key (core lib) shares of
        Inr recovered \<Rightarrow> Wait (MasterKeyRecovered recovered)
      | Inl msg \<Rightarrow> reply (Error 422 msg))"

text \<open>Storing a master key, the common write section of a ceremony and of an unseal.\<close>

definition install_master_key :: "bytes \<Rightarrow> VhsmState \<Rightarrow> VhsmState" where
  "install_master_key key st =
     cancel_unseal_timer (st\<lparr>master_key := Some key, initialized := True, active_key_version := 1\<rparr>)"

definition generate_kek :: "hsm_lib \<Rightarrow> run_ctx \<Rightarrow> string \<Rightarrow> VhsmState \<Rightarrow> HsmResponse" where
  "generate_kek lib ctx algorithm st =
     (case master_key st of
        None \<Rightarrow> locked_error
      | Some root_key \<Rightarrow>
          let root_key_version = active_key_version st; algorithm_name = trim algorithm in
          if algorithm_name \<noteq> ''AES256GCM'' then
            Error 400 ''Unsupported KEK algorithm. Only AES256GCM is supported.''
          else
            let kek = draw (rnd ctx) 0 32 in
            (case encrypt_bytes (core lib) (draw (rnd ctx) 1 12) root_key kek of
               Inl msg \<Rightarrow> Error 500 msg
             | Inr wrapped_kek \<Rightarrow> KekGenerated wrapped_kek 1 root_key_version algorithm_name))"

definition generate_data_key ::
  "hsm_lib \<Rightarrow> run_ctx \<Rightarrow> bytes \<Rightarrow> u32 option \<Rightarrow> string \<Rightarrow> VhsmState \<Rightarrow> HsmResponse" where
  "generate_data_key lib ctx wrapped_kek kek_version algorithm st =
     (case master_key st of
        None \<Rightarrow> locked_error
      | Some root_key \<Rightarrow>
          let root_key_version = active_key_version st; expected_kek_version = (1 :: u32) in
          if kek_version \<noteq> None \<and> the kek_version \<noteq> expected_kek_version then
            Error 409 (''Requested KEK version '' @ dec (unat (the kek_version))
              @ '' does not match active KEK version '' @ dec (unat expected_kek_version))
          else if trim algorithm \<noteq> ''AES256GCM'' then
            Error 400 ''Unsupported DEK algorithm. Only AES256GCM is supported.''
          else (case decrypt_bytes (core lib) root_key wrapped_kek of
              Inl msg \<Rightarrow> Error 500 (''Failed to unwrap KEK: '' @ msg)
            | Inr kek \<Rightarrow>
                let dek = draw (rnd ctx) 0 32 in
                (case encrypt_bytes (core lib) (draw (rnd ctx) 1 12) kek dek of
                   Inl msg \<Rightarrow> Error 500 msg
                 | Inr wrapped_dek \<Rightarrow>
                     DataKeyGenerated dek wrapped_dek expected_kek_version root_key_version)))"

definition generate_random_bytes :: "run_ctx \<Rightarrow> nat \<Rightarrow> HsmResponse" where
  "generate_random_bytes ctx len =
     (if len = 0 \<or> len > 4096 then Error 400 ''Invalid random bytes length''
      else RandomBytesGenerated (draw (rnd ctx) 0 len))"

definition init_root_ca ::
  "hsm_lib \<Rightarrow> run_ctx \<Rightarrow> string \<Rightarrow> string \<Rightarrow> u32 \<Rightarrow> string \<Rightarrow> VhsmState \<Rightarrow> phase" where
  "init_root_ca lib ctx ca_tag common_name validity_days algorithm st =
     (case master_key st of
        None \<Rightarrow> reply locked_error
      | Some _ \<Rightarrow>
          if trim algorithm \<noteq> ''ECDSA_P256'' then
            reply (Error 400 ''Unsupported algorithm for InitRootCa'')
          else
            let private_vec = p256_random lib (rnd ctx) in
            (case build_root_ca_certificate_pem lib ctx ca_tag common_name validity_days of
               None \<Rightarrow> Reply None
             | Some (Inl msg) \<Rightarrow> reply (Error 500 msg)
             | Some (Inr (cert_private, cert_public_key, cert_pem)) \<Rightarrow>
                 Wait (RootCaBuilt (rnd ctx) algorithm private_vec cert_private cert_public_key cert_pem)))"

text \<open>The second read section of \<^verbatim>\<open>InitRootCa\<close>; \<^term>\<open>None\<close> is the panic of its \<^verbatim>\<open>unwrap\<close>.\<close>

definition init_root_ca_finish ::
  "hsm_lib \<Rightarrow> entropy \<Rightarrow> string \<Rightarrow> bytes \<Rightarrow> bytes \<Rightarrow> bytes \<Rightarrow> string \<Rightarrow> VhsmState \<Rightarrow> HsmResponse option" where
  "init_root_ca_finish lib rn algorithm private_vec cert_private cert_public_key cert_pem st =
     (case master_key st of
        None \<Rightarrow> None
      | Some root_key2 \<Rightarrow>
          Some (case encrypt_bytes (core lib) (draw rn 1 12) root_key2 private_vec of
             Inl msg \<Rightarrow> Error 500 msg
           | Inr wrapped \<Rightarrow>
               (case encrypt_bytes (core lib) (draw rn 2 12) root_key2 cert_private of
                  Inl msg \<Rightarrow> Error 500 msg
                | Inr encrypted_private_key \<Rightarrow>
                    RootCaKeyGenerated encrypted_private_key cert_public_key (active_key_version st)
                      algorithm (Some cert_pem))))"

definition load_root_ca :: "hsm_lib \<Rightarrow> string \<Rightarrow> bytes \<Rightarrow> VhsmState \<Rightarrow> phase" where
  "load_root_ca lib ca_tag encrypted_private_key st =
     (case master_key st of
        None \<Rightarrow> reply locked_error
      | Some root_key \<Rightarrow>
          (case decrypt_bytes (core lib) root_key encrypted_private_key of
             Inl msg \<Rightarrow> reply (Error 422 (''Failed to decrypt provided CA blob: '' @ msg))
           | Inr decrypted \<Rightarrow> Wait (RootCaDecrypted ca_tag decrypted)))"

definition ca_not_loaded :: "string \<Rightarrow> HsmResponse" where
  "ca_not_loaded ca_tag = Error 404 (''CA with tag '' @ [CHR 0x27] @ ca_tag @ [CHR 0x27] @ '' not loaded'')"

definition sign_intermediate_ca ::
  "hsm_lib \<Rightarrow> run_ctx \<Rightarrow> string \<Rightarrow> string \<Rightarrow> u32 \<Rightarrow> VhsmState \<Rightarrow> HsmResponse option" where
  "sign_intermediate_ca lib ctx ca_tag csr_pem validity_days st =
     (case active_ca_keys st ca_tag of
        None \<Rightarrow> Some (ca_not_loaded ca_tag)
      | Some sk_bytes \<Rightarrow>
          (case parse_pem_to_der lib csr_pem of
             Inl msg \<Rightarrow> Some (Error 400 msg)
           | Inr csr_der \<Rightarrow>
               (case csr_from_der lib csr_der of
                  None \<Rightarrow> Some (Error 400 ''Failed to parse CSR as PKCS#10'')
                | Some c \<Rightarrow>
                    if \<not> csr_signature_ok c then Some (Error 422 ''CSR signature verification failed'')
                    else map_option (\<lambda>r. case r of Inl msg \<Rightarrow> Error 500 msg | Inr pem \<Rightarrow> SignedIntermediate pem)
                           (build_and_sign_certificate lib ctx sk_bytes csr_der validity_days True))))"

definition generate_credential :: "hsm_lib \<Rightarrow> run_ctx \<Rightarrow> nat \<Rightarrow> VhsmState \<Rightarrow> HsmResponse" where
  "generate_credential lib ctx password_length st =
     (case master_key st of
        None \<Rightarrow> locked_error
      | Some root_key \<Rightarrow>
          if password_length = 0 \<or> password_length > 1024 then Error 400 ''Invalid password length''
          else
            let credential_id = hex_encode (core lib) (draw (rnd ctx) 0 16);
                password_bytes = draw (rnd ctx) 1 password_length in
            (case encrypt_bytes (core lib) (draw (rnd ctx) 2 12) root_key password_bytes of
               Inl msg \<Rightarrow> Error 500 msg
             | Inr wrapped \<Rightarrow>
                 CredentialGenerated credential_id (base64_encode lib password_bytes) wrapped
                   (active_key_version st)))"

definition version_mismatch :: "u32 \<Rightarrow> u32 \<Rightarrow> HsmResponse" where
  "version_mismatch req_ver active = Error 409 (''Requested key version '' @ dec (unat req_ver)
     @ '' does not match active key version '' @ dec (unat active))"

definition encrypt_handler ::
  "hsm_lib \<Rightarrow> run_ctx \<Rightarrow> string \<Rightarrow> u32 option \<Rightarrow> bytes \<Rightarrow> VhsmState \<Rightarrow> HsmResponse" where
  "encrypt_handler lib ctx key_id key_version plaintext st =
     (if key_id \<noteq> ''master_key'' then Error 404 (''Unknown key id: '' @ key_id)
      else case master_key st of
        None \<Rightarrow> locked_error
      | Some root_key \<Rightarrow>
          if key_version \<noteq> None \<and> the key_version \<noteq> active_key_version st then
            version_mismatch (the key_version) (active_key_version st)
          else (case encrypt_bytes (core lib) (draw (rnd ctx) 0 12) root_key plaintext of
                  Inr ciphertext \<Rightarrow> Encrypted ciphertext (active_key_version st)
                | Inl msg \<Rightarrow> Error 500 msg))"

definition generate_root_ca_key ::
  "hsm_lib \<Rightarrow> run_ctx \<Rightarrow> string \<Rightarrow> VhsmState \<Rightarrow> HsmResponse option" where
  "generate_root_ca_key lib ctx algorithm st =
     (case master_key st of
        None \<Rightarrow> Some locked_error
      | Some root_key \<Rightarrow>
          let alg = trim algorithm in
          if alg \<noteq> ''ECDSA_P256'' then Some (Error 400 (''Unsupported algorithm: '' @ alg))
          else (case build_root_ca_certificate_pem lib ctx ''root'' ''kms-root-ca'' (365 * 20) of
              None \<Rightarrow> None
            | Some (Inl msg) \<Rightarrow> Some (Error 500 msg)
            | Some (Inr (cert_private, cert_public_key, cert_pem)) \<Rightarrow>
                Some (case encrypt_bytes (core lib) (draw (rnd ctx) 1 12) root_key cert_private of
                   Inl msg \<Rightarrow> Error 500 msg
                 | Inr wrapped \<Rightarrow>
                     RootCaKeyGenerated wrapped cert_public_key (active_key_version st) alg (Some cert_pem))))"

definition decrypt_handler ::
  "hsm_lib \<Rightarrow> string \<Rightarrow> u32 option \<Rightarrow> bytes \<Rightarrow> VhsmState \<Rightarrow> HsmResponse" where
  "decrypt_handler lib key_id key_version ciphertext st =
     (if key_id \<noteq> ''master_key'' then Error 404 (''Unknown key id: '' @ key_id)
      else case master_key st of
        None \<Rightarrow> locked_error
      | Some root_key \<Rightarrow>
          if key_version \<noteq> None \<and> the key_version \<noteq> active_key_version st then
            version_mismatch (the key_version) (active_key_version st)
          else (case decrypt_bytes (core lib) root_key ciphertext of
                  Inr plaintext \<Rightarrow> Decrypted plaintext (active_key_version st)
                | Inl msg \<Rightarrow> Error 500 msg))"

definition sign_with_ca_key :: "hsm_lib \<Rightarrow> string \<Rightarrow> string \<Rightarrow> bytes \<Rightarrow> VhsmState \<Rightarrow> HsmResponse" where
  "sign_with_ca_key lib ca_tag algorithm tbs st =
     (case active_ca_keys st ca_tag of
        None \<Rightarrow> ca_not_loaded ca_tag
      | Some sk_bytes \<Rightarrow>
          if algorithm \<notin> {''ECDSA_P256'', ''ECDSA_P256_SHA256'', ''ECDSA_P256-SHA256''} then
            Error 400 ''Unsupported signing algorithm''
          else if length sk_bytes \<noteq> 32 then Error 500 ''Invalid CA private key length''
          else if \<not> p256_key_ok lib sk_bytes then Error 500 ''Failed to construct signing key''
          else Signature (p256_sign_sha256_der lib sk_bytes tbs))"

section \<open>The handler\<close>

fun begin_request :: "hsm_lib \<Rightarrow> run_ctx \<Rightarrow> HsmRequest \<Rightarrow> VhsmState \<Rightarrow> phase" where
  "begin_request lib ctx Ping st = reply Pong"
| "begin_request lib ctx Status st = reply (status_info st)"
| "begin_request lib ctx (GenerateCeremony threshold total_shares) st =
     generate_ceremony lib ctx threshold total_shares st"
| "begin_request lib ctx (InitMasterKey threshold shares) st = init_master_key lib threshold shares"
| "begin_request lib ctx (GenerateKek algorithm) st = reply (generate_kek lib ctx algorithm st)"
| "begin_request lib ctx (GenerateDataKey wrapped_kek kek_version algorithm) st =
     reply (generate_data_key lib ctx wrapped_kek kek_version algorithm st)"
| "begin_request lib ctx (GenerateRandomBytes len) st = reply (generate_random_bytes ctx len)"
| "begin_request lib ctx (InitRootCa ca_tag common_name validity_days algorithm) st =
     init_root_ca lib ctx ca_tag common_name validity_days algorithm st"
| "begin_request lib ctx (LoadRootCa ca_tag encrypted_private_key) st =
     load_root_ca lib ca_tag encrypted_private_key st"
| "begin_request lib ctx (SignIntermediateCa ca_tag csr_pem validity_days) st =
     Reply (sign_intermediate_ca lib ctx ca_tag csr_pem validity_days st)"
| "begin_request lib ctx (GenerateCredential password_length) st =
     reply (generate_credential lib ctx password_length st)"
| "begin_request lib ctx (Encrypt key_id key_version plaintext) st =
     reply (encrypt_handler lib ctx key_id key_version plaintext st)"
| "begin_request lib ctx (GenerateRootCaKey algorithm) st =
     Reply (generate_root_ca_key lib ctx algorithm st)"
| "begin_request lib ctx (Decrypt key_id key_version ciphertext) st =
     reply (decrypt_handler lib key_id key_version ciphertext st)"
| "begin_request lib ctx (SignWithCaKey ca_tag algorithm tbs) st =
     reply (sign_with_ca_key lib ca_tag algorithm tbs st)"

fun finish_request :: "hsm_lib \<Rightarrow> pending \<Rightarrow> VhsmState \<Rightarrow> HsmResponse option \<times> VhsmState" where
  "finish_request lib (CeremonyReady raw_master_key shares) st =
     (Some (CeremonyGenerated shares), install_master_key raw_master_key st)"
| "finish_request lib (MasterKeyRecovered recovered) st =
     (Some MasterKeyInitialized, install_master_key recovered st)"
| "finish_request lib (RootCaBuilt rn algorithm private_vec cert_private cert_public_key cert_pem) st =
     (init_root_ca_finish lib rn algorithm private_vec cert_private cert_public_key cert_pem st, st)"
| "finish_request lib (RootCaDecrypted ca_tag decrypted) st =
     (Some MasterKeyInitialized, st\<lparr>active_ca_keys := (active_ca_keys st)(ca_tag \<mapsto> decrypted)\<rparr>)"

definition handle_request ::
  "hsm_lib \<Rightarrow> run_ctx \<Rightarrow> HsmRequest \<Rightarrow> VhsmState \<Rightarrow> HsmResponse option \<times> VhsmState" where
  "handle_request lib ctx request st =
     (case begin_request lib ctx request st of
        Reply r \<Rightarrow> (r, st)
      | Wait p \<Rightarrow> finish_request lib p st)"

text \<open>A client session: requests handled one after the other, each with its own environment.\<close>

fun handle_requests ::
  "hsm_lib \<Rightarrow> (run_ctx \<times> HsmRequest) list \<Rightarrow> VhsmState \<Rightarrow> HsmResponse option list \<times> VhsmState" where
  "handle_requests lib [] st = ([], st)"
| "handle_requests lib ((ctx, req) # reqs) st =
     (let (r, st1) = handle_request lib ctx req st;
          (rs, st2) = handle_requests lib reqs st1 in (r # rs, st2))"

section \<open>Invariant\<close>

text \<open>The daemon is locked with nothing loaded, or it holds a 32-byte master key as version 1.\<close>

definition vhsm_inv :: "VhsmState \<Rightarrow> bool" where
  "vhsm_inv st = (unseal_started_at st = None \<and>
     (case master_key st of
        None \<Rightarrow> \<not> initialized st \<and> active_key_version st = 0 \<and> active_ca_keys st = (\<lambda>_. None)
      | Some k \<Rightarrow> initialized st \<and> active_key_version st = 1 \<and> length k = 32))"

fun pending_ok :: "VhsmState \<Rightarrow> pending \<Rightarrow> bool" where
  "pending_ok st (CeremonyReady k shares) = (length k = 32)"
| "pending_ok st (MasterKeyRecovered k) = (length k = 32)"
| "pending_ok st (RootCaBuilt _ _ _ _ _ _) = (master_key st \<noteq> None)"
| "pending_ok st (RootCaDecrypted _ _) = (master_key st \<noteq> None)"

section \<open>Abstract vHSM\<close>

text \<open>What the daemon promises: it is sealed, or unsealed with one key and the certificate authority
  keys loaded so far.  Only three requests may change that, each in one way.\<close>

datatype hsm_abs = Sealed | Unsealed bytes "string \<rightharpoonup> bytes"

fun loaded_cas :: "hsm_abs \<Rightarrow> string \<rightharpoonup> bytes" where
  "loaded_cas Sealed = (\<lambda>_. None)"
| "loaded_cas (Unsealed k cas) = cas"

definition vhsm_abs :: "VhsmState \<Rightarrow> hsm_abs" where
  "vhsm_abs st = (case master_key st of None \<Rightarrow> Sealed | Some k \<Rightarrow> Unsealed k (active_ca_keys st))"

fun mutating :: "HsmRequest \<Rightarrow> HsmResponse option \<Rightarrow> bool" where
  "mutating (GenerateCeremony t n) (Some (CeremonyGenerated shares)) = True"
| "mutating (InitMasterKey t shares) (Some MasterKeyInitialized) = True"
| "mutating (LoadRootCa tag blob) (Some MasterKeyInitialized) = True"
| "mutating _ _ = False"

inductive abs_step :: "crypto_lib \<Rightarrow> hsm_abs \<Rightarrow> HsmRequest \<Rightarrow> HsmResponse option \<Rightarrow> hsm_abs \<Rightarrow> bool"
  for lib :: crypto_lib where
  abs_ceremony: "generate_and_split_master_key lib rn n t = Some (Inr (k, shares)) \<Longrightarrow>
     abs_step lib Sealed (GenerateCeremony t n) (Some (CeremonyGenerated shares)) (Unsealed k (\<lambda>_. None))"
| abs_unseal: "unat t \<le> length shares \<Longrightarrow> reconstruct_master_key lib shares = Inr k \<Longrightarrow>
     abs_step lib a (InitMasterKey t shares) (Some MasterKeyInitialized) (Unsealed k (loaded_cas a))"
| abs_load: "decrypt_bytes lib k blob = Inr sk \<Longrightarrow>
     abs_step lib (Unsealed k cas) (LoadRootCa tag blob) (Some MasterKeyInitialized)
       (Unsealed k (cas(tag \<mapsto> sk)))"
| abs_keep: "\<not> mutating req r \<Longrightarrow> abs_step lib a req r a"

section \<open>Lemmas\<close>

lemmas phase_defs = generate_ceremony_def init_master_key_def init_root_ca_def load_root_ca_def reply_def

lemma first_duplicate_None_iff:
  "first_duplicate seen is = None \<longleftrightarrow> distinct is \<and> set is \<inter> set seen = {}"
  by (induction seen "is" rule: first_duplicate.induct) auto

lemma encrypt_bytes_Inr_iff:
  "encrypt_bytes lib nonce k p = Inr c \<longleftrightarrow>
     aes_new_from_slice lib k = Inr () \<and> (\<exists>ct. aes_encrypt lib k nonce p = Inr ct \<and> c = nonce @ ct)"
  by (auto simp: encrypt_bytes_def bindR_eq_Inr_iff)

lemma decrypt_encrypt_bytes:
  assumes "aead_ok lib" "length k = 32" "length nonce = 12" "encrypt_bytes lib nonce k p = Inr c"
  shows "decrypt_bytes lib k c = Inr p"
  using assms by (auto simp: aead_ok_def encrypt_bytes_Inr_iff decrypt_bytes_def)

lemma reconstruct_length: "reconstruct_master_key lib shares = Inr k \<Longrightarrow> length k = 32"
  by (auto simp: reconstruct_master_key_def bindR_eq_Inr_iff split: if_splits option.splits)

lemma reconstruct_distinct: "reconstruct_master_key lib shares = Inr k \<Longrightarrow> distinct (map fst shares)"
  by (auto simp: reconstruct_master_key_def first_duplicate_None_iff split: if_splits option.splits)

lemma generate_and_split_Inr:
  "generate_and_split_master_key lib rn n t = Some (Inr (k, shares)) \<Longrightarrow>
     split_shares lib rn k n t = Inr shares"
  by (auto simp: generate_and_split_master_key_def bindR_eq_Inr_iff split: option.splits)

lemma generate_and_split_length:
  "generate_and_split_master_key lib rn n t = Some (Inr (k, shares)) \<Longrightarrow> length k = 32"
  by (drule generate_and_split_Inr) (simp add: split_shares_Inr_iff)

lemma vhsm_inv_new_state: "vhsm_inv new_state"
  by (simp add: vhsm_inv_def new_state_def)

lemma begin_request_Wait_cases:
  assumes "begin_request lib ctx req st = Wait p"
  obtains (ceremony) t n k shares where "req = GenerateCeremony t n" "p = CeremonyReady k shares"
      "\<not> initialized st" "generate_and_split_master_key (core lib) (rnd ctx) n t = Some (Inr (k, shares))"
  | (unseal) t shares k where "req = InitMasterKey t shares" "p = MasterKeyRecovered k"
      "t \<noteq> 0" "unat t \<le> length shares" "reconstruct_master_key (core lib) shares = Inr k"
  | (root_ca) tag cn days alg k sk cert_sk cert_pk pem where "req = InitRootCa tag cn days alg"
      "p = RootCaBuilt (rnd ctx) alg sk cert_sk cert_pk pem" "master_key st = Some k"
      "build_root_ca_certificate_pem lib ctx tag cn days = Some (Inr (cert_sk, cert_pk, pem))"
  | (load) tag blob k sk where "req = LoadRootCa tag blob" "p = RootCaDecrypted tag sk"
      "master_key st = Some k" "decrypt_bytes (core lib) k blob = Inr sk"
  using assms
  by (cases req) (auto simp: phase_defs Let_def split: if_splits option.splits sum.splits prod.splits)

lemma begin_request_pending_ok:
  "begin_request lib ctx req st = Wait p \<Longrightarrow> pending_ok st p"
  by (erule begin_request_Wait_cases) (auto intro: generate_and_split_length reconstruct_length)

lemma master_key_finish:
  "master_key st \<noteq> None \<Longrightarrow> master_key (snd (finish_request lib p st)) \<noteq> None"
  by (cases p) (auto simp: install_master_key_def cancel_unseal_timer_def)

lemma pending_ok_finish: "pending_ok st q \<Longrightarrow> pending_ok (snd (finish_request lib p st)) q"
  using master_key_finish [of st lib p] by (cases q) auto

lemma vhsm_inv_install: "vhsm_inv st \<Longrightarrow> length k = 32 \<Longrightarrow> vhsm_inv (install_master_key k st)"
  by (simp add: vhsm_inv_def install_master_key_def cancel_unseal_timer_def)

lemma vhsm_inv_finish: "vhsm_inv st \<Longrightarrow> pending_ok st p \<Longrightarrow> vhsm_inv (snd (finish_request lib p st))"
  by (cases p) (simp_all add: vhsm_inv_install, auto simp: vhsm_inv_def)

lemma vhsm_inv_handle: "vhsm_inv st \<Longrightarrow> vhsm_inv (snd (handle_request lib ctx req st))"
  by (auto simp: handle_request_def split: phase.splits intro: vhsm_inv_finish begin_request_pending_ok)

lemma vhsm_inv_handle_requests: "vhsm_inv st \<Longrightarrow> vhsm_inv (snd (handle_requests lib reqs st))"
  by (induction lib reqs st rule: handle_requests.induct)
     (simp_all add: Let_def case_prod_unfold vhsm_inv_handle prod_eq_iff)

lemma vhsm_inv_keyD:
  assumes "vhsm_inv st" "master_key st = Some k"
  shows "length k = 32" "active_key_version st = 1" "initialized st"
  using assms by (simp_all add: vhsm_inv_def)

lemma master_key_handle:
  assumes "vhsm_inv st" "master_key st = Some k" "\<And>t shares. req \<noteq> InitMasterKey t shares"
  shows "master_key (snd (handle_request lib ctx req st)) = Some k"
  using vhsm_inv_keyD [OF assms(1,2)] assms
  by (auto simp: handle_request_def split: phase.splits elim!: begin_request_Wait_cases)

end
