(* ===== verification/Vhsm_System.thy ===== *)
theory Vhsm_System
  imports Vhsm_Handler
begin

text \<open>The daemon as a concurrent system: the connection task of \<^verbatim>\<open>listener.rs\<close>, the unseal timeout
  checker of \<^verbatim>\<open>main.rs\<close>, and the interleaving of handler runs over the shared state.  A step starts
  a run (its first section), resumes a run that waits for the lock (its second section), or lets
  the checker tick.\<close>

section \<open>Timeout checker\<close>

definition UNSEAL_TIMEOUT :: nat where
  "UNSEAL_TIMEOUT = 15 * 60"

definition unseal_timeout_check :: "nat \<Rightarrow> VhsmState \<Rightarrow> VhsmState" where
  "unseal_timeout_check instant st =
     (case unseal_started_at st of
        Some started_at \<Rightarrow>
          if master_key st = None \<and> instant - started_at \<ge> UNSEAL_TIMEOUT then zeroize_key st else st
      | None \<Rightarrow> st)"

section \<open>Connection task\<close>

definition MAX_PAYLOAD_SIZE :: nat where
  "MAX_PAYLOAD_SIZE = 64 * 1024"

definition MAX_CONCURRENT_REQUESTS :: nat where
  "MAX_CONCURRENT_REQUESTS = 100"

text \<open>\<^verbatim>\<open>timeout(IO_TIMEOUT, stream.read_exact(buf)).await.is_err()\<close> is true only when the timeout fires.
  When the peer closes early the read fails but the task goes on with whatever the buffer holds:
  \<^verbatim>\<open>partial n d\<close>, which the library leaves unspecified.\<close>

fun read_unless_timeout :: "(nat \<Rightarrow> bytes \<Rightarrow> bytes) \<Rightarrow> nat \<Rightarrow> stream \<Rightarrow> (bytes \<times> stream) option" where
  "read_unless_timeout partial n (d, e) =
     (if n \<le> length d then Some (take n d, (drop n d, e))
      else case e of Stalled \<Rightarrow> None | Closed \<Rightarrow> Some (partial n d, ([], Closed)))"

definition daemon_read_frame :: "(nat \<Rightarrow> bytes \<Rightarrow> bytes) \<Rightarrow> stream \<Rightarrow> unit + bytes \<times> stream" where
  "daemon_read_frame partial st =
     bindR (ok_or () (read_unless_timeout partial 4 st)) (\<lambda>(len_buf, st1).
       let len = unat (u32_from_be_bytes len_buf) in
       if len > MAX_PAYLOAD_SIZE then Inl ()
       else ok_or () (read_unless_timeout partial len st1))"

definition daemon_frame :: "bytes \<Rightarrow> unit + bytes" where
  "daemon_frame res_payload =
     (if length res_payload > MAX_PAYLOAD_SIZE then Inl ()
      else Inr (u32_to_be_bytes (word_of_nat (length res_payload)) @ res_payload))"

definition dispatch ::
  "hsm_lib \<Rightarrow> serde_hsm \<Rightarrow> run_ctx \<Rightarrow> bytes \<Rightarrow> VhsmState \<Rightarrow> HsmResponse option \<times> VhsmState" where
  "dispatch lib sd ctx payload st =
     (case req_from_slice sd payload of
        Inr req \<Rightarrow> handle_request lib ctx req st
      | Inl err \<Rightarrow> (Some (Error 400 (''Failed to deserialize HSM request: '' @ err)), st))"

text \<open>The whole task: the bytes written back, if any, and the state it leaves.\<close>

definition serve_connection ::
  "hsm_lib \<Rightarrow> serde_hsm \<Rightarrow> (nat \<Rightarrow> bytes \<Rightarrow> bytes) \<Rightarrow> run_ctx \<Rightarrow> stream \<Rightarrow> VhsmState
     \<Rightarrow> bytes option \<times> VhsmState" where
  "serve_connection lib sd partial ctx stream st =
     (case daemon_read_frame partial stream of
        Inl _ \<Rightarrow> (None, st)
      | Inr (payload, _) \<Rightarrow>
          (case dispatch lib sd ctx payload st of
             (None, st1) \<Rightarrow> (None, st1)
           | (Some response, st1) \<Rightarrow>
               (case resp_to_vec sd response of
                  Inl _ \<Rightarrow> (None, st1)
                | Inr res_payload \<Rightarrow>
                    (case daemon_frame res_payload of
                       Inl _ \<Rightarrow> (None, st1)
                     | Inr frame \<Rightarrow> (Some frame, st1)))))"

text \<open>The transport a client sees when the daemon's task is at the other end of its socket: the bytes
  it wrote stay readable, and the daemon closes the connection after its reply.\<close>

definition daemon_transport ::
  "hsm_lib \<Rightarrow> serde_hsm \<Rightarrow> (nat \<Rightarrow> bytes \<Rightarrow> bytes) \<Rightarrow> run_ctx \<Rightarrow> VhsmState \<Rightarrow> transport" where
  "daemon_transport lib sd partial ctx st = \<lparr>
     tr_connect = \<lambda>_. Inr (),
     tr_exchange = \<lambda>frame. Inr (case fst (serve_connection lib sd partial ctx (frame, Stalled) st) of
                                 None \<Rightarrow> ([], Closed) | Some bs \<Rightarrow> (bs, Closed))\<rparr>"

text \<open>What the client and the daemon rely on of the JSON serialiser.\<close>

definition serde_ok :: "serde_hsm \<Rightarrow> bool" where
  "serde_ok sd = ((\<forall>r b. req_to_vec sd r = Inr b \<longrightarrow> req_from_slice sd b = Inr r)
     \<and> (\<forall>r b. resp_to_vec sd r = Inr b \<longrightarrow> resp_from_slice sd b = Inr r))"

section \<open>Interleaving\<close>

record vhsm_sys =
  hsm :: VhsmState
  in_flight :: "pending list"

definition initial_sys :: vhsm_sys where
  "initial_sys = \<lparr>hsm = new_state, in_flight = []\<rparr>"

text \<open>One step and the reply it sends, if it sends one.\<close>

inductive vhsm_step :: "hsm_lib \<Rightarrow> vhsm_sys \<Rightarrow> HsmResponse option option \<Rightarrow> vhsm_sys \<Rightarrow> bool"
  for lib :: hsm_lib where
  answer: "length (in_flight s) < MAX_CONCURRENT_REQUESTS \<Longrightarrow>
     begin_request lib ctx req (hsm s) = Reply r \<Longrightarrow> vhsm_step lib s (Some r) s"
| suspend: "length (in_flight s) < MAX_CONCURRENT_REQUESTS \<Longrightarrow>
     begin_request lib ctx req (hsm s) = Wait p \<Longrightarrow>
     vhsm_step lib s None (s\<lparr>in_flight := in_flight s @ [p]\<rparr>)"
| resume: "in_flight s = ps @ p # qs \<Longrightarrow> finish_request lib p (hsm s) = (r, st) \<Longrightarrow>
     vhsm_step lib s (Some r) \<lparr>hsm = st, in_flight = ps @ qs\<rparr>"
| tick: "vhsm_step lib s None (s\<lparr>hsm := unseal_timeout_check instant (hsm s)\<rparr>)"

definition vhsm_next :: "hsm_lib \<Rightarrow> vhsm_sys \<Rightarrow> vhsm_sys \<Rightarrow> bool" where
  "vhsm_next lib s t = (\<exists>r. vhsm_step lib s r t)"

definition vhsm_reachable :: "hsm_lib \<Rightarrow> vhsm_sys \<Rightarrow> bool" where
  "vhsm_reachable lib s = reachable (\<lambda>s. s = initial_sys) (vhsm_next lib) s"

text \<open>Runs with the replies they send, in order.\<close>

inductive vhsm_run :: "hsm_lib \<Rightarrow> vhsm_sys \<Rightarrow> HsmResponse option list \<Rightarrow> vhsm_sys \<Rightarrow> bool"
  for lib :: hsm_lib where
  run_nil: "vhsm_run lib s [] s"
| run_silent: "vhsm_step lib s None t \<Longrightarrow> vhsm_run lib t rs u \<Longrightarrow> vhsm_run lib s rs u"
| run_reply: "vhsm_step lib s (Some r) t \<Longrightarrow> vhsm_run lib t rs u \<Longrightarrow> vhsm_run lib s (r # rs) u"

inductive_cases vhsm_stepE: "vhsm_step lib s r t"

definition sys_inv :: "vhsm_sys \<Rightarrow> bool" where
  "sys_inv s = (vhsm_inv (hsm s) \<and> (\<forall>p\<in>set (in_flight s). pending_ok (hsm s) p)
     \<and> length (in_flight s) \<le> MAX_CONCURRENT_REQUESTS)"

section \<open>Lemmas\<close>

lemma unseal_timeout_check_id: "unseal_started_at st = None \<Longrightarrow> unseal_timeout_check i st = st"
  by (simp add: unseal_timeout_check_def)

lemma vhsm_inv_timer: "vhsm_inv st \<Longrightarrow> unseal_started_at st = None"
  by (simp add: vhsm_inv_def)

lemma sys_inv_initial: "sys_inv initial_sys"
  by (simp add: sys_inv_def initial_sys_def vhsm_inv_new_state)

lemma sys_inv_resume:
  assumes "sys_inv s" "in_flight s = ps @ p # qs" "finish_request lib p (hsm s) = (r, st)"
  shows "sys_inv \<lparr>hsm = st, in_flight = ps @ qs\<rparr>"
proof -
  have st: "st = snd (finish_request lib p (hsm s))" using assms(3) by simp
  from assms(1,2) have "vhsm_inv (hsm s)" "pending_ok (hsm s) p"
    and rest: "\<forall>q\<in>set (ps @ qs). pending_ok (hsm s) q"
    by (auto simp: sys_inv_def)
  then have "vhsm_inv st" unfolding st by (simp add: vhsm_inv_finish)
  moreover have "\<forall>q\<in>set (ps @ qs). pending_ok st q"
    unfolding st using rest by (blast intro: pending_ok_finish)
  ultimately show ?thesis using assms(1,2) by (simp add: sys_inv_def)
qed

lemma sys_inv_step: "sys_inv s \<Longrightarrow> vhsm_step lib s r t \<Longrightarrow> sys_inv t"
proof (erule vhsm_stepE, goal_cases)
  case (2 ctx req p)
  then show ?case by (auto simp: sys_inv_def begin_request_pending_ok)
next
  case (3 ps p qs r st)
  then show ?case using sys_inv_resume by simp
next
  case (4 i)
  then have "unseal_timeout_check i (hsm s) = hsm s"
    by (simp add: sys_inv_def vhsm_inv_timer unseal_timeout_check_id)
  with 4 show ?case by simp
qed simp

interpretation vhsm: invariant_system "\<lambda>s. s = initial_sys" "vhsm_next lib" sys_inv for lib
proof (unfold_locales, goal_cases)
  case (1 s)
  then show ?case by (simp add: sys_inv_initial)
next
  case (2 s t)
  then show ?case by (auto simp: vhsm_next_def intro: sys_inv_step)
qed

lemma reachable_sys_inv: "vhsm_reachable lib s \<Longrightarrow> sys_inv s"
  unfolding vhsm_reachable_def by (rule vhsm.inv_reachable)

lemma step_keeps_master_key:
  "sys_inv s \<Longrightarrow> vhsm_step lib s r t \<Longrightarrow> master_key (hsm s) \<noteq> None \<Longrightarrow> master_key (hsm t) \<noteq> None"
proof (erule vhsm_stepE, goal_cases)
  case (3 ps p qs r st)
  then show ?case using master_key_finish [of "hsm s" lib p] by simp
next
  case (4 i)
  then show ?case by (simp add: sys_inv_def vhsm_inv_timer unseal_timeout_check_id)
qed simp_all

lemma daemon_read_client_frame:
  assumes "framed_message p = Inr f" "length p \<le> MAX_PAYLOAD_SIZE"
  shows "daemon_read_frame partial (f @ d, e) = Inr (p, (d, e))"
proof -
  have "unat (word_of_nat (length p) :: u32) = length p"
    using assms(2) by (intro unat_length_u32) (simp add: MAX_PAYLOAD_SIZE_def)
  with assms show ?thesis
    by (auto simp: framed_message_Inr_iff daemon_read_frame_def Let_def)
qed

interpretation daemon_frames: framing daemon_frame read_frame_with_timeout
proof (unfold_locales, goal_cases)
  case (1 p f d e)
  then have "length p \<le> MAX_HSM_FRAME_SIZE" "f = u32_to_be_bytes (word_of_nat (length p)) @ p"
    by (auto simp: daemon_frame_def MAX_PAYLOAD_SIZE_def MAX_HSM_FRAME_SIZE_def split: if_splits)
  then show ?case by (simp add: read_frame_of_prefixed)
next
  case (2 p f)
  then show ?case by (auto simp: daemon_frame_def u32_to_be_bytes_def split: if_splits)
qed

end
