(* ===== verification/Vhsm_Theorems.thy ===== *)
theory Vhsm_Theorems
  imports Vhsm_System
begin

text \<open>The properties of the vHSM daemon: the life of a master key from ceremony to unseal, the
  safety of interleaved handler runs, the refinement of the abstract vHSM, the key hierarchy, the
  certificate authority and the exchange between client and daemon.\<close>

section \<open>Definitions used by the properties\<close>

text \<open>Requests that need an unsealed daemon.\<close>

fun needs_master_key :: "HsmRequest \<Rightarrow> bool" where
  "needs_master_key (GenerateKek _) = True"
| "needs_master_key (GenerateDataKey _ _ _) = True"
| "needs_master_key (InitRootCa _ _ _ _) = True"
| "needs_master_key (LoadRootCa _ _) = True"
| "needs_master_key (GenerateCredential _) = True"
| "needs_master_key (GenerateRootCaKey _) = True"
| "needs_master_key (Encrypt key_id _ _) = (key_id = ''master_key'')"
| "needs_master_key (Decrypt key_id _ _) = (key_id = ''master_key'')"
| "needs_master_key _ = False"

fun is_unseal :: "HsmRequest \<Rightarrow> bool" where
  "is_unseal (InitMasterKey _ _) = True"
| "is_unseal _ = False"

fun is_ceremony_reply :: "HsmResponse option \<Rightarrow> bool" where
  "is_ceremony_reply (Some (CeremonyGenerated _)) = True"
| "is_ceremony_reply _ = False"

text \<open>An unsealed daemon, for the witnesses.\<close>

definition sample_state :: VhsmState where
  "sample_state = install_master_key (replicate 32 1) new_state"

definition sample_ctx2 :: run_ctx where
  "sample_ctx2 = \<lparr>rnd = \<lparr>draw = \<lambda>i n. replicate n 2, getrandom = \<lambda>i n. Inr (replicate n 2)\<rparr>, now = 0\<rparr>"

text \<open>A serialiser that knows a ping and one oversized request.\<close>

definition sample_serde :: serde_hsm where
  "sample_serde = \<lparr>
     req_to_vec = \<lambda>r. if r = Ping then Inr [1] else if r = Status then Inr (replicate 65537 0) else Inl ''unsupported'',
     req_from_slice = \<lambda>b. if b = [1] then Inr Ping else if b = replicate 65537 0 then Inr Status else Inl ''malformed'',
     resp_to_vec = \<lambda>r. if r = Pong then Inr [2] else Inl ''unsupported'',
     resp_from_slice = \<lambda>b. if b = [2] then Inr Pong else Inl ''malformed''\<rparr>"

section \<open>Lemmas\<close>

lemma issued_iff:
  "(case z of Inl m \<Rightarrow> Error c m | Inr p \<Rightarrow> SignedIntermediate p) = SignedIntermediate pem \<longleftrightarrow> z = Inr pem"
  by (cases z) auto

lemma handle_ceremony:
  "handle_request lib ctx (GenerateCeremony t n) st = (Some (CeremonyGenerated shares), st') \<longleftrightarrow>
     \<not> initialized st \<and> (\<exists>k. generate_and_split_master_key (core lib) (rnd ctx) n t = Some (Inr (k, shares))
       \<and> st' = install_master_key k st)"
  by (auto simp: handle_request_def phase_defs split: if_splits option.splits sum.splits prod.splits)

lemma handle_unseal:
  "handle_request lib ctx (InitMasterKey t shares) st = (Some MasterKeyInitialized, st') \<longleftrightarrow>
     t \<noteq> 0 \<and> unat t \<le> length shares \<and>
     (\<exists>k. reconstruct_master_key (core lib) shares = Inr k \<and> st' = install_master_key k st)"
  by (auto simp: handle_request_def phase_defs split: if_splits option.splits sum.splits)

lemma handle_encrypt:
  "handle_request lib ctx (Encrypt ''master_key'' v p) st = (Some (Encrypted c w), st') \<longleftrightarrow>
     st' = st \<and> w = active_key_version st \<and> (v = None \<or> v = Some w) \<and>
     (\<exists>k. master_key st = Some k \<and> encrypt_bytes (core lib) (draw (rnd ctx) 0 12) k p = Inr c)"
  by (cases v) (auto simp: handle_request_def reply_def encrypt_handler_def locked_error_def
      version_mismatch_def split: if_splits option.splits sum.splits)

lemma handle_decrypt:
  assumes "master_key st = Some k" "active_key_version st = v" "decrypt_bytes (core lib) k c = Inr p"
  shows "handle_request lib ctx (Decrypt ''master_key'' (Some v) c) st = (Some (Decrypted p v), st)"
  using assms by (simp add: handle_request_def reply_def decrypt_handler_def)

lemma master_key_install [simp]:
  "master_key (install_master_key k st) = Some k"
  "active_key_version (install_master_key k st) = 1"
  "initialized (install_master_key k st)"
  "active_ca_keys (install_master_key k st) = active_ca_keys st"
  by (simp_all add: install_master_key_def cancel_unseal_timer_def)

lemma master_key_handle_requests:
  assumes "vhsm_inv st" "master_key st = Some k" "\<forall>(ctx, req)\<in>set reqs. \<not> is_unseal req"
  shows "master_key (snd (handle_requests lib reqs st)) = Some k"
  using assms
proof (induction lib reqs st rule: handle_requests.induct)
  case (2 lib ctx req reqs st)
  then have "\<And>t sh. req \<noteq> InitMasterKey t sh" by auto
  with 2 show ?case
    by (simp add: Let_def case_prod_unfold vhsm_inv_handle master_key_handle prod_eq_iff)
qed simp

text \<open>A choice of enough ceremony shares, in any order, reconstructs the key they were split from.\<close>

lemma word_succ_inj:
  assumes "i < 255" "j < 255" "(word_of_nat i + 1 :: u8) = word_of_nat j + 1"
  shows "i = j"
proof -
  from assms(3) have "(word_of_nat i :: u8) = word_of_nat j" by simp
  then have "unat (word_of_nat i :: u8) = unat (word_of_nat j :: u8)" by simp
  with assms(1,2) show ?thesis by (simp add: unat_of_nat)
qed

lemma reconstruct_of_split:
  assumes "ssss_ok lib" "split_shares lib rn k n t = Inr shares"
    and "distinct I" "set I \<subseteq> {..<length shares}" "unat t \<le> length I"
  shows "reconstruct_master_key lib (map (\<lambda>i. shares ! i) I) = Inr k"
proof -
  from assms(2) obtain strs where k: "length k = 32" and t: "2 \<le> t"
    and gen: "ssss_gen_shares lib rn n t k = Inr strs"
    and shares: "shares = map (\<lambda>i. (word_of_nat i + 1, trim (strs ! i))) [0..<length strs]"
    by (auto simp: split_shares_Inr_iff)
  note ok = assms(1) [unfolded ssss_ok_def, rule_format, OF gen]
  have "unat n < 256" using unsigned_less [of n] by simp
  then have len: "length strs \<le> 255" using ok by simp
  have I: "set I \<subseteq> {..<length strs}" using assms(4) shares by simp
  have two: "2 \<le> length I" using t assms(5) by (simp add: word_le_nat_alt)
  have nth: "shares ! i = (word_of_nat i + 1, strs ! i)" if "i \<in> set I" for i
    using that I ok shares by auto
  have fsts: "map fst (map (\<lambda>i. shares ! i) I) = map (\<lambda>i. word_of_nat i + 1) I"
    using nth by simp
  have "inj_on (\<lambda>i. word_of_nat i + 1 :: u8) (set I)"
    using I len word_succ_inj by (intro inj_onI) (meson lessThan_iff order_less_le_trans subsetD)
  then have dup: "first_duplicate [] (map fst (map (\<lambda>i. shares ! i) I)) = None"
    unfolding fsts first_duplicate_None_iff using assms(3) by (simp add: distinct_map)
  let ?recs = "map (\<lambda>(index, v). \<lparr>share_index = index, share_value = v\<rparr>) (map (\<lambda>i. shares ! i) I)"
  have vals: "map share_value ?recs = map (\<lambda>i. strs ! i) I" using nth by simp
  have "ssss_unlock lib (map (\<lambda>i. strs ! i) I) = Inr k" using ok assms(3,5) I by blast
  then have "ssss_unlock lib (map share_value ?recs) = Inr k" by (simp only: vals)
  moreover have "2 \<le> length ?recs" using two by simp
  ultimately have "combine_shares lib ?recs = Inr k" using k by (intro combine_shares_of_unlock)
  moreover have "map (\<lambda>i. shares ! i) I \<noteq> []" using two by auto
  ultimately show ?thesis using dup k by (simp add: reconstruct_master_key_def)
qed

lemma handle_kek:
  "handle_request lib ctx (GenerateKek alg) st = (Some (KekGenerated w kv rv a), st') \<longleftrightarrow>
     st' = st \<and> kv = 1 \<and> rv = active_key_version st \<and> a = ''AES256GCM'' \<and> trim alg = ''AES256GCM'' \<and>
     (\<exists>k. master_key st = Some k \<and>
        encrypt_bytes (core lib) (draw (rnd ctx) 1 12) k (draw (rnd ctx) 0 32) = Inr w)"
  by (auto simp: handle_request_def reply_def generate_kek_def locked_error_def Let_def
      split: if_splits option.splits sum.splits)

lemma handle_data_key:
  assumes "master_key st = Some k" "decrypt_bytes (core lib) k wrapped_kek = Inr kek"
    and "encrypt_bytes (core lib) (draw (rnd ctx) 1 12) kek (draw (rnd ctx) 0 32) = Inr wrapped_dek"
    and "v = None \<or> v = Some 1" "trim alg = ''AES256GCM''"
  shows "handle_request lib ctx (GenerateDataKey wrapped_kek v alg) st =
     (Some (DataKeyGenerated (draw (rnd ctx) 0 32) wrapped_dek 1 (active_key_version st)), st)"
  using assms by (auto simp: handle_request_def reply_def generate_data_key_def Let_def)

lemma handle_init_root_ca:
  assumes "handle_request lib ctx (InitRootCa tag cn days alg) st = (Some (RootCaKeyGenerated epk pk v a pem), st')"
  obtains k cert_sk pem' where "st' = st" "master_key st = Some k" "v = active_key_version st"
    "build_root_ca_certificate_pem lib ctx tag cn days = Some (Inr (cert_sk, pk, pem'))" "pem = Some pem'"
    "encrypt_bytes (core lib) (draw (rnd ctx) 2 12) k cert_sk = Inr epk"
  using assms
  by (auto simp: handle_request_def phase_defs init_root_ca_finish_def locked_error_def Let_def
      split: if_splits option.splits sum.splits prod.splits)

lemma handle_load_root_ca:
  assumes "master_key st = Some k" "decrypt_bytes (core lib) k blob = Inr sk"
  shows "handle_request lib ctx (LoadRootCa tag blob) st =
     (Some MasterKeyInitialized, st\<lparr>active_ca_keys := (active_ca_keys st)(tag \<mapsto> sk)\<rparr>)"
  using assms by (simp add: handle_request_def phase_defs)

lemma build_root_ca_public:
  "build_root_ca_certificate_pem lib ctx tag cn days = Some (Inr (sk, pk, pem)) \<Longrightarrow>
     pk = p256_public_sec1 lib sk"
  by (auto simp: build_root_ca_certificate_pem_def bindR_eq_Inr_iff split: option.splits)

lemma abs_step_handle:
  assumes "vhsm_inv st"
  shows "abs_step (core lib) (vhsm_abs st) req (fst (handle_request lib ctx req st))
           (vhsm_abs (snd (handle_request lib ctx req st)))"
proof (cases "begin_request lib ctx req st")
  case (Reply r)
  then have "\<not> mutating req r"
    by (cases req)
       (auto simp: phase_defs locked_error_def Let_def elim!: mutating.elims split: if_splits option.splits sum.splits prod.splits)
  with Reply show ?thesis by (simp add: handle_request_def abs_keep)
next
  case (Wait p)
  from Wait show ?thesis
  proof (cases rule: begin_request_Wait_cases)
    case (ceremony t n k shares)
    with assms have "vhsm_abs st = Sealed" "active_ca_keys st = (\<lambda>_. None)"
      by (auto simp: vhsm_inv_def vhsm_abs_def split: option.splits)
    with ceremony Wait show ?thesis
      by (simp add: handle_request_def vhsm_abs_def abs_ceremony)
  next
    case (unseal t shares k)
    have "loaded_cas (vhsm_abs st) = active_ca_keys st"
      using assms by (simp add: vhsm_inv_def vhsm_abs_def split: option.splits)
    with unseal Wait abs_unseal [of t shares "core lib" k "vhsm_abs st"] show ?thesis
      by (simp add: handle_request_def vhsm_abs_def)
  next
    case (root_ca tag cn days alg k sk cert_sk cert_pk pem)
    with Wait show ?thesis
      by (auto simp: handle_request_def init_root_ca_finish_def intro!: abs_keep split: sum.splits)
  next
    case (load tag blob k sk)
    with Wait show ?thesis
      by (simp add: handle_request_def vhsm_abs_def abs_load)
  qed
qed

lemma ceremony_reply_unlocks:
  assumes "is_ceremony_reply (fst (handle_request lib ctx req st))"
  shows "\<not> initialized st \<and> initialized (snd (handle_request lib ctx req st))"
proof (cases "begin_request lib ctx req st")
  case (Reply r)
  with assms show ?thesis
    by (cases req)
       (auto simp: handle_request_def phase_defs status_info_def generate_kek_def generate_data_key_def
          generate_random_bytes_def sign_intermediate_ca_def generate_credential_def encrypt_handler_def
          generate_root_ca_key_def decrypt_handler_def sign_with_ca_key_def locked_error_def
          version_mismatch_def ca_not_loaded_def Let_def
        elim!: is_ceremony_reply.elims split: if_splits option.splits sum.splits prod.splits)
next
  case (Wait p)
  from Wait show ?thesis
    by (cases rule: begin_request_Wait_cases)
       (use assms Wait in \<open>auto simp: handle_request_def init_root_ca_finish_def split: sum.splits\<close>)
qed

lemma initialized_handle:
  "initialized st \<Longrightarrow> initialized (snd (handle_request lib ctx req st))"
proof (cases "begin_request lib ctx req st")
  case (Wait p)
  assume "initialized st"
  with Wait show ?thesis by (cases p) (auto simp: handle_request_def)
qed (simp add: handle_request_def)

lemma no_ceremony_once_initialized:
  "initialized st \<Longrightarrow> filter is_ceremony_reply (fst (handle_requests lib reqs st)) = []"
proof (induction lib reqs st rule: handle_requests.induct)
  case (2 lib ctx req reqs st)
  then show ?case
    using ceremony_reply_unlocks [of lib ctx req st] initialized_handle [of st lib ctx req]
    by (auto simp: Let_def case_prod_unfold prod_eq_iff)
qed simp

section \<open>Properties\<close>

text \<open>C1: Data encrypted under a ceremony's master key survives a restart.  If a fresh daemon runs a
  ceremony and then encrypts data, then a restarted daemon that is given any choice of at least
  threshold many of the ceremony's shares, in any order, accepts them, and decrypts the data.\<close>

theorem unseal_recovers_data:
  assumes "aead_ok (core lib)" "ssss_ok (core lib)" "entropy_ok (rnd ctx1)"
    and "handle_request lib ctx0 (GenerateCeremony t n) new_state = (Some (CeremonyGenerated shares), st0)"
    and "handle_request lib ctx1 (Encrypt ''master_key'' v pt) st0 = (Some (Encrypted ct w), st1)"
    and "distinct I" "set I \<subseteq> {..<length shares}" "unat t \<le> length I"
  shows "\<exists>st2. handle_request lib ctx2 (InitMasterKey t (map (\<lambda>i. shares ! i) I)) new_state
                = (Some MasterKeyInitialized, st2)
         \<and> handle_request lib ctx3 (Decrypt ''master_key'' (Some w) ct) st2 = (Some (Decrypted pt w), st2)"
proof -
  from assms(4) obtain k where gen: "generate_and_split_master_key (core lib) (rnd ctx0) n t = Some (Inr (k, shares))"
    and st0: "st0 = install_master_key k new_state"
    by (auto simp: handle_ceremony)
  note split = generate_and_split_Inr [OF gen]
  have t: "t \<noteq> 0" using split by (auto simp: split_shares_Inr_iff)
  have rec: "reconstruct_master_key (core lib) (map (\<lambda>i. shares ! i) I) = Inr k"
    using reconstruct_of_split [OF assms(2) split assms(6-8)] .
  from assms(5) have w: "w = 1" and enc: "encrypt_bytes (core lib) (draw (rnd ctx1) 0 12) k pt = Inr ct"
    by (auto simp: handle_encrypt st0)
  have dec: "decrypt_bytes (core lib) k ct = Inr pt"
    using decrypt_encrypt_bytes [OF assms(1) generate_and_split_length [OF gen] _ enc] assms(3)
    by (simp add: entropy_ok_def)
  show ?thesis
  proof (intro exI conjI)
    show "handle_request lib ctx2 (InitMasterKey t (map (\<lambda>i. shares ! i) I)) new_state
            = (Some MasterKeyInitialized, install_master_key k new_state)"
      using rec t assms(8) by (simp add: handle_unseal)
    show "handle_request lib ctx3 (Decrypt ''master_key'' (Some w) ct) (install_master_key k new_state)
            = (Some (Decrypted pt w), install_master_key k new_state)"
      using dec w by (intro handle_decrypt) simp_all
  qed
qed

text \<open>C2: A ciphertext stays decryptable for as long as the daemon runs and nobody unseals it again:
  after any sequence of other requests, decrypting under the reported key version returns the plaintext.\<close>

theorem ciphertext_stays_decryptable:
  assumes "aead_ok (core lib)" "entropy_ok (rnd ctx)" "vhsm_inv st"
    and "handle_request lib ctx (Encrypt ''master_key'' v pt) st = (Some (Encrypted ct w), st1)"
    and "\<forall>(c, req)\<in>set reqs. \<not> is_unseal req"
  shows "fst (handle_request lib ctx' (Decrypt ''master_key'' (Some w) ct)
               (snd (handle_requests lib reqs st1))) = Some (Decrypted pt w)"
proof -
  from assms(4) obtain k where st1: "st1 = st" and w: "w = active_key_version st" and k: "master_key st = Some k"
    and enc: "encrypt_bytes (core lib) (draw (rnd ctx) 0 12) k pt = Inr ct"
    by (auto simp: handle_encrypt)
  let ?st = "snd (handle_requests lib reqs st1)"
  have inv: "vhsm_inv ?st" using assms(3) st1 by (simp add: vhsm_inv_handle_requests)
  have k': "master_key ?st = Some k" using master_key_handle_requests [OF assms(3) k assms(5)] st1 by simp
  have "decrypt_bytes (core lib) k ct = Inr pt"
    using decrypt_encrypt_bytes [OF assms(1) vhsm_inv_keyD(1) [OF assms(3) k] _ enc] assms(2)
    by (simp add: entropy_ok_def)
  moreover have "active_key_version ?st = w"
    using w vhsm_inv_keyD(2) [OF assms(3) k] vhsm_inv_keyD(2) [OF inv k'] by simp
  ultimately show ?thesis using handle_decrypt [OF k'] by simp
qed

text \<open>C4: In every state the interleaved daemon can reach, it is either locked with version 0 and no
  certificate authority key loaded, or holds a 32-byte master key as version 1; the unseal timer is
  never running; and at most 100 handler runs wait for the lock.\<close>

theorem reachable_invariant:
  assumes "vhsm_reachable lib s"
  shows "vhsm_inv (hsm s) \<and> length (in_flight s) \<le> MAX_CONCURRENT_REQUESTS
       \<and> unseal_timeout_check i (hsm s) = hsm s"
  using reachable_sys_inv [OF assms]
  by (simp add: sys_inv_def vhsm_inv_timer unseal_timeout_check_id)

text \<open>C19: However handler runs interleave, a run that resumes with the second lock answers: the
  \<^verbatim>\<open>unwrap\<close> of the master key in \<^verbatim>\<open>InitRootCa\<close> never panics.\<close>

theorem resumed_run_answers:
  assumes "vhsm_reachable lib s" "p \<in> set (in_flight s)"
  shows "fst (finish_request lib p (hsm s)) \<noteq> None"
proof -
  have "pending_ok (hsm s) p" using reachable_sys_inv [OF assms(1)] assms(2) by (simp add: sys_inv_def)
  then show ?thesis by (cases p) (auto simp: init_root_ca_finish_def)
qed


text \<open>C23: Two ceremonies that interleave between the check and the write both hand out their shares, and
  the second overwrites the master key of the first: the first set of shares belongs to a key the
  daemon no longer holds.\<close>

theorem concurrent_ceremonies_overwrite:
  fixes ctx1 ctx2 :: run_ctx
  assumes "generate_and_split_master_key (core lib) (rnd ctx1) n t = Some (Inr (k1, shares1))"
    and "generate_and_split_master_key (core lib) (rnd ctx2) n t = Some (Inr (k2, shares2))"
  shows "\<exists>s. vhsm_run lib initial_sys [Some (CeremonyGenerated shares1), Some (CeremonyGenerated shares2)] s
           \<and> master_key (hsm s) = Some k2"
proof -
  let ?p1 = "CeremonyReady k1 shares1" and ?p2 = "CeremonyReady k2 shares2"
  let ?s1 = "\<lparr>hsm = new_state, in_flight = [?p1]\<rparr>" and ?s2 = "\<lparr>hsm = new_state, in_flight = [?p1, ?p2]\<rparr>"
  let ?st1 = "install_master_key k1 new_state"
  let ?s3 = "\<lparr>hsm = ?st1, in_flight = [?p2]\<rparr>" and ?s4 = "\<lparr>hsm = install_master_key k2 ?st1, in_flight = []\<rparr>"
  have new: "\<not> initialized new_state" by (simp add: new_state_def)
  have "vhsm_step lib initial_sys None ?s1"
    using suspend [of initial_sys lib ctx1 "GenerateCeremony t n" ?p1] assms(1) new
    by (simp add: initial_sys_def phase_defs MAX_CONCURRENT_REQUESTS_def)
  moreover have "vhsm_step lib ?s1 None ?s2"
    using suspend [of ?s1 lib ctx2 "GenerateCeremony t n" ?p2] assms(2) new
    by (simp add: phase_defs MAX_CONCURRENT_REQUESTS_def)
  moreover have "vhsm_step lib ?s2 (Some (Some (CeremonyGenerated shares1))) ?s3"
    using resume [of ?s2 "[]" ?p1 "[?p2]" lib] by simp
  moreover have "vhsm_step lib ?s3 (Some (Some (CeremonyGenerated shares2))) ?s4"
    using resume [of ?s3 "[]" ?p2 "[]" lib] by simp
  ultimately have "vhsm_run lib initial_sys [Some (CeremonyGenerated shares1), Some (CeremonyGenerated shares2)] ?s4"
    by (blast intro: vhsm_run.intros)
  then show ?thesis by (intro exI [of _ ?s4]) simp
qed

text \<open>When requests are handled one after the other, a fresh daemon hands out ceremony shares at most
  once, whatever the requests are.\<close>

theorem sequential_single_ceremony:
  "length (filter is_ceremony_reply (fst (handle_requests lib reqs st))) \<le> 1"
proof (induction lib reqs st rule: handle_requests.induct)
  case (2 lib ctx req reqs st)
  show ?case
  proof (cases "is_ceremony_reply (fst (handle_request lib ctx req st))")
    case True
    then have "initialized (snd (handle_request lib ctx req st))" using ceremony_reply_unlocks by blast
    with True show ?thesis
      using no_ceremony_once_initialized by (simp add: Let_def case_prod_unfold)
  next
    case False
    with 2 show ?thesis by (simp add: Let_def case_prod_unfold prod_eq_iff)
  qed
qed simp

text \<open>C14: A locked daemon refuses every request that needs the master key with status 403 and stays as it
  is, and refuses certificate signing with status 404 because no authority key is loaded.\<close>

theorem locked_daemon_refuses:
  assumes "vhsm_inv st" "master_key st = None"
  shows "(needs_master_key req \<longrightarrow> handle_request lib ctx req st = (Some locked_error, st))
     \<and> handle_request lib ctx (SignWithCaKey tag alg tbs) st = (Some (ca_not_loaded tag), st)
     \<and> handle_request lib ctx (SignIntermediateCa tag csr_pem days) st = (Some (ca_not_loaded tag), st)"
proof (intro conjI impI)
  show "needs_master_key req \<Longrightarrow> handle_request lib ctx req st = (Some locked_error, st)"
    using assms(2)
    by (cases req) (simp_all add: handle_request_def phase_defs generate_kek_def generate_data_key_def
        generate_credential_def generate_root_ca_key_def encrypt_handler_def decrypt_handler_def)
  have "active_ca_keys st = (\<lambda>_. None)" using assms by (simp add: vhsm_inv_def)
  then show "handle_request lib ctx (SignWithCaKey tag alg tbs) st = (Some (ca_not_loaded tag), st)"
    and "handle_request lib ctx (SignIntermediateCa tag csr_pem days) st = (Some (ca_not_loaded tag), st)"
    by (simp_all add: handle_request_def reply_def sign_with_ca_key_def sign_intermediate_ca_def)
qed

text \<open>C3: The request handler refines the abstract vHSM: from every state that satisfies the invariant, each
  request's reply and state change are a step of the abstract machine.\<close>

theorem handler_refines_abstract:
  assumes "vhsm_inv st" "handle_request lib ctx req st = (r, st')"
  shows "abs_step (core lib) (vhsm_abs st) req r (vhsm_abs st') \<and> vhsm_inv st'"
  using abs_step_handle [OF assms(1), of lib req ctx] vhsm_inv_handle [OF assms(1), of lib ctx req] assms(2)
  by simp

text \<open>C16: The key hierarchy unwraps: a data key issued under a wrapped key-encryption key comes with a
  wrapped form that decrypts, under the key the master key unwraps, to the plaintext data key.\<close>

theorem data_key_unwraps:
  assumes "aead_ok (core lib)" "vhsm_inv st" "entropy_ok (rnd ctx1)" "entropy_ok (rnd ctx2)"
    and "handle_request lib ctx1 (GenerateKek alg) st = (Some (KekGenerated wrapped_kek kv rv a), st1)"
    and "handle_request lib ctx2 (GenerateDataKey wrapped_kek (Some kv) a) st1
           = (Some (DataKeyGenerated dek wrapped_dek kv' rv'), st2)"
  shows "\<exists>k kek. master_key st2 = Some k \<and> decrypt_bytes (core lib) k wrapped_kek = Inr kek
           \<and> decrypt_bytes (core lib) kek wrapped_dek = Inr dek \<and> length dek = 32
           \<and> kv' = kv \<and> rv' = rv"
proof -
  from assms(5) obtain k where k: "master_key st = Some k" and st1: "st1 = st" and kv: "kv = 1"
    and rv: "rv = active_key_version st" and a: "a = ''AES256GCM''"
    and enc: "encrypt_bytes (core lib) (draw (rnd ctx1) 1 12) k (draw (rnd ctx1) 0 32) = Inr wrapped_kek"
    by (auto simp: handle_kek)
  have draws: "length (draw (rnd ctx1) 0 32) = 32" "length (draw (rnd ctx1) 1 12) = 12"
    "length (draw (rnd ctx2) 0 32) = 32" "length (draw (rnd ctx2) 1 12) = 12"
    using assms(3,4) by (simp_all add: entropy_ok_def)
  let ?kek = "draw (rnd ctx1) 0 32"
  have kek: "decrypt_bytes (core lib) k wrapped_kek = Inr ?kek"
    using decrypt_encrypt_bytes [OF assms(1) vhsm_inv_keyD(1) [OF assms(2) k] draws(2) enc] .
  have trim: "trim ''AES256GCM'' = ''AES256GCM''" by (simp add: trim_def is_whitespace_def)
  from assms(6) kek k st1 kv a trim have
    dek: "dek = draw (rnd ctx2) 0 32" and w: "encrypt_bytes (core lib) (draw (rnd ctx2) 1 12) ?kek dek = Inr wrapped_dek"
    and rest: "st2 = st" "kv' = 1" "rv' = active_key_version st"
    by (auto simp: handle_request_def reply_def generate_data_key_def Let_def split: sum.splits)
  have "decrypt_bytes (core lib) ?kek wrapped_dek = Inr dek"
    using decrypt_encrypt_bytes [OF assms(1) draws(1) draws(4) w] .
  then show ?thesis using k kek rest rv kv dek draws(3) by simp
qed


text \<open>C15: When request and response fit the daemon's 64 KiB limit, one exchange over the socket returns to the
  client exactly what the request handler computes: the response, or the client error made from an
  error response.\<close>

theorem exchange_returns_handler_response:
  assumes "serde_ok sd" "req_to_vec sd req = Inr b" "length b \<le> MAX_PAYLOAD_SIZE"
    and "handle_request lib ctx req st = (Some resp, st')"
    and "resp_to_vec sd resp = Inr c" "length c \<le> MAX_PAYLOAD_SIZE"
  shows "send_hsm_request sd (daemon_transport lib sd partial ctx st) path req = response_or_error resp"
proof -
  have frame: "framed_message b = Inr (u32_to_be_bytes (word_of_nat (length b)) @ b)" (is "_ = Inr ?f")
    using assms(3) by (simp add: framed_message_Inr_iff MAX_PAYLOAD_SIZE_def MAX_HSM_FRAME_SIZE_def)
  have read: "daemon_read_frame partial (?f, Stalled) = Inr (b, ([], Stalled))"
    using daemon_read_client_frame [OF frame assms(3), of partial "[]" Stalled] by simp
  have "dispatch lib sd ctx b st = (Some resp, st')"
    using assms(1,2,4) by (simp add: dispatch_def serde_ok_def)
  moreover obtain g where g: "daemon_frame c = Inr g" using assms(6) by (simp add: daemon_frame_def)
  ultimately have served: "fst (serve_connection lib sd partial ctx (?f, Stalled) st) = Some g"
    using read assms(5) by (simp add: serve_connection_def)
  have "read_frame_with_timeout (g, Closed) = Inr (c, ([], Closed))"
    using daemon_frames.decode_encode [OF g, of "[]" Closed] by simp
  moreover have "resp_from_slice sd c = Inr resp" using assms(1,5) by (simp add: serde_ok_def)
  ultimately show ?thesis
    using assms(2) frame served by (simp add: send_hsm_request_def daemon_transport_def Let_def)
qed

text \<open>A request between 64 KiB and the client's own 1 MiB limit is framed and sent, but the daemon drops
  it unread: the client sees the connection close, and the daemon's state does not change.\<close>

theorem oversized_request_dropped:
  assumes "req_to_vec sd req = Inr b" "MAX_PAYLOAD_SIZE < length b" "length b \<le> MAX_HSM_FRAME_SIZE"
  shows "send_hsm_request sd (daemon_transport lib sd partial ctx st) path req = Inl (Io ''early eof'')
     \<and> (\<exists>f. framed_message b = Inr f \<and> serve_connection lib sd partial ctx (f, e) st = (None, st))"
proof -
  have frame: "framed_message b = Inr (u32_to_be_bytes (word_of_nat (length b)) @ b)" (is "_ = Inr ?f")
    using assms(3) by (simp add: framed_message_Inr_iff)
  have "unat (word_of_nat (length b) :: u32) = length b"
    using assms(3) by (intro unat_length_u32) (simp add: MAX_HSM_FRAME_SIZE_def)
  then have "daemon_read_frame partial (?f, e) = Inl ()" for e
    using assms(2) by (simp add: daemon_read_frame_def Let_def)
  then have served: "serve_connection lib sd partial ctx (?f, e) st = (None, st)" for e
    by (simp add: serve_connection_def)
  have "send_hsm_request sd (daemon_transport lib sd partial ctx st) path req = Inl (Io ''early eof'')"
    using assms(1) frame served
    by (simp add: send_hsm_request_def daemon_transport_def read_frame_with_timeout_def Let_def)
  with frame served show ?thesis by blast
qed


section \<open>Witnesses\<close>

text \<open>Concrete runs of the sample library, shared by the witnesses.\<close>

lemma sample_rnd_ok: "entropy_ok (rnd sample_ctx)"
  by (simp add: sample_ctx_def entropy_ok_sample)

lemma sample_core: "core sample_hsm = sample_lib"
  by (simp add: sample_hsm_def)

lemma sample_ceremony:
  "\<exists>shares. length shares = 3 \<and> generate_and_split_master_key (core sample_hsm) (rnd sample_ctx) 3 2
      = Some (Inr (replicate 32 1, shares))"
  by (simp add: sample_core sample_ctx_def generate_and_split_master_key_def generate_master_key_def
      sample_entropy_def KEY_SIZE_def split_shares_def split_secret_def)
     (simp add: sample_lib_def)

lemma sample_state_inv: "vhsm_inv sample_state"
  by (simp add: sample_state_def vhsm_inv_install vhsm_inv_new_state)

lemma sample_encrypt:
  "handle_request sample_hsm sample_ctx (Encrypt ''master_key'' None [5]) sample_state
     = (Some (Encrypted (replicate 12 1 @ 5 # replicate 32 1) 1), sample_state)"
  by (simp add: handle_encrypt sample_state_def encrypt_bytes_Inr_iff sample_core sample_ctx_def
      sample_entropy_def) (simp add: sample_lib_def)

lemma sample_ceremony_handled:
  assumes "generate_and_split_master_key (core sample_hsm) (rnd sample_ctx) 3 2 = Some (Inr (replicate 32 1, shares))"
  shows "handle_request sample_hsm sample_ctx (GenerateCeremony 2 3) new_state
     = (Some (CeremonyGenerated shares), sample_state)"
  using assms by (simp add: handle_ceremony sample_state_def new_state_def)

theorem unseal_recovers_data_witness:
  "\<exists>shares ct st2. length shares = 3
     \<and> handle_request sample_hsm sample_ctx (GenerateCeremony 2 3) new_state
         = (Some (CeremonyGenerated shares), sample_state)
     \<and> handle_request sample_hsm sample_ctx (Encrypt ''master_key'' None [5]) sample_state
         = (Some (Encrypted ct 1), sample_state)
     \<and> handle_request sample_hsm sample_ctx (InitMasterKey 2 (map (\<lambda>i. shares ! i) [2, 0])) new_state
         = (Some MasterKeyInitialized, st2)
     \<and> handle_request sample_hsm sample_ctx (Decrypt ''master_key'' (Some 1) ct) st2 = (Some (Decrypted [5] 1), st2)"
proof -
  obtain shares where sh: "length shares = 3" "generate_and_split_master_key (core sample_hsm) (rnd sample_ctx) 3 2
      = Some (Inr (replicate 32 1, shares))" using sample_ceremony by blast
  note cer = sample_ceremony_handled [OF sh(2)]
  have "distinct [2, 0 :: nat]" "set [2, 0] \<subseteq> {..<length shares}" "unat (2 :: u8) \<le> length [2, 0 :: nat]"
    using sh(1) by simp_all
  with unseal_recovers_data [OF _ _ sample_rnd_ok cer sample_encrypt, of "[2, 0]" sample_ctx sample_ctx]
  show ?thesis using sh(1) cer sample_encrypt by (auto simp: sample_core aead_ok_sample ssss_ok_sample)
qed

theorem ciphertext_stays_decryptable_witness:
  "\<exists>ct. handle_request sample_hsm sample_ctx (Encrypt ''master_key'' None [5]) sample_state
         = (Some (Encrypted ct 1), sample_state)
     \<and> fst (handle_request sample_hsm sample_ctx (Decrypt ''master_key'' (Some 1) ct)
          (snd (handle_requests sample_hsm [(sample_ctx, GenerateCeremony 2 3), (sample_ctx, Status)] sample_state)))
        = Some (Decrypted [5] 1)"
  using ciphertext_stays_decryptable [OF _ sample_rnd_ok sample_state_inv sample_encrypt,
      of "[(sample_ctx, GenerateCeremony 2 3), (sample_ctx, Status)]" sample_ctx] sample_encrypt
  by (auto simp: sample_core aead_ok_sample)

text \<open>A reachable state with a suspended ceremony.\<close>

lemma sample_reachable:
  assumes "generate_and_split_master_key (core sample_hsm) (rnd sample_ctx) 3 2 = Some (Inr (k, shares))"
  shows "vhsm_reachable sample_hsm \<lparr>hsm = new_state, in_flight = [CeremonyReady k shares]\<rparr>"
proof -
  have "vhsm_step sample_hsm initial_sys None \<lparr>hsm = new_state, in_flight = [CeremonyReady k shares]\<rparr>"
    using suspend [of initial_sys sample_hsm sample_ctx "GenerateCeremony 2 3" "CeremonyReady k shares"] assms
    by (simp add: initial_sys_def phase_defs MAX_CONCURRENT_REQUESTS_def new_state_def)
  then show ?thesis
    unfolding vhsm_reachable_def by (intro reachable_step [OF reachable_init]) (auto simp: vhsm_next_def)
qed

theorem reachable_invariant_witness:
  "vhsm_reachable sample_hsm initial_sys \<and> vhsm_inv (hsm initial_sys)
     \<and> length (in_flight initial_sys) \<le> MAX_CONCURRENT_REQUESTS
     \<and> unseal_timeout_check 1000 (hsm initial_sys) = hsm initial_sys"
proof -
  have "vhsm_reachable sample_hsm initial_sys"
    unfolding vhsm_reachable_def by (rule reachable_init) simp
  with reachable_invariant [OF this] show ?thesis by blast
qed

theorem resumed_run_answers_witness:
  "\<exists>s p. vhsm_reachable sample_hsm s \<and> p \<in> set (in_flight s) \<and> fst (finish_request sample_hsm p (hsm s)) \<noteq> None"
proof -
  obtain shares where "generate_and_split_master_key (core sample_hsm) (rnd sample_ctx) 3 2
      = Some (Inr (replicate 32 1, shares))" using sample_ceremony by blast
  note r = sample_reachable [OF this]
  then show ?thesis using resumed_run_answers [OF r, of "CeremonyReady (replicate 32 1) shares"] by auto
qed


lemma sample_ceremony2:
  "\<exists>shares. generate_and_split_master_key (core sample_hsm) (rnd sample_ctx2) 3 2
      = Some (Inr (replicate 32 2, shares))"
  by (simp add: sample_core sample_ctx2_def generate_and_split_master_key_def generate_master_key_def
      KEY_SIZE_def split_shares_def split_secret_def)
     (simp add: sample_lib_def)

theorem concurrent_ceremonies_overwrite_witness:
  "\<exists>shares1 shares2 s.
     vhsm_run sample_hsm initial_sys [Some (CeremonyGenerated shares1), Some (CeremonyGenerated shares2)] s
     \<and> master_key (hsm s) = Some (replicate 32 2)
     \<and> reconstruct_master_key sample_lib shares1 = Inr (replicate 32 1)"
proof -
  obtain shares1 where g1: "length shares1 = 3" "generate_and_split_master_key (core sample_hsm) (rnd sample_ctx) 3 2
      = Some (Inr (replicate 32 1, shares1))" using sample_ceremony by blast
  obtain shares2 where g2: "generate_and_split_master_key (core sample_hsm) (rnd sample_ctx2) 3 2
      = Some (Inr (replicate 32 2, shares2))" using sample_ceremony2 by blast
  have "reconstruct_master_key sample_lib (map (\<lambda>i. shares1 ! i) [0..<length shares1]) = Inr (replicate 32 1)"
    using reconstruct_of_split [OF ssss_ok_sample generate_and_split_Inr [OF g1(2) [unfolded sample_core]],
        of "[0..<length shares1]"] g1(1) by (simp add: lessThan_atLeast0)
  moreover have "map (\<lambda>i. shares1 ! i) [0..<length shares1] = shares1" by (rule map_nth)
  ultimately show ?thesis using concurrent_ceremonies_overwrite [OF g1(2) g2] by auto
qed

theorem locked_daemon_refuses_witness:
  "vhsm_inv new_state \<and> master_key new_state = None \<and> needs_master_key (GenerateKek ''AES256GCM'')
     \<and> handle_request sample_hsm sample_ctx (GenerateKek ''AES256GCM'') new_state = (Some locked_error, new_state)
     \<and> handle_request sample_hsm sample_ctx (SignWithCaKey ''root'' ''ECDSA_P256'' []) new_state
         = (Some (ca_not_loaded ''root''), new_state)"
proof -
  have m: "master_key new_state = None" by (simp add: new_state_def)
  from locked_daemon_refuses [OF vhsm_inv_new_state m] m show ?thesis
    by (simp add: vhsm_inv_new_state)
qed

theorem handler_refines_abstract_witness:
  "\<exists>r st'. vhsm_inv new_state \<and> handle_request sample_hsm sample_ctx (GenerateCeremony 2 3) new_state = (r, st')
     \<and> mutating (GenerateCeremony 2 3) r
     \<and> abs_step sample_lib Sealed (GenerateCeremony 2 3) r (Unsealed (replicate 32 1) (\<lambda>_. None))"
proof -
  obtain shares where g: "generate_and_split_master_key (core sample_hsm) (rnd sample_ctx) 3 2
      = Some (Inr (replicate 32 1, shares))" using sample_ceremony by blast
  note h = sample_ceremony_handled [OF g]
  have "vhsm_abs new_state = Sealed" "vhsm_abs sample_state = Unsealed (replicate 32 1) (\<lambda>_. None)"
    by (simp_all add: vhsm_abs_def sample_state_def) (simp_all add: new_state_def)
  with handler_refines_abstract [OF vhsm_inv_new_state h] h show ?thesis
    by (simp add: sample_core vhsm_inv_new_state)
qed

lemma sample_kek:
  "handle_request sample_hsm sample_ctx (GenerateKek ''AES256GCM'') sample_state
     = (Some (KekGenerated (replicate 12 2 @ replicate 32 1 @ replicate 32 1) 1 1 ''AES256GCM''), sample_state)"
  by (simp add: handle_kek sample_state_def encrypt_bytes_Inr_iff sample_core sample_ctx_def
      sample_entropy_def trim_def is_whitespace_def)
     (simp add: sample_lib_def)

lemma sample_data_key:
  "\<exists>w. handle_request sample_hsm sample_ctx
     (GenerateDataKey (replicate 12 2 @ replicate 32 1 @ replicate 32 1) (Some 1) ''AES256GCM'') sample_state
     = (Some (DataKeyGenerated (replicate 32 1) w 1 1), sample_state)"
proof -
  have "decrypt_bytes sample_lib (replicate 32 1) (replicate 12 2 @ replicate 32 1 @ replicate 32 1)
      = Inr (replicate 32 1)"
    by (rule decrypt_encrypt_bytes [OF aead_ok_sample, of _ "replicate 12 2"])
       (simp_all add: encrypt_bytes_Inr_iff sample_lib_def)
  moreover have "encrypt_bytes sample_lib (replicate 12 2) (replicate 32 1) (replicate 32 1)
      = Inr (replicate 12 2 @ replicate 32 1 @ replicate 32 1)"
    by (simp add: encrypt_bytes_Inr_iff sample_lib_def)
  ultimately show ?thesis
    using handle_data_key [of sample_state "replicate 32 1" sample_hsm _ "replicate 32 1" sample_ctx
        "replicate 12 2 @ replicate 32 1 @ replicate 32 1" "Some 1" "''AES256GCM''"]
    by (simp add: sample_core sample_state_def sample_ctx_def sample_entropy_def trim_def is_whitespace_def)
qed

theorem data_key_unwraps_witness:
  "\<exists>wrapped_kek wrapped_dek k kek.
     handle_request sample_hsm sample_ctx (GenerateKek ''AES256GCM'') sample_state
       = (Some (KekGenerated wrapped_kek 1 1 ''AES256GCM''), sample_state)
     \<and> handle_request sample_hsm sample_ctx (GenerateDataKey wrapped_kek (Some 1) ''AES256GCM'') sample_state
       = (Some (DataKeyGenerated (replicate 32 1) wrapped_dek 1 1), sample_state)
     \<and> decrypt_bytes sample_lib k wrapped_kek = Inr kek
     \<and> decrypt_bytes sample_lib kek wrapped_dek = Inr (replicate 32 1)"
proof -
  obtain w where w: "handle_request sample_hsm sample_ctx
     (GenerateDataKey (replicate 12 2 @ replicate 32 1 @ replicate 32 1) (Some 1) ''AES256GCM'') sample_state
     = (Some (DataKeyGenerated (replicate 32 1) w 1 1), sample_state)" using sample_data_key by blast
  from data_key_unwraps [OF _ sample_state_inv sample_rnd_ok sample_rnd_ok sample_kek w]
  show ?thesis using sample_kek w by (auto simp: sample_core aead_ok_sample)
qed

lemma sample_root_ca:
  "handle_request sample_hsm sample_ctx (InitRootCa ''root'' ''kms'' 10 ''ECDSA_P256'') sample_state
     = (Some (RootCaKeyGenerated (replicate 12 3 @ replicate 32 4 @ replicate 32 1) (4 # replicate 32 4) 1
          ''ECDSA_P256'' (Some ''PEM'')), sample_state)"
  by (simp add: handle_request_def phase_defs init_root_ca_finish_def build_root_ca_certificate_pem_def
      add_days_def sample_hsm_def sample_state_def sample_ctx_def sample_entropy_def trim_def
      is_whitespace_def encrypt_bytes_def)
     (simp add: sample_lib_def encrypt_bytes_def)

lemma sample_load_ca:
  "\<exists>st2. handle_request sample_hsm sample_ctx
       (LoadRootCa ''root'' (replicate 12 3 @ replicate 32 4 @ replicate 32 1)) sample_state
     = (Some MasterKeyInitialized, st2)"
proof -
  have "decrypt_bytes (core sample_hsm) (replicate 32 1) (replicate 12 3 @ replicate 32 4 @ replicate 32 1)
      = Inr (replicate 32 4)"
    unfolding sample_core
    by (rule decrypt_encrypt_bytes [OF aead_ok_sample, of _ "replicate 12 3"])
       (simp_all add: encrypt_bytes_Inr_iff sample_lib_def)
  then show ?thesis
    using handle_load_root_ca [of sample_state "replicate 32 1" sample_hsm] by (simp add: sample_state_def)
qed


lemma sample_serde_ok: "serde_ok sample_serde"
proof -
  have "replicate 65537 (0 :: u8) \<noteq> [1]"
  proof
    assume "replicate 65537 (0 :: u8) = [1]"
    then have "length (replicate 65537 (0 :: u8)) = length [1 :: u8]" by (simp only:)
    then show False by simp
  qed
  then show ?thesis by (auto simp: serde_ok_def sample_serde_def)
qed

theorem exchange_returns_handler_response_witness:
  "send_hsm_request sample_serde (daemon_transport sample_hsm sample_serde (\<lambda>_ d. d) sample_ctx new_state) [] Ping
     = response_or_error Pong"
  by (rule exchange_returns_handler_response [OF sample_serde_ok, of Ping "[1]" sample_hsm sample_ctx new_state Pong new_state "[2]"])
     (simp_all add: sample_serde_def MAX_PAYLOAD_SIZE_def handle_request_def reply_def)

theorem oversized_request_dropped_witness:
  "req_to_vec sample_serde Status = Inr (replicate 65537 0)
     \<and> send_hsm_request sample_serde (daemon_transport sample_hsm sample_serde (\<lambda>_ d. d) sample_ctx new_state) [] Status
       = Inl (Io ''early eof'')"
proof -
  have "req_to_vec sample_serde Status = Inr (replicate 65537 0)" by (simp add: sample_serde_def)
  then show ?thesis
    using oversized_request_dropped [of sample_serde Status "replicate 65537 0"]
    by (simp add: MAX_PAYLOAD_SIZE_def MAX_HSM_FRAME_SIZE_def)
qed


end
