(* ===== verification/Kms_Types.thy ===== *)
theory Kms_Types
  imports Hsm_Protocol
begin

text \<open>The domain types of the KMS service: errors and their HTTP form
  (\<^verbatim>\<open>kms-service/src/errors/app_error.rs\<close>), key algorithms, purposes, states and entities
  (\<^verbatim>\<open>domain/crypto.rs\<close>, \<^verbatim>\<open>domain/keys/models.rs\<close>).  A UUID is its 128-bit value, a point in time a
  number of nanoseconds since the epoch.\<close>

type_synonym uuid = nat
type_synonym timestamp = int
type_synonym service_id = string

section \<open>Errors\<close>

datatype AppError =
    KeyNotFound string
  | Unauthorized
  | Forbidden
  | NotFound string
  | ValidationError string
  | CryptoError string
  | DatabaseError string
  | RedisError
  | HsmError HsmClientError
  | TimeoutError
  | ConfigError string
  | SerializationError string
  | RuntimeError string
  | Conflict string
  | ExternalServiceError string
  | AppInternal string

fun error_code :: "AppError \<Rightarrow> string" where
  "error_code (KeyNotFound _) = ''KEY_NOT_FOUND''"
| "error_code Unauthorized = ''UNAUTHORIZED''"
| "error_code Forbidden = ''FORBIDDEN''"
| "error_code (NotFound _) = ''RESOURCE_NOT_FOUND''"
| "error_code (ValidationError _) = ''VALIDATION_ERROR''"
| "error_code (Conflict _) = ''CONFLICT_ERROR''"
| "error_code (CryptoError _) = ''CRYPTO_FAILURE''"
| "error_code (DatabaseError _) = ''INTERNAL_SERVER_ERROR''"
| "error_code RedisError = ''INTERNAL_SERVER_ERROR''"
| "error_code (HsmError _) = ''HSM_COMMUNICATION_ERROR''"
| "error_code TimeoutError = ''TIMEOUT_ERROR''"
| "error_code (ConfigError _) = ''CONFIG_INVALID''"
| "error_code (SerializationError _) = ''VALIDATION_ERROR''"
| "error_code (ExternalServiceError _) = ''EXTERNAL_SERVICE_UNAVAILABLE''"
| "error_code (RuntimeError _) = ''INTERNAL_SERVER_ERROR''"
| "error_code (AppInternal _) = ''INTERNAL_SERVER_ERROR''"

fun public_message :: "AppError \<Rightarrow> string" where
  "public_message (KeyNotFound _) = ''Key not found''"
| "public_message Unauthorized = ''Authentication failed''"
| "public_message Forbidden = ''Forbidden''"
| "public_message (NotFound _) = ''Resource not found''"
| "public_message (ValidationError _) = ''Invalid request''"
| "public_message (Conflict _) = ''Resource conflict''"
| "public_message (CryptoError _) = ''Cryptographic operation failed''"
| "public_message (DatabaseError _) = ''Internal server error''"
| "public_message RedisError = ''Internal server error''"
| "public_message (HsmError _) = ''HSM communication error''"
| "public_message TimeoutError = ''Request timed out''"
| "public_message (ConfigError _) = ''Configuration error''"
| "public_message (SerializationError _) = ''Invalid request''"
| "public_message (ExternalServiceError _) = ''External service unavailable''"
| "public_message (RuntimeError _) = ''Internal server error''"
| "public_message (AppInternal _) = ''Internal server error''"

fun http_status :: "AppError \<Rightarrow> nat" where
  "http_status (KeyNotFound _) = 404"
| "http_status Unauthorized = 401"
| "http_status Forbidden = 403"
| "http_status (NotFound _) = 404"
| "http_status (ValidationError _) = 400"
| "http_status (Conflict _) = 409"
| "http_status (CryptoError _) = 422"
| "http_status (DatabaseError _) = 500"
| "http_status RedisError = 500"
| "http_status (HsmError _) = 502"
| "http_status (SerializationError _) = 400"
| "http_status (ConfigError _) = 500"
| "http_status (ExternalServiceError _) = 502"
| "http_status (RuntimeError _) = 500"
| "http_status (AppInternal _) = 500"
| "http_status TimeoutError = 408"

definition into_response :: "AppError \<Rightarrow> nat \<times> string \<times> string" where
  "into_response e = (http_status e, error_code e, public_message e)"

text \<open>The Polish letters of the messages, in UTF-8.\<close>

definition pl_a :: string where "pl_a = [CHR 0xC4, CHR 0x85]"

definition pl_e :: string where "pl_e = [CHR 0xC4, CHR 0x99]"

definition pl_l :: string where "pl_l = [CHR 0xC5, CHR 0x82]"

definition pl_n :: string where "pl_n = [CHR 0xC5, CHR 0x84]"

definition pl_o :: string where "pl_o = [CHR 0xC3, CHR 0xB3]"

definition pl_s :: string where "pl_s = [CHR 0xC5, CHR 0x9B]"

definition pl_c :: string where "pl_c = [CHR 0xC4, CHR 0x87]"

definition pl_z :: string where "pl_z = [CHR 0xC5, CHR 0xBC]"

definition pl_zi :: string where "pl_zi = [CHR 0xC5, CHR 0xBA]"

fun hsm_error_display :: "HsmClientError \<Rightarrow> string" where
  "hsm_error_display (Io _) = ''connection to HSM failed''"
| "hsm_error_display Timeout = ''HSM request timed out''"
| "hsm_error_display InvalidFrame = ''HSM frame is invalid''"
| "hsm_error_display InvalidResponse = ''HSM response was invalid''"
| "hsm_error_display (Serialization _) = ''serializing HSM request failed''"
| "hsm_error_display (Remote m) = ''HSM returned an error: '' @ m"
| "hsm_error_display PlatformNotSupported = ''Unix domain sockets are not available on this platform''"

fun app_error_display :: "AppError \<Rightarrow> string" where
  "app_error_display (KeyNotFound m) = ''Nie znaleziono klucza: '' @ m"
| "app_error_display Unauthorized = ''Autoryzacja nie powiod'' @ pl_l @ ''a si'' @ pl_e"
| "app_error_display Forbidden = ''Brak uprawnie'' @ pl_n @ '' do wykonania tej akcji''"
| "app_error_display (NotFound m) = ''Nie znaleziono zasobu: '' @ m"
| "app_error_display (ValidationError m) = ''B'' @ pl_l @ pl_e @ ''dne dane wej'' @ pl_s @ ''ciowe: '' @ m"
| "app_error_display (CryptoError m) = m"
| "app_error_display (DatabaseError m) = m"
| "app_error_display RedisError = ''B'' @ pl_l @ pl_a @ ''d us'' @ pl_l @ ''ugi Redis''"
| "app_error_display (HsmError e) = ''B'' @ pl_l @ pl_a @ ''d komunikacji z HSM: '' @ hsm_error_display e"
| "app_error_display TimeoutError = ''B'' @ pl_l @ pl_a @ ''d timeout''"
| "app_error_display (ConfigError m) = ''B'' @ pl_l @ pl_a @ ''d konfiguracji: '' @ m"
| "app_error_display (SerializationError m) = ''B'' @ pl_l @ pl_a @ ''d serializacji/deserializacji: '' @ m"
| "app_error_display (RuntimeError m) = ''B'' @ pl_l @ pl_a @ ''d '' @ pl_s @ ''rodowiska wykonawczego: '' @ m"
| "app_error_display (Conflict m) = ''Zas'' @ pl_o @ ''b w konflikcie: '' @ m"
| "app_error_display (ExternalServiceError m) = ''B'' @ pl_l @ pl_a @ ''d zewn'' @ pl_e @ ''trznej us'' @ pl_l @ ''ugi (HTTP): '' @ m"
| "app_error_display (AppInternal m) = ''Wyst'' @ pl_a @ ''pi'' @ pl_l @ '' nieoczekiwany b'' @ pl_l @ pl_a @ ''d serwera: '' @ m"

section \<open>Keys\<close>

datatype KeyAlgorithm = Ed25519 | X25519 | AES256GCM | HmacSha256 | EcdsaP256

fun algorithm_as_str :: "KeyAlgorithm \<Rightarrow> string" where
  "algorithm_as_str Ed25519 = ''Ed25519''"
| "algorithm_as_str X25519 = ''X25519''"
| "algorithm_as_str AES256GCM = ''AES256GCM''"
| "algorithm_as_str HmacSha256 = ''HmacSha256''"
| "algorithm_as_str EcdsaP256 = ''ECDSA_P256''"

text \<open>The derived \<^verbatim>\<open>Debug\<close> form, \<^verbatim>\<open>{:?}\<close>: the constructor's name.\<close>

fun algorithm_debug :: "KeyAlgorithm \<Rightarrow> string" where
  "algorithm_debug Ed25519 = ''Ed25519''"
| "algorithm_debug X25519 = ''X25519''"
| "algorithm_debug AES256GCM = ''AES256GCM''"
| "algorithm_debug HmacSha256 = ''HmacSha256''"
| "algorithm_debug EcdsaP256 = ''EcdsaP256''"

datatype KeyPurpose = Signing | Encryption | Authentication

fun purpose_debug :: "KeyPurpose \<Rightarrow> string" where
  "purpose_debug Signing = ''Signing''"
| "purpose_debug Encryption = ''Encryption''"
| "purpose_debug Authentication = ''Authentication''"

datatype KeyStatus = Active | Deprecated timestamp | Revoked | Expired | Compromised

datatype RotationReason = ScheduledRotation | CompromisedRotation | ManualRotation

fun reason_debug :: "RotationReason \<Rightarrow> string" where
  "reason_debug ScheduledRotation = ''Scheduled''"
| "reason_debug CompromisedRotation = ''Compromised''"
| "reason_debug ManualRotation = ''Manual''"

record RawKeyPair =
  rk_public_key_pem :: string
  rk_private_key_bytes :: bytes

record EncryptedPrivateKey =
  epk_ciphertext :: bytes
  epk_master_key_version :: int

record KeyPairEntity =
  kp_id :: uuid
  kp_service_id :: service_id
  kp_algorithm :: KeyAlgorithm
  kp_purpose :: KeyPurpose
  kp_public_key_pem :: string
  kp_encrypted_private_key :: EncryptedPrivateKey
  kp_version :: u32
  kp_status :: KeyStatus
  kp_created_at :: timestamp
  kp_expires_at :: "timestamp option"

section \<open>Lemmas\<close>

lemma algorithm_debug_inject [simp]: "algorithm_debug a = algorithm_debug b \<longleftrightarrow> a = b"
  by (cases a; cases b) simp_all

lemma purpose_debug_inject [simp]: "purpose_debug a = purpose_debug b \<longleftrightarrow> a = b"
  by (cases a; cases b) simp_all

end
