(* ===== verification/Acl_Policy.thy ===== *)
theory Acl_Policy
  imports Kms_Types
begin

text \<open>Authorisation: the service ACL and its compiled form (\<^verbatim>\<open>config/acl.rs\<close>), the IAM policy for
  credentials (\<^verbatim>\<open>config/iam_json.rs\<close>) and the provider constraints (\<^verbatim>\<open>config/providers_acl.rs\<close>).  A hash
  map is an association list in its iteration order.\<close>

section \<open>Service ACL\<close>

datatype KeyAccessLevel = PrivateKey | PublicKey | SymmetricKey | GenerateDataKeyAccess

record AccessRule =
  rule_target_service :: service_id
  rule_algorithm :: KeyAlgorithm
  rule_access_level :: KeyAccessLevel
  rule_preload :: bool

datatype ControlAction =
    GenerateKeys
  | RotateOwnKeys
  | RotateAllKeys
  | RevokeKeys
  | AuditVerify
  | AuditRead
  | BootstrapImport
  | CaSignIntermediate

record ServiceConfig =
  cfg_service_id :: service_id
  cfg_secret :: bytes
  cfg_allowed_access :: "AccessRule list"
  cfg_allowed_actions :: "ControlAction list option"

record AclSettings =
  acl_services :: "(string \<times> ServiceConfig) list"

record AccessRuleKey =
  ark_caller :: service_id
  ark_target :: service_id
  ark_algorithm :: KeyAlgorithm
  ark_access_level :: KeyAccessLevel

record PreloadKey =
  pk_target :: service_id
  pk_algorithm :: KeyAlgorithm

record CompiledAcl =
  acl_access :: "AccessRuleKey set"
  acl_preload :: "PreloadKey set"
  acl_actions :: "string \<rightharpoonup> ControlAction set"

definition is_allowed ::
  "CompiledAcl \<Rightarrow> service_id \<Rightarrow> service_id \<Rightarrow> KeyAlgorithm \<Rightarrow> KeyAccessLevel \<Rightarrow> bool" where
  "is_allowed acl caller target algorithm requested_access =
     (\<lparr>ark_caller = caller, ark_target = target, ark_algorithm = algorithm,
       ark_access_level = requested_access\<rparr> \<in> acl_access acl)"

definition should_preload_for :: "CompiledAcl \<Rightarrow> service_id \<Rightarrow> KeyAlgorithm \<Rightarrow> bool" where
  "should_preload_for acl target algorithm =
     (\<lparr>pk_target = target, pk_algorithm = algorithm\<rparr> \<in> acl_preload acl)"

definition has_control_action :: "CompiledAcl \<Rightarrow> service_id \<Rightarrow> ControlAction \<Rightarrow> bool" where
  "has_control_action acl caller action =
     (case acl_actions acl caller of None \<Rightarrow> False | Some actions \<Rightarrow> action \<in> actions)"

definition authorize_key_access ::
  "CompiledAcl \<Rightarrow> service_id \<Rightarrow> service_id \<Rightarrow> KeyAlgorithm \<Rightarrow> KeyAccessLevel \<Rightarrow> bool" where
  "authorize_key_access policy caller target algorithm access =
     is_allowed policy caller target algorithm access"

definition authorize_control_action :: "CompiledAcl \<Rightarrow> service_id \<Rightarrow> ControlAction \<Rightarrow> bool" where
  "authorize_control_action policy caller action = has_control_action policy caller action"

text \<open>The body of \<^verbatim>\<open>compile\<close>'s loop over one service, and over one of its rules.\<close>

definition compile_rule :: "service_id \<Rightarrow> AccessRule \<Rightarrow> CompiledAcl \<Rightarrow> CompiledAcl" where
  "compile_rule sid rule acl = acl\<lparr>
     acl_access := insert \<lparr>ark_caller = sid, ark_target = rule_target_service rule,
        ark_algorithm = rule_algorithm rule, ark_access_level = rule_access_level rule\<rparr> (acl_access acl),
     acl_preload := (if rule_preload rule
        then insert \<lparr>pk_target = rule_target_service rule, pk_algorithm = rule_algorithm rule\<rparr> (acl_preload acl)
        else acl_preload acl)\<rparr>"

definition compile_service :: "ServiceConfig \<Rightarrow> CompiledAcl \<Rightarrow> CompiledAcl" where
  "compile_service cfg acl =
     (let service_actions = set (case cfg_allowed_actions cfg of None \<Rightarrow> [] | Some as \<Rightarrow> as) in
      fold (compile_rule (cfg_service_id cfg)) (cfg_allowed_access cfg)
        (acl\<lparr>acl_actions := (acl_actions acl)(cfg_service_id cfg \<mapsto> service_actions)\<rparr>))"

definition empty_acl :: CompiledAcl where
  "empty_acl = \<lparr>acl_access = {}, acl_preload = {}, acl_actions = (\<lambda>_. None)\<rparr>"

definition compile :: "AclSettings \<Rightarrow> CompiledAcl" where
  "compile settings = fold (\<lambda>(_, cfg). compile_service cfg) (acl_services settings) empty_acl"

definition settings_is_allowed ::
  "AclSettings \<Rightarrow> service_id \<Rightarrow> service_id \<Rightarrow> KeyAlgorithm \<Rightarrow> KeyAccessLevel \<Rightarrow> bool" where
  "settings_is_allowed settings caller target algorithm requested_access =
     (case map_of (acl_services settings) caller of
        None \<Rightarrow> False
      | Some cfg \<Rightarrow> list_ex (\<lambda>rule. rule_target_service rule = target \<and> rule_algorithm rule = algorithm
                              \<and> rule_access_level rule = requested_access) (cfg_allowed_access cfg))"

definition settings_should_preload_for :: "AclSettings \<Rightarrow> service_id \<Rightarrow> KeyAlgorithm \<Rightarrow> bool" where
  "settings_should_preload_for settings target algorithm =
     list_ex (\<lambda>(_, cfg). list_ex (\<lambda>rule. rule_target_service rule = target \<and> rule_algorithm rule = algorithm
                             \<and> rule_preload rule) (cfg_allowed_access cfg)) (acl_services settings)"

definition settings_has_control_action :: "AclSettings \<Rightarrow> service_id \<Rightarrow> ControlAction \<Rightarrow> bool" where
  "settings_has_control_action settings caller action =
     (case map_of (acl_services settings) caller of
        None \<Rightarrow> False
      | Some cfg \<Rightarrow> (case cfg_allowed_actions cfg of None \<Rightarrow> False | Some as \<Rightarrow> action \<in> set as))"

section \<open>IAM policy\<close>

record IamStatement =
  st_sid :: string
  st_effect :: string
  st_roles :: "string list"
  st_actions :: "string list"
  st_resources :: "string list"

record IamCredentialPolicy =
  pol_version :: string
  pol_statements :: "IamStatement list"

text \<open>\<^verbatim>\<open>str::strip_suffix\<close> of one character.\<close>

definition strip_suffix_char :: "char \<Rightarrow> string \<Rightarrow> string option" where
  "strip_suffix_char c s = (if s \<noteq> [] \<and> last s = c then Some (butlast s) else None)"

definition match_pattern :: "string \<Rightarrow> string \<Rightarrow> bool" where
  "match_pattern pattern candidate =
     (if pattern = ''*'' \<or> pattern = candidate then True
      else case strip_suffix_char (CHR ''*'') pattern of
        Some prefix \<Rightarrow> starts_with candidate prefix
      | None \<Rightarrow>
          (case strip_prefix pattern candidate of
             Some suffix \<Rightarrow> starts_with suffix '':'' \<or> suffix = []
           | None \<Rightarrow>
               (case strip_suffix_char (CHR ''*'') candidate of
                  Some prefix \<Rightarrow> starts_with pattern prefix
                | None \<Rightarrow> False)))"

definition statement_matches :: "string \<Rightarrow> string \<Rightarrow> string \<Rightarrow> IamStatement \<Rightarrow> bool" where
  "statement_matches role action resource stmt =
     (list_ex (\<lambda>r. r = ''*'' \<or> r = role) (st_roles stmt)
      \<and> list_ex (\<lambda>a. match_pattern a action) (st_actions stmt)
      \<and> list_ex (\<lambda>r. match_pattern r resource) (st_resources stmt))"

fun scan_statements :: "string \<Rightarrow> string \<Rightarrow> string \<Rightarrow> IamStatement list \<Rightarrow> bool \<times> bool \<Rightarrow> bool \<times> bool" where
  "scan_statements role action resource [] flags = flags"
| "scan_statements role action resource (stmt # stmts) (matched_allow, matched_deny) =
     (if \<not> statement_matches role action resource stmt then
        scan_statements role action resource stmts (matched_allow, matched_deny)
      else scan_statements role action resource stmts
        (if st_effect stmt = ''Deny'' then (matched_allow, True)
         else if st_effect stmt = ''Allow'' then (True, matched_deny)
         else (matched_allow, matched_deny)))"

definition is_action_allowed :: "IamCredentialPolicy \<Rightarrow> string \<Rightarrow> string \<Rightarrow> string \<Rightarrow> bool" where
  "is_action_allowed policy role action resource =
     (let (matched_allow, matched_deny) =
            scan_statements role action resource (pol_statements policy) (False, False) in
      if matched_deny then False else matched_allow)"

section \<open>Provider constraints\<close>

record ProviderPolicy =
  pp_max_ttl_seconds :: "int option"
  pp_default_ttl_seconds :: "int option"
  pp_redis_acl_rules :: "string list option"

definition quoted :: "string \<Rightarrow> string" where
  "quoted s = [CHR 0x27] @ s @ [CHR 0x27]"

definition validate_provider :: "string \<Rightarrow> ProviderPolicy \<Rightarrow> string + unit" where
  "validate_provider name policy =
     (let def = pp_default_ttl_seconds policy; max = pp_max_ttl_seconds policy in
      if def \<noteq> None \<and> the def \<le> 0 then
        Inl (''default_ttl_seconds for '' @ quoted name @ '' must be > 0'')
      else if max \<noteq> None \<and> the max \<le> 0 then
        Inl (''max_ttl_seconds for '' @ quoted name @ '' must be > 0'')
      else if def \<noteq> None \<and> max \<noteq> None \<and> the def > the max then
        Inl (''default_ttl_seconds > max_ttl_seconds for '' @ quoted name)
      else if pp_redis_acl_rules policy = Some [] then
        Inl (''service '' @ quoted name @ '' has empty redis.acl_rules'')
      else Inr ())"

fun validate_providers :: "(string \<times> ProviderPolicy) list \<Rightarrow> string + unit" where
  "validate_providers [] = Inr ()"
| "validate_providers ((name, policy) # rest) =
     bindR (validate_provider name policy) (\<lambda>_. validate_providers rest)"

definition providers_acl_validate :: "(string \<times> ProviderPolicy) list \<Rightarrow> string + unit" where
  "providers_acl_validate services =
     (if services = [] then Inl ''providers_acl.json contains no services''
      else validate_providers services)"

section \<open>Well-formed settings\<close>

text \<open>Every service is filed under its own identifier, once.\<close>

definition acl_wf :: "AclSettings \<Rightarrow> bool" where
  "acl_wf settings = (distinct (map fst (acl_services settings))
     \<and> (\<forall>(name, cfg)\<in>set (acl_services settings). cfg_service_id cfg = name))"

section \<open>Lemmas\<close>

definition rule_key :: "service_id \<Rightarrow> AccessRule \<Rightarrow> AccessRuleKey" where
  "rule_key sid rule = \<lparr>ark_caller = sid, ark_target = rule_target_service rule,
     ark_algorithm = rule_algorithm rule, ark_access_level = rule_access_level rule\<rparr>"

definition preload_key :: "AccessRule \<Rightarrow> PreloadKey" where
  "preload_key rule = \<lparr>pk_target = rule_target_service rule, pk_algorithm = rule_algorithm rule\<rparr>"

lemma compile_rules:
  "acl_access (fold (compile_rule sid) rules acl) = acl_access acl \<union> rule_key sid ` set rules"
  "acl_preload (fold (compile_rule sid) rules acl) = acl_preload acl \<union> preload_key ` {r \<in> set rules. rule_preload r}"
  "acl_actions (fold (compile_rule sid) rules acl) = acl_actions acl"
  by (induction rules arbitrary: acl) (auto simp: compile_rule_def rule_key_def preload_key_def)

lemma compile_services_access:
  "acl_access (fold (\<lambda>(_, cfg). compile_service cfg) services acl) =
     acl_access acl \<union> (\<Union>(_, cfg)\<in>set services. rule_key (cfg_service_id cfg) ` set (cfg_allowed_access cfg))"
  by (induction services arbitrary: acl)
     (simp_all add: case_prod_unfold compile_service_def compile_rules Let_def Un_assoc)

lemma compile_services_preload:
  "acl_preload (fold (\<lambda>(_, cfg). compile_service cfg) services acl) =
     acl_preload acl \<union> (\<Union>(_, cfg)\<in>set services. preload_key ` {r \<in> set (cfg_allowed_access cfg). rule_preload r})"
  by (induction services arbitrary: acl)
     (simp_all add: case_prod_unfold compile_service_def compile_rules Let_def Un_assoc)

lemma compile_services_actions:
  assumes "distinct (map fst services)" "\<forall>(name, cfg)\<in>set services. cfg_service_id cfg = name"
  shows "acl_actions (fold (\<lambda>(_, cfg). compile_service cfg) services acl) c =
     (case map_of services c of
        Some cfg \<Rightarrow> Some (set (case cfg_allowed_actions cfg of None \<Rightarrow> [] | Some as \<Rightarrow> as))
      | None \<Rightarrow> acl_actions acl c)"
  using assms
proof (induction services arbitrary: acl)
  case (Cons s services)
  obtain name cfg where s: "s = (name, cfg)" by force
  then have "map_of services name = None"
    using Cons.prems(1) by (simp add: map_of_eq_None_iff)
  then show ?case
    using Cons s by (auto simp: compile_service_def compile_rules Let_def split: option.splits)
qed simp

lemma map_of_wf_iff:
  assumes "acl_wf settings"
  shows "map_of (acl_services settings) c = Some cfg \<longleftrightarrow>
     (\<exists>name. (name, cfg) \<in> set (acl_services settings) \<and> cfg_service_id cfg = c)"
proof -
  have "cfg_service_id cfg = name" if "(name, cfg) \<in> set (acl_services settings)" for name
    using assms that by (auto simp: acl_wf_def)
  then show ?thesis using assms by (auto simp: acl_wf_def)
qed

lemma compiled_is_allowed_iff:
  "is_allowed (compile settings) caller target alg level \<longleftrightarrow>
     (\<exists>name cfg rule. (name, cfg) \<in> set (acl_services settings) \<and> rule \<in> set (cfg_allowed_access cfg)
        \<and> cfg_service_id cfg = caller \<and> rule_target_service rule = target \<and> rule_algorithm rule = alg
        \<and> rule_access_level rule = level)"
proof -
  have "is_allowed (compile settings) caller target alg level \<longleftrightarrow>
     (\<exists>x\<in>set (acl_services settings). \<exists>rule\<in>set (cfg_allowed_access (snd x)).
        \<lparr>ark_caller = caller, ark_target = target, ark_algorithm = alg, ark_access_level = level\<rparr>
          = rule_key (cfg_service_id (snd x)) rule)"
    unfolding is_allowed_def compile_def compile_services_access
    by (simp add: empty_acl_def case_prod_unfold image_iff)
  then show ?thesis by (force simp: rule_key_def)
qed

lemma scan_statements_result:
  "scan_statements role action resource stmts (a, d) =
     (a \<or> (\<exists>s\<in>set stmts. statement_matches role action resource s \<and> st_effect s = ''Allow''),
      d \<or> (\<exists>s\<in>set stmts. statement_matches role action resource s \<and> st_effect s = ''Deny''))"
  by (induction role action resource stmts "(a, d)" arbitrary: a d rule: scan_statements.induct) auto

lemma strip_suffix_char_Some_iff: "strip_suffix_char c s = Some p \<longleftrightarrow> s = p @ [c]"
  unfolding strip_suffix_char_def by (cases s rule: rev_cases) auto

lemma strip_suffix_char_None_iff: "strip_suffix_char c s = None \<longleftrightarrow> (\<forall>p. s \<noteq> p @ [c])"
  by (metis not_None_eq strip_suffix_char_Some_iff)

lemma strip_prefix_Some_iff: "strip_prefix p s = Some t \<longleftrightarrow> s = p @ t"
  by (auto simp: strip_prefix_def starts_with_iff)

lemma strip_prefix_None_iff: "strip_prefix p s = None \<longleftrightarrow> (\<forall>t. s \<noteq> p @ t)"
  by (metis not_None_eq strip_prefix_Some_iff)

lemma validate_providers_ok_iff:
  "validate_providers services = Inr () \<longleftrightarrow> (\<forall>(name, p)\<in>set services. validate_provider name p = Inr ())"
  by (induction services rule: validate_providers.induct) (auto simp: bindR_eq_Inr_iff)

lemma validate_provider_ok_iff:
  "validate_provider name p = Inr () \<longleftrightarrow>
     (\<forall>d. pp_default_ttl_seconds p = Some d \<longrightarrow> 0 < d) \<and> (\<forall>m. pp_max_ttl_seconds p = Some m \<longrightarrow> 0 < m)
     \<and> (\<forall>d m. pp_default_ttl_seconds p = Some d \<longrightarrow> pp_max_ttl_seconds p = Some m \<longrightarrow> d \<le> m)
     \<and> pp_redis_acl_rules p \<noteq> Some []"
  by (cases "pp_default_ttl_seconds p"; cases "pp_max_ttl_seconds p")
     (auto simp: validate_provider_def Let_def not_le not_less)

section \<open>Properties\<close>

text \<open>C11: For settings in which every service is filed under its own identifier, the compiled ACL decides
  every key access, every control action and every preload exactly as the settings do.\<close>

theorem compile_equivalent:
  assumes "acl_wf settings"
  shows "is_allowed (compile settings) caller target alg level = settings_is_allowed settings caller target alg level
     \<and> has_control_action (compile settings) caller action = settings_has_control_action settings caller action
     \<and> should_preload_for (compile settings) target alg = settings_should_preload_for settings target alg"
proof (intro conjI)
  show "is_allowed (compile settings) caller target alg level = settings_is_allowed settings caller target alg level"
  proof -
    have "is_allowed (compile settings) caller target alg level \<longleftrightarrow>
       (\<exists>cfg. map_of (acl_services settings) caller = Some cfg \<and>
          (\<exists>rule\<in>set (cfg_allowed_access cfg). rule_target_service rule = target \<and> rule_algorithm rule = alg
             \<and> rule_access_level rule = level))"
      unfolding compiled_is_allowed_iff map_of_wf_iff [OF assms] by blast
    then show ?thesis
      by (cases "map_of (acl_services settings) caller") (simp_all add: settings_is_allowed_def list_ex_iff)
  qed
  show "has_control_action (compile settings) caller action = settings_has_control_action settings caller action"
    using assms compile_services_actions [of "acl_services settings" empty_acl caller]
    by (cases "map_of (acl_services settings) caller")
       (simp_all add: has_control_action_def settings_has_control_action_def compile_def acl_wf_def
          empty_acl_def split: option.split)
  show "should_preload_for (compile settings) target alg = settings_should_preload_for settings target alg"
  proof -
    have "should_preload_for (compile settings) target alg \<longleftrightarrow>
       (\<exists>x\<in>set (acl_services settings). \<exists>rule. rule \<in> set (cfg_allowed_access (snd x)) \<and> rule_preload rule
          \<and> \<lparr>pk_target = target, pk_algorithm = alg\<rparr> = preload_key rule)"
      unfolding should_preload_for_def compile_def compile_services_preload
      by (simp add: empty_acl_def case_prod_unfold image_iff conj_assoc)
    then show ?thesis
      by (auto simp: preload_key_def settings_should_preload_for_def list_ex_iff case_prod_unfold)
  qed
qed

text \<open>C25: The IAM policy allows an action exactly when some matching statement allows it and no matching
  statement denies it, whatever the order of the statements: an explicit deny wins.\<close>

theorem iam_deny_overrides:
  "is_action_allowed policy role action resource \<longleftrightarrow>
     (\<exists>s\<in>set (pol_statements policy). statement_matches role action resource s \<and> st_effect s = ''Allow'')
     \<and> \<not> (\<exists>s\<in>set (pol_statements policy). statement_matches role action resource s \<and> st_effect s = ''Deny'')"
  by (auto simp: is_action_allowed_def scan_statements_result Let_def)

text \<open>A caller who may use one exactly named resource is also allowed for every request whose resource
  is a proper prefix of that name followed by a star: the request's own wildcard is matched against
  the policy.\<close>

theorem iam_candidate_wildcard:
  assumes "s \<in> set (pol_statements policy)" "st_effect s = ''Allow''"
    and "role \<in> set (st_roles s)" "action \<in> set (st_actions s)"
    and "prefix @ rest \<in> set (st_resources s)" "rest \<noteq> []" "last rest \<noteq> CHR ''*''"
    and "\<forall>s\<in>set (pol_statements policy). st_effect s \<noteq> ''Deny''"
  shows "is_action_allowed policy role action (prefix @ ''*'')"
proof -
  have no_star: "prefix @ rest \<noteq> p @ ''*''" for p
    using assms(6,7) by (metis last_appendR last_snoc)
  have "prefix @ ''*'' \<noteq> (prefix @ rest) @ t" for t
    using assms(6,7) by (cases rest) auto
  then have "strip_prefix (prefix @ rest) (prefix @ ''*'') = None"
    by (simp add: strip_prefix_None_iff)
  moreover have "strip_suffix_char (CHR ''*'') (prefix @ rest) = None"
    using no_star by (simp add: strip_suffix_char_None_iff)
  moreover have "strip_suffix_char (CHR ''*'') (prefix @ ''*'') = Some prefix"
    by (simp add: strip_suffix_char_Some_iff)
  ultimately have "match_pattern (prefix @ rest) (prefix @ ''*'')"
    by (simp add: match_pattern_def starts_with_iff)
  moreover have "match_pattern action action" by (simp add: match_pattern_def)
  ultimately have "statement_matches role action (prefix @ ''*'') s"
    using assms(3-5) by (auto simp: statement_matches_def list_ex_iff)
  with assms(1,2,8) show ?thesis
    by (auto simp: is_action_allowed_def scan_statements_result Let_def)
qed

text \<open>A provider configuration passes validation exactly when it names a service and, for every service,
  the time-to-live bounds it gives are positive and ordered, and Redis rules, if given, are not empty.\<close>

theorem providers_acl_validate_iff:
  "providers_acl_validate services = Inr () \<longleftrightarrow>
     services \<noteq> [] \<and> (\<forall>(name, p)\<in>set services.
        (\<forall>d. pp_default_ttl_seconds p = Some d \<longrightarrow> 0 < d) \<and> (\<forall>m. pp_max_ttl_seconds p = Some m \<longrightarrow> 0 < m)
        \<and> (\<forall>d m. pp_default_ttl_seconds p = Some d \<longrightarrow> pp_max_ttl_seconds p = Some m \<longrightarrow> d \<le> m)
        \<and> pp_redis_acl_rules p \<noteq> Some [])"
  unfolding providers_acl_validate_def
  by (auto simp: validate_providers_ok_iff validate_provider_ok_iff)

section \<open>Witnesses\<close>

theorem compile_equivalent_witness:
  "\<exists>settings. acl_wf settings \<and> settings_is_allowed settings ''auth'' ''auth'' Ed25519 PrivateKey
     \<and> is_allowed (compile settings) ''auth'' ''auth'' Ed25519 PrivateKey
     \<and> \<not> has_control_action (compile settings) ''auth'' AuditRead"
proof -
  let ?rule = "\<lparr>rule_target_service = ''auth'', rule_algorithm = Ed25519, rule_access_level = PrivateKey, rule_preload = True\<rparr>"
  let ?s = "\<lparr>acl_services = [(''auth'', \<lparr>cfg_service_id = ''auth'', cfg_secret = [1], cfg_allowed_access = [?rule],
      cfg_allowed_actions = None\<rparr>)]\<rparr>"
  have wf: "acl_wf ?s" by (simp add: acl_wf_def)
  have "settings_is_allowed ?s ''auth'' ''auth'' Ed25519 PrivateKey" "\<not> settings_has_control_action ?s ''auth'' AuditRead"
    by (simp_all add: settings_is_allowed_def settings_has_control_action_def)
  with wf compile_equivalent [OF wf, of "''auth''" "''auth''" Ed25519 PrivateKey AuditRead] show ?thesis by blast
qed

theorem iam_candidate_wildcard_witness:
  "is_action_allowed \<lparr>pol_version = ''v'', pol_statements = [\<lparr>st_sid = ''s'', st_effect = ''Allow'', st_roles = [''auth''],
      st_actions = [''read''], st_resources = [''arn:kms:postgres:auth_db'']\<rparr>]\<rparr> ''auth'' ''read'' ''arn:*''"
  using iam_candidate_wildcard [of "\<lparr>st_sid = ''s'', st_effect = ''Allow'', st_roles = [''auth''],
      st_actions = [''read''], st_resources = [''arn:kms:postgres:auth_db'']\<rparr>" _ "''auth''" "''read''" "''arn:''"
      "''kms:postgres:auth_db''"] by simp

theorem providers_acl_validate_iff_witness:
  "providers_acl_validate [(''auth'', \<lparr>pp_max_ttl_seconds = Some 60, pp_default_ttl_seconds = Some 30,
      pp_redis_acl_rules = Some [''on'']\<rparr>)] = Inr ()
   \<and> providers_acl_validate [(''auth'', \<lparr>pp_max_ttl_seconds = Some 60, pp_default_ttl_seconds = Some 90,
      pp_redis_acl_rules = None\<rparr>)] \<noteq> Inr ()"
  by (simp add: providers_acl_validate_iff)

end
