(* ===== verification/Request_Auth.thy ===== *)
theory Request_Auth
  imports Acl_Policy
begin

text \<open>Authentication of HTTP requests: the HMAC middleware (\<^verbatim>\<open>server/middleware/security.rs\<close>), the
  in-memory nonce store and sliding-window rate limiter (\<^verbatim>\<open>domain/rate_limiter.rs\<close>).  Instants of the
  monotonic clock and the wall clock are in nanoseconds.\<close>

definition NANOS :: nat where
  "NANOS = 10 ^ 9"

section \<open>Nonce store\<close>

record nonce_store =
  ns_used :: "string \<rightharpoonup> nat"
  ns_poisoned :: bool

definition new_nonce_store :: nonce_store where
  "new_nonce_store = \<lparr>ns_used = (\<lambda>_. None), ns_poisoned = False\<rparr>"

definition retain_recent :: "nat \<Rightarrow> nat \<Rightarrow> (string \<rightharpoonup> nat) \<Rightarrow> (string \<rightharpoonup> nat)" where
  "retain_recent instant ttl used =
     (\<lambda>k. case used k of None \<Rightarrow> None | Some t \<Rightarrow> if instant - t \<le> ttl then Some t else None)"

definition mark_used :: "nat \<Rightarrow> nat \<Rightarrow> string \<Rightarrow> nonce_store \<Rightarrow> (AppError + bool) \<times> nonce_store" where
  "mark_used ttl_sec instant key store =
     (let ttl = max ttl_sec 1 * NANOS in
      if ns_poisoned store then (Inl (AppInternal ''In-memory nonce cache is poisoned''), store)
      else
        let used = retain_recent instant ttl (ns_used store) in
        if used key \<noteq> None then (Inr False, store\<lparr>ns_used := used\<rparr>)
        else (Inr True, store\<lparr>ns_used := used(key \<mapsto> instant)\<rparr>))"

section \<open>Rate limiter\<close>

record RateLimitStatus =
  rl_allowed :: bool
  rl_current :: nat

type_synonym rate_buckets = "string \<Rightarrow> nat list"

definition rate_check :: "nat \<Rightarrow> string \<Rightarrow> nat \<Rightarrow> nat \<Rightarrow> rate_buckets \<Rightarrow> RateLimitStatus \<times> rate_buckets" where
  "rate_check instant key limit window_sec buckets =
     (let window = max window_sec 1 * NANOS;
          entries = filter (\<lambda>t. instant - t \<le> window) (buckets key);
          current = length entries;
          allowed = (current < limit);
          entries' = (if allowed then entries @ [instant] else entries) in
      (\<lparr>rl_allowed = allowed, rl_current = current + (if allowed then 1 else 0)\<rparr>, buckets(key := entries')))"

text \<open>A sequence of checks of one key: the instants of the allowed ones, and the final buckets.\<close>

fun rate_run :: "nat \<Rightarrow> nat \<Rightarrow> string \<Rightarrow> nat list \<Rightarrow> rate_buckets \<Rightarrow> nat list \<times> rate_buckets" where
  "rate_run limit window_sec key [] buckets = ([], buckets)"
| "rate_run limit window_sec key (instant # is) buckets =
     (let (status, b1) = rate_check instant key limit window_sec buckets;
          (allowed, b2) = rate_run limit window_sec key is b1 in
      (if rl_allowed status then instant # allowed else allowed, b2))"

section \<open>HMAC middleware\<close>

record http_request =
  hr_method :: string
  hr_path :: string
  hr_headers :: "(string \<times> string option) list"
  hr_body :: bytes

text \<open>Lookup of a header by case-insensitive name; a value that is not visible ASCII is \<^term>\<open>None\<close>.\<close>

definition header :: "http_request \<Rightarrow> string \<Rightarrow> string option option" where
  "header req name = map_of (hr_headers req) (to_ascii_lowercase name)"

definition header_or :: "string option option \<Rightarrow> string option option \<Rightarrow> string option option" where
  "header_or a b = (case a of None \<Rightarrow> b | Some _ \<Rightarrow> a)"

definition header_str :: "string option option \<Rightarrow> string option" where
  "header_str h = (case h of None \<Rightarrow> None | Some v \<Rightarrow> v)"

text \<open>The libraries the middleware calls: digests, hex, and the parsers of \<^verbatim>\<open>chrono\<close>.\<close>

record auth_lib =
  al_sha256 :: "bytes \<Rightarrow> bytes"
  al_hmac_new :: "bytes \<Rightarrow> bool"
  al_hmac_sha256 :: "bytes \<Rightarrow> bytes \<Rightarrow> bytes"
  al_hex :: "bytes \<Rightarrow> string"
  al_timestamp_opt :: "int \<Rightarrow> timestamp option"
  al_parse_rfc3339 :: "string \<Rightarrow> timestamp option"

record auth_config =
  ac_public_endpoints :: "string list"
  ac_acl :: AclSettings

fun parse_digits :: "string \<Rightarrow> int \<Rightarrow> int option" where
  "parse_digits [] acc = Some acc"
| "parse_digits (c # cs) acc =
     (if 48 \<le> (of_char c :: nat) \<and> of_char c \<le> (57 :: nat)
      then parse_digits cs (acc * 10 + (of_char c - 48)) else None)"

text \<open>\<^verbatim>\<open>str::parse::<i64>\<close>: an optional sign, at least one digit, and the value in range.\<close>

definition parse_i64 :: "string \<Rightarrow> int option" where
  "parse_i64 s =
     (let (neg, digits) = (case s of [] \<Rightarrow> (False, [])
            | c # cs \<Rightarrow> if c = CHR ''-'' then (True, cs) else if c = CHR ''+'' then (False, cs) else (False, s)) in
      if digits = [] then None
      else case parse_digits digits 0 of
        None \<Rightarrow> None
      | Some n \<Rightarrow> let v = (if neg then - n else n) in if - (2 ^ 63) \<le> v \<and> v < 2 ^ 63 then Some v else None)"

definition parse_timestamp :: "auth_lib \<Rightarrow> string \<Rightarrow> AppError + timestamp" where
  "parse_timestamp lib v =
     (case parse_i64 v of
        Some epoch_seconds \<Rightarrow> ok_or Unauthorized (al_timestamp_opt lib epoch_seconds)
      | None \<Rightarrow> ok_or Unauthorized (al_parse_rfc3339 lib v))"

definition MAX_HMAC_BODY_SIZE :: nat where
  "MAX_HMAC_BODY_SIZE = 10 * 1024 * 1024"

definition MAX_CLOCK_SKEW_SECONDS :: int where
  "MAX_CLOCK_SKEW_SECONDS = 300"

definition MAX_NONCE_TTL_SECONDS :: nat where
  "MAX_NONCE_TTL_SECONDS = 300"

text \<open>\<^verbatim>\<open>(now - timestamp).num_seconds().abs()\<close>: whole seconds, rounded toward zero.\<close>

definition clock_skew :: "timestamp \<Rightarrow> timestamp \<Rightarrow> int" where
  "clock_skew wall ts = \<bar>wall - ts\<bar> div int NANOS"

definition canonical_payload :: "string \<Rightarrow> string \<Rightarrow> string \<Rightarrow> string \<Rightarrow> string \<Rightarrow> string" where
  "canonical_payload method path ts nonce body_sha256 =
     method @ '':'' @ path @ '':'' @ ts @ '':'' @ nonce @ '':'' @ body_sha256"

definition nonce_key :: "string \<Rightarrow> string \<Rightarrow> string \<Rightarrow> string" where
  "nonce_key service_name nonce ts = ''hmac:nonce:'' @ service_name @ '':'' @ nonce @ '':'' @ ts"

text \<open>What a request presents, read from its headers in the middleware's order.\<close>

definition read_credentials ::
  "auth_lib \<Rightarrow> timestamp \<Rightarrow> http_request \<Rightarrow> AppError + string \<times> string \<times> string \<times> string" where
  "read_credentials lib wall req =
     bindR (ok_or Unauthorized (header_str (header_or (header req ''X-Service-ID'') (header req ''X-Service-Name''))))
       (\<lambda>service_name.
     bindR (ok_or Unauthorized (header_str (header req ''X-Timestamp''))) (\<lambda>ts.
     bindR (parse_timestamp lib ts) (\<lambda>timestamp_dt.
     if clock_skew wall timestamp_dt > MAX_CLOCK_SKEW_SECONDS then Inl Unauthorized else
     bindR (ok_or Unauthorized (header_str (header_or (header req ''X-Nonce'') (header req ''x-nonce'')))) (\<lambda>nonce.
     bindR (ok_or Unauthorized (header_str (header_or (header_or (header req ''X-Signature'') (header req ''x-signature''))
                                  (header req ''X-HMAC-Signature'')))) (\<lambda>signature_hex.
       Inr (service_name, ts, nonce, signature_hex))))))"

definition verify_signature ::
  "auth_lib \<Rightarrow> auth_config \<Rightarrow> http_request \<Rightarrow> string \<times> string \<times> string \<times> string \<Rightarrow> AppError + unit" where
  "verify_signature lib cfg req creds =
     (case creds of (service_name, ts, nonce, signature_hex) \<Rightarrow>
        let body_sha256 = al_hex lib (al_sha256 lib (hr_body req));
            payload = canonical_payload (hr_method req) (hr_path req) ts nonce body_sha256 in
        bindR (ok_or Unauthorized (map_of (acl_services (ac_acl cfg)) service_name)) (\<lambda>service_cfg.
          if \<not> al_hmac_new lib (cfg_secret service_cfg) then Inl (AppInternal ''HMAC init failed'')
          else
            let expected_signature = al_hex lib (al_hmac_sha256 lib (cfg_secret service_cfg) (as_bytes payload)) in
            if signature_hex \<noteq> expected_signature then Inl Unauthorized else Inr ()))"

text \<open>The outcome for the handlers behind the middleware: an error response, or the request goes on,
  with the authenticated service unless the endpoint is public.\<close>

definition hmac_security_middleware ::
  "auth_lib \<Rightarrow> auth_config \<Rightarrow> timestamp \<Rightarrow> nat \<Rightarrow> http_request
     \<Rightarrow> (nonce_store, AppError, service_id option) sm" where
  "hmac_security_middleware lib cfg wall instant req store =
     (if length (hr_body req) > MAX_HMAC_BODY_SIZE then (Inl Unauthorized, store)
      else if hr_path req \<in> set (ac_public_endpoints cfg) then (Inr None, store)
      else case read_credentials lib wall req of
        Inl e \<Rightarrow> (Inl e, store)
      | Inr (service_name, ts, nonce, signature_hex) \<Rightarrow>
          (case verify_signature lib cfg req (service_name, ts, nonce, signature_hex) of
             Inl e \<Rightarrow> (Inl e, store)
           | Inr _ \<Rightarrow>
               (case mark_used MAX_NONCE_TTL_SECONDS instant (nonce_key service_name nonce ts) store of
                  (Inr True, store1) \<Rightarrow> (Inr (Some service_name), store1)
                | (_, store1) \<Rightarrow> (Inl Unauthorized, store1))))"

section \<open>The nonce store contract\<close>

text \<open>A sequence of marks at given instants, with the answers.\<close>

fun mark_run :: "(nat \<Rightarrow> 'k \<Rightarrow> 's \<Rightarrow> ('e + bool) \<times> 's) \<Rightarrow> (nat \<times> 'k) list \<Rightarrow> 's \<Rightarrow> ('e + bool) list \<times> 's" where
  "mark_run mark [] s = ([], s)"
| "mark_run mark ((t, k) # calls) s =
     (let (r, s1) = mark t k s; (rs, s2) = mark_run mark calls s1 in (r # rs, s2))"

locale replay_guard =
  fixes mark :: "nat \<Rightarrow> 'k \<Rightarrow> 's \<Rightarrow> ('e + bool) \<times> 's"
    and seen :: "'s \<Rightarrow> 'k \<Rightarrow> nat option"
    and ttl :: nat
  assumes accepted_is_seen: "mark t k s = (Inr True, s') \<Longrightarrow> seen s' k = Some t"
    and seen_is_refused: "seen s k = Some t0 \<Longrightarrow> t \<le> t0 + ttl \<Longrightarrow> fst (mark t k s) \<noteq> Inr True"
    and seen_is_kept: "seen s k = Some t0 \<Longrightarrow> t \<le> t0 + ttl \<Longrightarrow> seen (snd (mark t k' s)) k = Some t0"
begin

lemma no_accept_while_seen:
  assumes "seen s k = Some t0" "sorted (map fst calls)" "j < length calls"
    and "snd (calls ! j) = k" "fst (calls ! j) \<le> t0 + ttl"
  shows "fst (mark_run mark calls s) ! j \<noteq> Inr True"
  using assms
proof (induction calls arbitrary: s j)
  case (Cons c calls)
  obtain t k' where c: "c = (t, k')" by force
  obtain r s1 where m: "mark t k' s = (r, s1)" by force
  have "t \<le> fst ((c # calls) ! j)"
    using Cons.prems(2,3) c by (cases j) auto
  then have t: "t \<le> t0 + ttl" using Cons.prems(5) by simp
  show ?case
  proof (cases j)
    case 0
    with Cons.prems(4) c have "k' = k" by simp
    with seen_is_refused [OF Cons.prems(1) t] m 0 c show ?thesis by (simp add: case_prod_unfold Let_def)
  next
    case (Suc j')
    have "seen s1 k = Some t0" using seen_is_kept [OF Cons.prems(1) t, of k'] m by simp
    with Cons.IH [of s1 j'] Cons.prems Suc c m show ?thesis by (simp add: case_prod_unfold Let_def)
  qed
qed simp

lemma no_double_accept:
  assumes "sorted (map fst calls)" "i < j" "j < length calls" "snd (calls ! i) = snd (calls ! j)"
    and "fst (calls ! j) \<le> fst (calls ! i) + ttl" "fst (mark_run mark calls s) ! i = Inr True"
  shows "fst (mark_run mark calls s) ! j \<noteq> Inr True"
  using assms
proof (induction calls arbitrary: s i j)
  case (Cons c calls)
  obtain t k where c: "c = (t, k)" by force
  obtain r s1 where m: "mark t k s = (r, s1)" by force
  obtain j' where j: "j = Suc j'" using Cons.prems(2) by (cases j) auto
  show ?case
  proof (cases i)
    case 0
    then have "mark t k s = (Inr True, s1)" using Cons.prems(6) c m by (simp add: case_prod_unfold Let_def)
    then have "seen s1 k = Some t" by (rule accepted_is_seen)
    then show ?thesis
      using no_accept_while_seen [of s1 k t calls j'] Cons.prems 0 c m j by (simp add: case_prod_unfold Let_def)
  next
    case (Suc i')
    then show ?thesis using Cons.IH [of i' j' s1] Cons.prems c m j by (simp add: case_prod_unfold Let_def)
  qed
qed simp

end

section \<open>A sample service and request\<close>

definition sample_auth_lib :: auth_lib where
  "sample_auth_lib = \<lparr>al_sha256 = \<lambda>b. b, al_hmac_new = \<lambda>_. True, al_hmac_sha256 = \<lambda>k m. k @ m, al_hex = from_bytes,
     al_timestamp_opt = \<lambda>s. Some (s * int NANOS), al_parse_rfc3339 = \<lambda>_. None\<rparr>"

definition sample_auth_config :: auth_config where
  "sample_auth_config = \<lparr>ac_public_endpoints = [''/health''],
     ac_acl = \<lparr>acl_services = [(''auth'', \<lparr>cfg_service_id = ''auth'', cfg_secret = [107],
        cfg_allowed_access = [], cfg_allowed_actions = None\<rparr>)]\<rparr>\<rparr>"

text \<open>A signed request whose timestamp, second 100, is ahead of a server clock at second 0.\<close>

definition sample_request :: http_request where
  "sample_request = \<lparr>hr_method = ''GET'', hr_path = ''/k'', hr_headers = [(''x-service-id'', Some ''auth''),
     (''x-timestamp'', Some ''100''), (''x-nonce'', Some ''n''), (''x-signature'', Some ''kGET:/k:100:n:'')], hr_body = []\<rparr>"

section \<open>Lemmas\<close>

lemma mark_used_refused:
  assumes "ns_used s k = Some t0" "t \<le> t0 + max ttl_sec 1 * NANOS"
  shows "fst (mark_used ttl_sec t k s) \<noteq> Inr True"
proof -
  have "t - t0 \<le> max ttl_sec 1 * NANOS" using assms(2) by linarith
  with assms(1) show ?thesis by (simp add: mark_used_def Let_def retain_recent_def)
qed

lemma mark_used_kept:
  assumes "ns_used s k = Some t0" "t \<le> t0 + max ttl_sec 1 * NANOS"
  shows "ns_used (snd (mark_used ttl_sec t k' s)) k = Some t0"
proof -
  have "t - t0 \<le> max ttl_sec 1 * NANOS" using assms(2) by linarith
  with assms(1) show ?thesis by (auto simp: mark_used_def Let_def retain_recent_def)
qed

interpretation nonces: replay_guard "mark_used ttl_sec" ns_used "max ttl_sec 1 * NANOS" for ttl_sec
proof (unfold_locales, goal_cases)
  case (1 t k s s')
  then show ?case by (auto simp: mark_used_def Let_def split: if_splits)
next
  case (2 s k t0 t)
  then show ?case by (rule mark_used_refused)
next
  case (3 s k t0 t k')
  then show ?case by (rule mark_used_kept)
qed

lemma middleware_accept_iff:
  "hmac_security_middleware lib cfg wall instant req store = (Inr (Some svc), store') \<longleftrightarrow>
     length (hr_body req) \<le> MAX_HMAC_BODY_SIZE \<and> hr_path req \<notin> set (ac_public_endpoints cfg) \<and>
     (\<exists>ts nonce sig. read_credentials lib wall req = Inr (svc, ts, nonce, sig)
        \<and> verify_signature lib cfg req (svc, ts, nonce, sig) = Inr ()
        \<and> mark_used MAX_NONCE_TTL_SECONDS instant (nonce_key svc nonce ts) store = (Inr True, store'))"
  by (auto simp: hmac_security_middleware_def split: sum.splits prod.splits if_splits bool.splits)

lemma read_credentials_skew:
  assumes "read_credentials lib wall req = Inr (svc, ts, nonce, sig)"
  shows "\<exists>dt. parse_timestamp lib ts = Inr dt \<and> clock_skew wall dt \<le> MAX_CLOCK_SKEW_SECONDS"
  using assms by (auto simp: read_credentials_def bindR_eq_Inr_iff split: if_splits)

text \<open>Credentials do not depend on the wall clock beyond the skew check.\<close>

lemma read_credentials_later:
  assumes "read_credentials lib wall req = Inr (svc, ts, nonce, sig)"
    and "parse_timestamp lib ts = Inr dt" "clock_skew wall' dt \<le> MAX_CLOCK_SKEW_SECONDS"
  shows "read_credentials lib wall' req = Inr (svc, ts, nonce, sig)"
  using assms by (auto simp: read_credentials_def bindR_eq_Inr_iff not_less split: if_splits)

lemma append_colon_split:
  assumes "CHR '':'' \<notin> set a" "CHR '':'' \<notin> set c" "a @ '':'' @ b = c @ '':'' @ d"
  shows "a = c \<and> b = d"
  using assms
proof (induction a arbitrary: c)
  case Nil
  then show ?case by (cases c) auto
next
  case (Cons x a)
  then show ?case by (cases c) auto
qed

text \<open>The bucket of a key holds the allowed instants still inside the window; adding an allowed instant
  keeps every window within the limit.\<close>

lemma window_append:
  fixes t W u :: nat
  assumes "length (filter (\<lambda>x. t \<le> x + W) hist) < limit"
    and "length (filter (\<lambda>x. u \<le> x \<and> x \<le> u + W) hist) \<le> limit"
  shows "length (filter (\<lambda>x. u \<le> x \<and> x \<le> u + W) (hist @ [t])) \<le> limit"
proof (cases "u \<le> t \<and> t \<le> u + W")
  case True
  then have "filter (\<lambda>x. u \<le> x \<and> x \<le> u + W) hist
      = filter (\<lambda>x. u \<le> x \<and> x \<le> u + W) (filter (\<lambda>x. t \<le> x + W) hist)"
    by (auto simp: filter_filter intro!: filter_cong)
  then have "length (filter (\<lambda>x. u \<le> x \<and> x \<le> u + W) hist) \<le> length (filter (\<lambda>x. t \<le> x + W) hist)"
    by (metis length_filter_le)
  with assms(1) True show ?thesis by simp
qed (use assms(2) in auto)

lemma rate_run_window:
  fixes W :: nat
  assumes W: "W = max w 1 * NANOS"
    and "sorted (t0 # ts)" "b key = filter (\<lambda>x. t0 \<le> x + W) hist"
    and "\<And>u. length (filter (\<lambda>x. u \<le> x \<and> x \<le> u + W) hist) \<le> limit"
  shows "length (filter (\<lambda>x. u \<le> x \<and> x \<le> u + W) (hist @ fst (rate_run limit w key ts b))) \<le> limit"
  using assms(2-)
proof (induction ts arbitrary: t0 b hist)
  case (Cons t ts)
  let ?entries = "filter (\<lambda>x. t \<le> x + W) hist"
  have "t0 \<le> t" using Cons.prems(1) by simp
  then have "filter (\<lambda>x. t - x \<le> W) (b key) = ?entries"
    using Cons.prems(2) by (auto simp: filter_filter intro!: filter_cong)
  then have check: "rate_check t key limit w b =
      (\<lparr>rl_allowed = length ?entries < limit, rl_current = length ?entries + (if length ?entries < limit then 1 else 0)\<rparr>,
       b(key := if length ?entries < limit then ?entries @ [t] else ?entries))"
    by (simp add: rate_check_def Let_def W)
  have sorted: "sorted (t # ts)" using Cons.prems(1) by simp
  show ?case
  proof (cases "length ?entries < limit")
    case True
    have "length (filter (\<lambda>x. u \<le> x \<and> x \<le> u + W) ((hist @ [t]) @ fst (rate_run limit w key ts (b(key := ?entries @ [t]))))) \<le> limit"
    proof (rule Cons.IH [OF sorted])
      show "(b(key := ?entries @ [t])) key = filter (\<lambda>x. t \<le> x + W) (hist @ [t])" by simp
      show "length (filter (\<lambda>x. v \<le> x \<and> x \<le> v + W) (hist @ [t])) \<le> limit" for v
        using True Cons.prems(3) by (rule window_append)
    qed
    with True show ?thesis by (simp add: check Let_def case_prod_unfold)
  next
    case False
    have "length (filter (\<lambda>x. u \<le> x \<and> x \<le> u + W) (hist @ fst (rate_run limit w key ts (b(key := ?entries))))) \<le> limit"
      by (rule Cons.IH [OF sorted _ Cons.prems(3)]) simp
    with False show ?thesis by (simp add: check Let_def case_prod_unfold)
  qed
qed simp

section \<open>Properties\<close>


text \<open>C10: In any sequence of marks in the order of the clock, a nonce key that was accepted is not accepted
  again within the time to live.\<close>

theorem nonce_accepted_once_within_ttl:
  assumes "sorted (map fst calls)" "i < j" "j < length calls" "snd (calls ! i) = snd (calls ! j)"
    and "fst (calls ! j) \<le> fst (calls ! i) + max ttl_sec 1 * NANOS"
    and "fst (mark_run (mark_used ttl_sec) calls store) ! i = Inr True"
  shows "fst (mark_run (mark_used ttl_sec) calls store) ! j \<noteq> Inr True"
  using assms by (rule nonces.no_double_accept)

text \<open>The nonce's time to live is shorter than the interval in which a timestamp is accepted.  A
  request whose timestamp lies ahead of the server's clock is accepted again once its nonce has
  expired: any request accepted with a timestamp at least one nanosecond and less than 301 seconds ahead
  can be replayed just after 300 seconds.\<close>

theorem replay_after_nonce_expiry:
  assumes "hmac_security_middleware lib cfg wall instant req store = (Inr (Some svc), store')"
    and "read_credentials lib wall req = Inr (svc, ts, nonce, sig)" "parse_timestamp lib ts = Inr dt"
    and "wall < dt" "\<not> ns_poisoned store"
  shows "fst (hmac_security_middleware lib cfg (wall + int (300 * NANOS + 1)) (instant + (300 * NANOS + 1)) req store')
           = Inr (Some svc)"
proof -
  let ?wall = "wall + int (300 * NANOS + 1)" and ?instant = "instant + (300 * NANOS + 1)"
  from assms(1,2) have pre: "length (hr_body req) \<le> MAX_HMAC_BODY_SIZE" "hr_path req \<notin> set (ac_public_endpoints cfg)"
    and ver: "verify_signature lib cfg req (svc, ts, nonce, sig) = Inr ()"
    and mark: "mark_used MAX_NONCE_TTL_SECONDS instant (nonce_key svc nonce ts) store = (Inr True, store')"
    by (auto simp: middleware_accept_iff)
  have seen: "ns_used store' (nonce_key svc nonce ts) = Some instant"
    using mark by (rule nonces.accepted_is_seen)
  have pois: "\<not> ns_poisoned store'"
    using mark assms(5) by (auto simp: mark_used_def Let_def split: if_splits)
  from read_credentials_skew [OF assms(2)] assms(3) have "\<bar>wall - dt\<bar> div int NANOS \<le> 300"
    by (auto simp: clock_skew_def MAX_CLOCK_SKEW_SECONDS_def)
  then have "clock_skew ?wall dt \<le> MAX_CLOCK_SKEW_SECONDS"
    using assms(4) by (simp add: clock_skew_def MAX_CLOCK_SKEW_SECONDS_def NANOS_def)
  then have creds: "read_credentials lib ?wall req = Inr (svc, ts, nonce, sig)"
    by (rule read_credentials_later [OF assms(2,3)])
  have "fst (mark_used MAX_NONCE_TTL_SECONDS ?instant (nonce_key svc nonce ts) store') = Inr True"
    using seen pois by (simp add: mark_used_def Let_def retain_recent_def MAX_NONCE_TTL_SECONDS_def)
  then show ?thesis
    using pre creds ver by (auto simp: hmac_security_middleware_def split: prod.splits)
qed

text \<open>C26: The signed text determines the request: when method, path, timestamp and nonce contain no colon,
  two requests with the same canonical payload agree in all of them and in the body digest.\<close>

theorem canonical_payload_injective:
  assumes "CHR '':'' \<notin> set m \<union> set p \<union> set t \<union> set n" "CHR '':'' \<notin> set m' \<union> set p' \<union> set t' \<union> set n'"
    and "canonical_payload m p t n d = canonical_payload m' p' t' n' d'"
  shows "m = m' \<and> p = p' \<and> t = t' \<and> n = n' \<and> d = d'"
proof -
  have "m = m' \<and> p @ '':'' @ t @ '':'' @ n @ '':'' @ d = p' @ '':'' @ t' @ '':'' @ n' @ '':'' @ d'"
    using assms unfolding canonical_payload_def by (intro append_colon_split) auto
  then have 1: "m = m'" "p @ '':'' @ t @ '':'' @ n @ '':'' @ d = p' @ '':'' @ t' @ '':'' @ n' @ '':'' @ d'" by auto
  have "p = p' \<and> t @ '':'' @ n @ '':'' @ d = t' @ '':'' @ n' @ '':'' @ d'"
    using assms(1,2) 1(2) by (intro append_colon_split) auto
  then have 2: "p = p'" "t @ '':'' @ n @ '':'' @ d = t' @ '':'' @ n' @ '':'' @ d'" by auto
  have "t = t' \<and> n @ '':'' @ d = n' @ '':'' @ d'"
    using assms(1,2) 2(2) by (intro append_colon_split) auto
  then have 3: "t = t'" "n @ '':'' @ d = n' @ '':'' @ d'" by auto
  have "n = n' \<and> d = d'" using assms(1,2) 3(2) by (intro append_colon_split) auto
  with 1 2 3 show ?thesis by simp
qed

text \<open>C27: The in-memory limiter never lets more than the limit through in any window: of the checks of one
  key, in the order of the clock, at most \<^verbatim>\<open>limit\<close> allowed ones fall into any interval of the window's
  length.\<close>

theorem rate_limit_window:
  assumes "sorted ts"
  shows "length (filter (\<lambda>x. u \<le> x \<and> x \<le> u + max w 1 * NANOS) (fst (rate_run limit w key ts (\<lambda>_. [])))) \<le> limit"
proof -
  have "length (filter (\<lambda>x. u \<le> x \<and> x \<le> u + max w 1 * NANOS)
      ([] @ fst (rate_run limit w key ts (\<lambda>_. [])))) \<le> limit"
    by (rule rate_run_window [where ?t0.0 = 0]) (use assms in simp_all)
  then show ?thesis by simp
qed

section \<open>Witnesses\<close>

lemma sample_header_names:
  "to_ascii_lowercase ''X-Service-ID'' = ''x-service-id''" "to_ascii_lowercase ''X-Timestamp'' = ''x-timestamp''"
  "to_ascii_lowercase ''X-Nonce'' = ''x-nonce''" "to_ascii_lowercase ''X-Signature'' = ''x-signature''"
  by code_simp+

lemma sample_parse: "parse_i64 ''100'' = Some 100"
  by code_simp

lemma sample_timestamp: "parse_timestamp sample_auth_lib ''100'' = Inr (100 * int NANOS)"
  by (simp add: parse_timestamp_def sample_parse sample_auth_lib_def)

lemma sample_credentials:
  "read_credentials sample_auth_lib 0 sample_request = Inr (''auth'', ''100'', ''n'', ''kGET:/k:100:n:'')"
  by (simp add: read_credentials_def sample_request_def header_def header_or_def header_str_def
      sample_header_names sample_timestamp clock_skew_def NANOS_def MAX_CLOCK_SKEW_SECONDS_def)

lemma sample_signature: "from_bytes (107 # as_bytes ''GET:/k:100:n:'') = ''kGET:/k:100:n:''"
  by code_simp

lemma sample_verified:
  "verify_signature sample_auth_lib sample_auth_config sample_request (''auth'', ''100'', ''n'', ''kGET:/k:100:n:'') = Inr ()"
  using sample_signature
  by (simp add: verify_signature_def sample_auth_config_def sample_auth_lib_def sample_request_def
      canonical_payload_def Let_def from_bytes_def [of "[]"])

lemma sample_accepted:
  "\<exists>store'. hmac_security_middleware sample_auth_lib sample_auth_config 0 0 sample_request new_nonce_store
     = (Inr (Some ''auth''), store')"
proof -
  have "fst (mark_used MAX_NONCE_TTL_SECONDS 0 (nonce_key ''auth'' ''n'' ''100'') new_nonce_store) = Inr True"
    by (simp add: mark_used_def Let_def retain_recent_def new_nonce_store_def)
  then obtain store' where
    "mark_used MAX_NONCE_TTL_SECONDS 0 (nonce_key ''auth'' ''n'' ''100'') new_nonce_store = (Inr True, store')"
    by (metis prod.collapse)
  with sample_credentials sample_verified show ?thesis
    by (simp add: hmac_security_middleware_def)
       (simp add: sample_request_def sample_auth_config_def MAX_HMAC_BODY_SIZE_def)
qed


theorem nonce_accepted_once_within_ttl_witness:
  "fst (mark_run (mark_used 300) [(0, ''k''), (5, ''k'')] new_nonce_store) ! 0 = Inr True
   \<and> fst (mark_run (mark_used 300) [(0, ''k''), (5, ''k'')] new_nonce_store) ! 1 \<noteq> Inr True"
proof -
  have a: "fst (mark_run (mark_used 300) [(0, ''k''), (5, ''k'')] new_nonce_store) ! 0 = Inr True"
    by (simp add: Let_def case_prod_unfold) (simp add: mark_used_def Let_def retain_recent_def new_nonce_store_def)
  show ?thesis
    using nonce_accepted_once_within_ttl [of "[(0, ''k''), (5, ''k'')]" 0 1 300 new_nonce_store] a
    by (simp add: NANOS_def)
qed

theorem replay_after_nonce_expiry_witness:
  "\<exists>store'. hmac_security_middleware sample_auth_lib sample_auth_config 0 0 sample_request new_nonce_store
       = (Inr (Some ''auth''), store')
     \<and> fst (hmac_security_middleware sample_auth_lib sample_auth_config (0 + int (300 * NANOS + 1)) (0 + (300 * NANOS + 1))
         sample_request store') = Inr (Some ''auth'')"
proof -
  obtain store' where a: "hmac_security_middleware sample_auth_lib sample_auth_config 0 0 sample_request new_nonce_store
     = (Inr (Some ''auth''), store')" using sample_accepted by blast
  have "(0 :: int) < 100 * int NANOS" "\<not> ns_poisoned new_nonce_store"
    by (simp_all add: NANOS_def new_nonce_store_def)
  from a replay_after_nonce_expiry [OF a sample_credentials sample_timestamp this] show ?thesis by blast
qed

theorem canonical_payload_injective_witness:
  "CHR '':'' \<notin> set ''GET'' \<union> set ''/k'' \<union> set ''100'' \<union> set ''n''
   \<and> canonical_payload ''GET'' ''/k'' ''100'' ''n'' ''d'' \<noteq> canonical_payload ''GET'' ''/k'' ''100'' ''m'' ''d''"
proof
  show "CHR '':'' \<notin> set ''GET'' \<union> set ''/k'' \<union> set ''100'' \<union> set ''n''" by simp
  show "canonical_payload ''GET'' ''/k'' ''100'' ''n'' ''d'' \<noteq> canonical_payload ''GET'' ''/k'' ''100'' ''m'' ''d''"
  proof
    assume "canonical_payload ''GET'' ''/k'' ''100'' ''n'' ''d'' = canonical_payload ''GET'' ''/k'' ''100'' ''m'' ''d''"
    from canonical_payload_injective [OF _ _ this] show False by simp
  qed
qed

theorem rate_limit_window_witness:
  "length (filter (\<lambda>x. 0 \<le> x \<and> x \<le> 0 + max 1 1 * NANOS) (fst (rate_run 2 1 ''ip'' [1, 2, 3] (\<lambda>_. [])))) \<le> 2"
  by (rule rate_limit_window) simp

end
