(* ===== verification/Kms_Db.thy ===== *)
theory Kms_Db
  imports Kms_Types
begin

text \<open>The database: the tables of \<^verbatim>\<open>kms-migrate/migrations\<close> and the statements of
  \<^verbatim>\<open>kms-db/src/repositories.rs\<close>.  A table is the list of its rows.  A statement may fail for reasons
  outside the model: each execution takes the next entry of \<^verbatim>\<open>db_faults\<close>, and a fault there is its
  result.  Otherwise it is checked against the unique, foreign-key, check and length constraints and
  either applied as a whole or not at all.  What the server decides (its clock, the value a
  \<^verbatim>\<open>TIMESTAMPTZ\<close> column keeps of a bound time, the order of the two parts of a data-modifying \<^verbatim>\<open>WITH\<close>, text collation, what happens when one statement changes a row twice) is in
  the parameter record \<^verbatim>\<open>db_env\<close>.\<close>

section \<open>Rows\<close>

record KeyDbRow =
  kr_id :: uuid
  kr_service_id :: string
  kr_algorithm :: string
  kr_version :: u32
  kr_encrypted_key_data :: bytes
  kr_public_key_pem :: string
  kr_purpose :: string
  kr_status :: string
  kr_is_active :: bool
  kr_created_at :: timestamp

record AuditRow =
  ar_id :: uuid
  ar_caller_service :: string
  ar_target_service :: string
  ar_action :: string
  ar_algorithm :: string
  ar_status :: string
  ar_reason :: "string option"
  ar_prev_hash :: string
  ar_hash :: string
  ar_signature :: "bytes option"
  ar_request_id :: "string option"
  ar_operation_id :: "string option"
  ar_target_id :: "string option"
  ar_metadata :: "string option"
  ar_created_at :: timestamp

record TargetResourceRow =
  tr_id :: uuid
  tr_target_name :: string
  tr_target_type :: string
  tr_connection_url_encrypted :: bytes
  tr_default_role :: "string option"
  tr_active :: bool
  tr_created_at :: timestamp

record ProvisionedRow =
  pr_id :: uuid
  pr_service_id :: string
  pr_target_id :: uuid
  pr_encrypted_credentials :: bytes
  pr_granted_role :: string
  pr_kek_id :: uuid
  pr_kek_version :: int
  pr_expires_at :: timestamp
  pr_revoked :: bool
  pr_status :: string
  pr_created_at :: timestamp

record DbCredentialRow =
  dc_id :: uuid
  dc_service_id :: string
  dc_target_type :: string
  dc_target_db :: string
  dc_resource :: string
  dc_encrypted_credentials :: bytes
  dc_kek_id :: uuid
  dc_kek_version :: int
  dc_status :: string
  dc_created_at :: timestamp

record RootCaRow =
  ca_id :: uuid
  ca_ca_tag :: string
  ca_algorithm :: string
  ca_public_key :: bytes
  ca_encrypted_private_key :: bytes
  ca_kek_id :: uuid
  ca_kek_version :: int
  ca_certificate_pem :: string
  ca_serial_number :: string
  ca_status :: string
  ca_created_at :: timestamp
  ca_expires_at :: "timestamp option"

section \<open>The server\<close>

datatype sqlx_error =
    SqlFault string
  | UniqueViolation string
  | ForeignKeyViolation string
  | CheckViolation string
  | StringTooLong
  | ColumnNotFound string

record db_env =
  env_now :: timestamp
  env_store_time :: "timestamp \<Rightarrow> timestamp"
  env_cte_first :: bool
  env_same_row :: sqlx_error
  env_collate_le :: "string \<Rightarrow> string \<Rightarrow> bool"
  env_error_text :: "sqlx_error \<Rightarrow> string"

record kms_db =
  keys_tbl :: "KeyDbRow list"
  audit_tbl :: "AuditRow list"
  target_tbl :: "TargetResourceRow list"
  provisioned_tbl :: "ProvisionedRow list"
  db_cred_tbl :: "DbCredentialRow list"
  root_ca_tbl :: "RootCaRow list"
  db_faults :: "sqlx_error option list"

definition empty_db :: kms_db where
  "empty_db = \<lparr>keys_tbl = [], audit_tbl = [], target_tbl = [], provisioned_tbl = [], db_cred_tbl = [],
     root_ca_tbl = [], db_faults = []\<rparr>"

text \<open>Executing one statement.\<close>

definition exec :: "(kms_db \<Rightarrow> sqlx_error + 'a \<times> kms_db) \<Rightarrow> (kms_db, sqlx_error, 'a) sm" where
  "exec stmt db =
     (case db_faults db of
        Some e # rest \<Rightarrow> (Inl e, db\<lparr>db_faults := rest\<rparr>)
      | faults \<Rightarrow>
          let db1 = db\<lparr>db_faults := tl faults\<rparr> in
          (case stmt db1 of Inl e \<Rightarrow> (Inl e, db1) | Inr (x, db2) \<Rightarrow> (Inr x, db2)))"

definition query :: "(kms_db \<Rightarrow> 'a) \<Rightarrow> (kms_db, sqlx_error, 'a) sm" where
  "query f = exec (\<lambda>db. Inr (f db, db))"

text \<open>A transaction: the body runs between begin and commit; when the body or the commit fails, the
  tables are as they were at begin.\<close>

definition rollback_to :: "kms_db \<Rightarrow> kms_db \<Rightarrow> kms_db" where
  "rollback_to snapshot db = snapshot\<lparr>db_faults := db_faults db\<rparr>"

definition transaction ::
  "(sqlx_error \<Rightarrow> 'e) \<Rightarrow> (sqlx_error \<Rightarrow> 'e) \<Rightarrow> (kms_db, 'e, 'a) sm \<Rightarrow> (kms_db, 'e, 'a) sm" where
  "transaction begin_err commit_err body =
     bindE (map_errE begin_err (query id)) (\<lambda>snapshot db.
       case body db of
         (Inl e, db1) \<Rightarrow> (Inl e, rollback_to snapshot db1)
       | (Inr x, db1) \<Rightarrow>
           (case query id db1 of
              (Inl e, db2) \<Rightarrow> (Inl (commit_err e), rollback_to snapshot db2)
            | (Inr _, db2) \<Rightarrow> (Inr x, db2)))"

text \<open>\<^verbatim>\<open>ORDER BY\<close>: insertion into a list sorted by an ordering of the rows.\<close>

fun insort_by :: "('a \<Rightarrow> 'a \<Rightarrow> bool) \<Rightarrow> 'a \<Rightarrow> 'a list \<Rightarrow> 'a list" where
  "insort_by le x [] = [x]"
| "insort_by le x (y # ys) = (if le x y then x # y # ys else y # insort_by le x ys)"

definition order_by :: "('a \<Rightarrow> 'a \<Rightarrow> bool) \<Rightarrow> 'a list \<Rightarrow> 'a list" where
  "order_by le xs = foldr (insort_by le) xs []"

section \<open>Key statements\<close>

definition key_slot :: "KeyDbRow \<Rightarrow> string \<times> string" where
  "key_slot r = (kr_service_id r, kr_algorithm r)"

definition key_violation :: "KeyDbRow list \<Rightarrow> string option" where
  "key_violation rows =
     (if \<not> distinct (map kr_id rows) then Some ''keys_pkey''
      else if \<not> distinct (map (\<lambda>r. (key_slot r, kr_version r)) rows) then
        Some ''keys_service_id_algorithm_version_key''
      else if \<not> distinct (map key_slot (filter kr_is_active rows)) then
        Some ''uniq_active_key_per_service_algorithm''
      else None)"

definition set_keys :: "KeyDbRow list \<Rightarrow> kms_db \<Rightarrow> sqlx_error + unit \<times> kms_db" where
  "set_keys rows db =
     (case key_violation rows of
        Some c \<Rightarrow> Inl (UniqueViolation c)
      | None \<Rightarrow> Inr ((), db\<lparr>keys_tbl := rows\<rparr>))"

text \<open>\<^verbatim>\<open>INSERT ... ON CONFLICT (service_id, algorithm, version) DO UPDATE\<close>.\<close>

definition same_version :: "KeyDbRow \<Rightarrow> KeyDbRow \<Rightarrow> bool" where
  "same_version row r = (key_slot r = key_slot row \<and> kr_version r = kr_version row)"

definition upsert_key :: "KeyDbRow \<Rightarrow> KeyDbRow list \<Rightarrow> KeyDbRow list" where
  "upsert_key row rows =
     (if list_ex (same_version row) rows
      then map (\<lambda>r. if same_version row r then row\<lparr>kr_id := kr_id r\<rparr> else r) rows
      else rows @ [row])"

definition save_key ::
  "db_env \<Rightarrow> uuid \<Rightarrow> string \<Rightarrow> string \<Rightarrow> u32 \<Rightarrow> bytes \<Rightarrow> string \<Rightarrow> string \<Rightarrow> string \<Rightarrow> bool
     \<Rightarrow> (kms_db, sqlx_error, unit) sm" where
  "save_key env key_id service_id algorithm version encrypted_key_data public_key_pem purpose status is_active =
     exec (\<lambda>db. set_keys (upsert_key \<lparr>kr_id = key_id, kr_service_id = service_id, kr_algorithm = algorithm,
        kr_version = version, kr_encrypted_key_data = encrypted_key_data, kr_public_key_pem = public_key_pem,
        kr_purpose = purpose, kr_status = status, kr_is_active = is_active, kr_created_at = env_now env\<rparr>
        (keys_tbl db)) db)"

definition get_active_key_row :: "string \<Rightarrow> string \<Rightarrow> (kms_db, sqlx_error, KeyDbRow option) sm" where
  "get_active_key_row service_id algorithm =
     query (\<lambda>db. find (\<lambda>r. kr_service_id r = service_id \<and> kr_algorithm r = algorithm \<and> kr_is_active r) (keys_tbl db))"

definition get_key_row_by_version ::
  "string \<Rightarrow> string \<Rightarrow> u32 \<Rightarrow> (kms_db, sqlx_error, KeyDbRow option) sm" where
  "get_key_row_by_version service_id algorithm version =
     query (\<lambda>db. find (\<lambda>r. kr_service_id r = service_id \<and> kr_algorithm r = algorithm \<and> kr_version r = version) (keys_tbl db))"

text \<open>\<^verbatim>\<open>ORDER BY service_id, algorithm, version DESC\<close>; the version column is a signed 32-bit integer.\<close>

definition slot_version_le :: "db_env \<Rightarrow> KeyDbRow \<Rightarrow> KeyDbRow \<Rightarrow> bool" where
  "slot_version_le env a b =
     (if kr_service_id a \<noteq> kr_service_id b then env_collate_le env (kr_service_id a) (kr_service_id b)
      else if kr_algorithm a \<noteq> kr_algorithm b then env_collate_le env (kr_algorithm a) (kr_algorithm b)
      else sint (kr_version b) \<le> sint (kr_version a))"

definition get_all_active_key_rows :: "db_env \<Rightarrow> (kms_db, sqlx_error, KeyDbRow list) sm" where
  "get_all_active_key_rows env = query (\<lambda>db. order_by (slot_version_le env) (filter kr_is_active (keys_tbl db)))"

definition retire_rows :: "string \<Rightarrow> string \<Rightarrow> (KeyDbRow \<Rightarrow> KeyDbRow) \<Rightarrow> KeyDbRow list \<Rightarrow> KeyDbRow list" where
  "retire_rows service_id algorithm f rows =
     map (\<lambda>r. if kr_service_id r = service_id \<and> kr_algorithm r = algorithm \<and> kr_is_active r then f r else r) rows"

definition deactivate_key_rows :: "string \<Rightarrow> string \<Rightarrow> (kms_db, sqlx_error, unit) sm" where
  "deactivate_key_rows service_id algorithm =
     exec (\<lambda>db. set_keys (retire_rows service_id algorithm
        (\<lambda>r. r\<lparr>kr_status := ''Revoked'', kr_is_active := False\<rparr>) (keys_tbl db)) db)"

definition update_key_row_status :: "uuid \<Rightarrow> string \<Rightarrow> bool \<Rightarrow> (kms_db, sqlx_error, unit) sm" where
  "update_key_row_status key_id status is_active =
     exec (\<lambda>db. set_keys (map (\<lambda>r. if kr_id r = key_id
        then r\<lparr>kr_status := status, kr_is_active := is_active\<rparr> else r) (keys_tbl db)) db)"

definition compare_and_set_row :: "uuid \<Rightarrow> (kms_db, sqlx_error, bool) sm" where
  "compare_and_set_row key_id =
     exec (\<lambda>db. bindR (set_keys (map (\<lambda>r. if kr_id r = key_id \<and> kr_status r = ''Active''
        then r\<lparr>kr_status := ''Deprecated'', kr_is_active := False\<rparr> else r) (keys_tbl db)) db)
        (\<lambda>(_, db1). Inr (length (filter (\<lambda>r. kr_id r = key_id \<and> kr_status r = ''Active'') (keys_tbl db)) = 1, db1)))"

text \<open>The rotation statement: an \<^verbatim>\<open>UPDATE\<close> in a \<^verbatim>\<open>WITH\<close> that the main \<^verbatim>\<open>INSERT\<close> does not read.  The
  order in which the two parts happen is the server's.\<close>

definition rotate_row ::
  "db_env \<Rightarrow> string \<Rightarrow> string \<Rightarrow> string \<Rightarrow> uuid \<Rightarrow> u32 \<Rightarrow> bytes \<Rightarrow> string \<Rightarrow> string
     \<Rightarrow> (kms_db, sqlx_error, bool) sm" where
  "rotate_row env service_id algorithm old_status new_key_id new_key_version encrypted_key_data public_key_pem purpose =
     exec (\<lambda>db.
       let row = \<lparr>kr_id = new_key_id, kr_service_id = service_id, kr_algorithm = algorithm,
             kr_version = new_key_version, kr_encrypted_key_data = encrypted_key_data,
             kr_public_key_pem = public_key_pem, kr_purpose = purpose, kr_status = ''Active'',
             kr_is_active = True, kr_created_at = env_now env\<rparr>;
           retire = retire_rows service_id algorithm
             (\<lambda>r. r\<lparr>kr_status := old_status, kr_is_active := False, kr_created_at := env_now env\<rparr>) in
       if list_ex (\<lambda>r. kr_is_active r \<and> same_version row r) (keys_tbl db) then Inl (env_same_row env)
       else bindR (if env_cte_first env then set_keys (upsert_key row (retire (keys_tbl db))) db
                   else bindR (set_keys (upsert_key row (keys_tbl db)) db) (\<lambda>(_, db1).
                     set_keys (map (\<lambda>r. if same_version row r then r else hd (retire [r])) (keys_tbl db1)) db1))
         (\<lambda>(_, db2). Inr (True, db2)))"

definition get_deprecated_key_rows :: "(kms_db, sqlx_error, KeyDbRow list) sm" where
  "get_deprecated_key_rows =
     query (\<lambda>db. order_by (\<lambda>a b. kr_created_at b \<le> kr_created_at a)
       (filter (\<lambda>r. kr_status r = ''Deprecated'') (keys_tbl db)))"

definition get_active_or_valid_deprecated_rows :: "db_env \<Rightarrow> (kms_db, sqlx_error, KeyDbRow list) sm" where
  "get_active_or_valid_deprecated_rows env =
     query (\<lambda>db. order_by (slot_version_le env) (filter kr_is_active (keys_tbl db)))"

definition get_all_key_rows :: "(kms_db, sqlx_error, KeyDbRow list) sm" where
  "get_all_key_rows = query (\<lambda>db. order_by (\<lambda>a b. kr_created_at b \<le> kr_created_at a) (keys_tbl db))"

definition update_encrypted_key_row :: "uuid \<Rightarrow> bytes \<Rightarrow> (kms_db, sqlx_error, unit) sm" where
  "update_encrypted_key_row key_id encrypted =
     exec (\<lambda>db. set_keys (map (\<lambda>r. if kr_id r = key_id then r\<lparr>kr_encrypted_key_data := encrypted\<rparr> else r)
        (keys_tbl db)) db)"

definition get_key_rows_needing_rewrap :: "(kms_db, sqlx_error, KeyDbRow list) sm" where
  "get_key_rows_needing_rewrap = query (\<lambda>db. order_by (\<lambda>a b. kr_created_at b \<le> kr_created_at a) (keys_tbl db))"

text \<open>The batch update's loop; a failed statement rolls back explicitly, and a failing rollback is the
  error that is returned.\<close>

fun update_rows_loop :: "(uuid \<times> bytes) list \<Rightarrow> nat \<Rightarrow> (kms_db, sqlx_error, nat) sm" where
  "update_rows_loop [] updated = returnE updated"
| "update_rows_loop ((key_id, encrypted) # updates) updated =
     (\<lambda>db. case update_encrypted_key_row key_id encrypted db of
        (Inl err, db1) \<Rightarrow>
          (case query id db1 of (Inl e2, db2) \<Rightarrow> (Inl e2, db2) | (Inr _, db2) \<Rightarrow> (Inl err, db2))
      | (Inr _, db1) \<Rightarrow> update_rows_loop updates (updated + 1) db1)"

definition update_encrypted_key_rows :: "(uuid \<times> bytes) list \<Rightarrow> (kms_db, sqlx_error, nat) sm" where
  "update_encrypted_key_rows updates = transaction id id (update_rows_loop updates 0)"

section \<open>Audit statements\<close>

text \<open>\<^verbatim>\<open>ORDER BY created_at ASC, id ASC\<close>.\<close>

definition audit_le :: "AuditRow \<Rightarrow> AuditRow \<Rightarrow> bool" where
  "audit_le a b = (ar_created_at a < ar_created_at b \<or> (ar_created_at a = ar_created_at b \<and> ar_id a \<le> ar_id b))"

definition lock_audit_chain_tx :: "(kms_db, sqlx_error, unit) sm" where
  "lock_audit_chain_tx = query (\<lambda>_. ())"

text \<open>The 64-bit sum \<^verbatim>\<open>limit + 1\<close> wraps, as in a release build; a \<^verbatim>\<open>LIMIT\<close> below zero is an error.\<close>

definition list_recent :: "u64 option \<Rightarrow> bool \<Rightarrow> (kms_db, sqlx_error, AuditRow list) sm" where
  "list_recent limit full =
     (if full then query (\<lambda>db. order_by audit_le (audit_tbl db))
      else
        let n = sint ((case limit of None \<Rightarrow> 1000 | Some l \<Rightarrow> l) + 1) in
        exec (\<lambda>db. if n < 0 then Inl (SqlFault ''LIMIT must not be negative'')
                  else Inr (rev (take (nat n) (order_by (\<lambda>a b. audit_le b a) (audit_tbl db))), db)))"

definition active_signing_public_keys :: "(kms_db, sqlx_error, string list) sm" where
  "active_signing_public_keys =
     query (\<lambda>db. map kr_public_key_pem (filter (\<lambda>r. kr_purpose r = ''Signing'' \<and> kr_is_active r) (keys_tbl db)))"

definition newest_hash :: "AuditRow list \<Rightarrow> string option" where
  "newest_hash rows =
     (case order_by (\<lambda>a b. audit_le b a) rows of [] \<Rightarrow> None | r # _ \<Rightarrow> Some (ar_hash r))"

definition latest_hash :: "(kms_db, sqlx_error, string option) sm" where
  "latest_hash = query (\<lambda>db. newest_hash (audit_tbl db))"

definition insert_audit :: "db_env \<Rightarrow> AuditRow \<Rightarrow> (kms_db, sqlx_error, unit) sm" where
  "insert_audit env row =
     exec (\<lambda>db. if ar_id row \<in> ar_id ` set (audit_tbl db) then Inl (UniqueViolation ''audit_logs_pkey'')
               else Inr ((), db\<lparr>audit_tbl := audit_tbl db @ [row\<lparr>ar_created_at := env_store_time env (ar_created_at row)\<rparr>]\<rparr>))"

section \<open>Credential statements\<close>

definition fetch_target_resource ::
  "string \<Rightarrow> (kms_db, sqlx_error, (uuid \<times> bytes \<times> string option) option) sm" where
  "fetch_target_resource target_name =
     query (\<lambda>db. map_option (\<lambda>r. (tr_id r, tr_connection_url_encrypted r, tr_default_role r))
       (find (\<lambda>r. tr_target_name r = target_name \<and> tr_active r) (target_tbl db)))"

definition revoke_active_credentials_for_target :: "string \<Rightarrow> uuid \<Rightarrow> (kms_db, sqlx_error, unit) sm" where
  "revoke_active_credentials_for_target service_id target_id =
     exec (\<lambda>db. Inr ((), db\<lparr>provisioned_tbl := map (\<lambda>r. if pr_service_id r = service_id \<and> pr_target_id r = target_id
        \<and> \<not> pr_revoked r then r\<lparr>pr_revoked := True\<rparr> else r) (provisioned_tbl db)\<rparr>))"

definition newest_version :: "KeyDbRow list \<Rightarrow> (uuid \<times> int) option" where
  "newest_version rows =
     (case order_by (\<lambda>a b. sint (kr_version b) \<le> sint (kr_version a)) rows of
        [] \<Rightarrow> None | r # _ \<Rightarrow> Some (kr_id r, sint (kr_version r)))"

definition fetch_latest_kek_id :: "string \<Rightarrow> (kms_db, sqlx_error, (uuid \<times> int) option) sm" where
  "fetch_latest_kek_id target_service_id =
     query (\<lambda>db. newest_version (filter (\<lambda>r. kr_service_id r = target_service_id \<and> kr_is_active r
        \<and> kr_algorithm r = ''AES256GCM'') (keys_tbl db)))"

definition provisioned_statuses :: "string list" where
  "provisioned_statuses = [''PENDING'', ''PROVISIONING'', ''ACTIVE'', ''FAILED'', ''REVOKING'']"

definition insert_provisioned_credential :: "db_env \<Rightarrow> ProvisionedRow \<Rightarrow> (kms_db, sqlx_error, unit) sm" where
  "insert_provisioned_credential env row =
     exec (\<lambda>db.
       if length (pr_service_id row) > 64 \<or> length (pr_granted_role row) > 64 \<or> length (pr_status row) > 32 then
         Inl StringTooLong
       else if pr_status row \<notin> set provisioned_statuses then Inl (CheckViolation ''chk_provisioned_credentials_status'')
       else if pr_id row \<in> pr_id ` set (provisioned_tbl db) then Inl (UniqueViolation ''provisioned_credentials_pkey'')
       else if pr_target_id row \<notin> tr_id ` set (target_tbl db) then
         Inl (ForeignKeyViolation ''provisioned_credentials_target_id_fkey'')
       else if pr_kek_id row \<notin> kr_id ` set (keys_tbl db) then
         Inl (ForeignKeyViolation ''provisioned_credentials_kek_id_fkey'')
       else Inr ((), db\<lparr>provisioned_tbl := provisioned_tbl db @ [row\<lparr>pr_revoked := False,
          pr_expires_at := env_store_time env (pr_expires_at row),
          pr_created_at := env_store_time env (pr_created_at row)\<rparr>]\<rparr>))"

definition usable_credential :: "db_env \<Rightarrow> string \<Rightarrow> uuid \<Rightarrow> ProvisionedRow \<Rightarrow> bool" where
  "usable_credential env service_id target_id r =
     (pr_service_id r = service_id \<and> pr_target_id r = target_id \<and> \<not> pr_revoked r
      \<and> pr_status r = ''ACTIVE'' \<and> pr_expires_at r > env_now env)"

definition fetch_active_provisioned_credential ::
  "db_env \<Rightarrow> string \<Rightarrow> uuid \<Rightarrow> (kms_db, sqlx_error, (uuid \<times> bytes \<times> timestamp) option) sm" where
  "fetch_active_provisioned_credential env service_id target_id =
     query (\<lambda>db. map_option (\<lambda>r. (pr_id r, pr_encrypted_credentials r, pr_expires_at r))
       (find (usable_credential env service_id target_id) (provisioned_tbl db)))"

definition fetch_latest_active_provisioned_credential ::
  "db_env \<Rightarrow> string \<Rightarrow> uuid \<Rightarrow> (kms_db, sqlx_error, (uuid \<times> bytes \<times> timestamp) option) sm" where
  "fetch_latest_active_provisioned_credential env service_id target_id =
     query (\<lambda>db. case order_by (\<lambda>a b. pr_created_at b < pr_created_at a
                      \<or> (pr_created_at b = pr_created_at a \<and> pr_id b \<le> pr_id a))
                   (filter (usable_credential env service_id target_id) (provisioned_tbl db)) of
        [] \<Rightarrow> None | r # _ \<Rightarrow> Some (pr_id r, pr_encrypted_credentials r, pr_expires_at r))"

definition update_provisioned_credential_status :: "uuid \<Rightarrow> string \<Rightarrow> (kms_db, sqlx_error, unit) sm" where
  "update_provisioned_credential_status cred_id status =
     exec (\<lambda>db. if list_ex (\<lambda>r. pr_id r = cred_id) (provisioned_tbl db) \<and> status \<notin> set provisioned_statuses then
          Inl (CheckViolation ''chk_provisioned_credentials_status'')
        else Inr ((), db\<lparr>provisioned_tbl := map (\<lambda>r. if pr_id r = cred_id then r\<lparr>pr_status := status\<rparr> else r)
          (provisioned_tbl db)\<rparr>))"

section \<open>Bootstrap statements\<close>

definition target_resource_exists_by_id :: "uuid \<Rightarrow> (kms_db, sqlx_error, bool) sm" where
  "target_resource_exists_by_id target = query (\<lambda>db. target \<in> tr_id ` set (target_tbl db))"

definition credential_exists_by_id :: "uuid \<Rightarrow> (kms_db, sqlx_error, bool) sm" where
  "credential_exists_by_id cred = query (\<lambda>db. cred \<in> pr_id ` set (provisioned_tbl db))"

definition insert_target_resource ::
  "db_env \<Rightarrow> uuid \<Rightarrow> string \<Rightarrow> string \<Rightarrow> bytes \<Rightarrow> string option \<Rightarrow> timestamp \<Rightarrow> (kms_db, sqlx_error, bool) sm" where
  "insert_target_resource env target target_name target_type connection_url_encrypted default_role created_at =
     exec (\<lambda>db.
       if length target_name > 64 \<or> length target_type > 32
          \<or> (case default_role of None \<Rightarrow> False | Some r \<Rightarrow> length r > 64) then Inl StringTooLong
       else if target \<in> tr_id ` set (target_tbl db) then Inr (False, db)
       else if target_name \<in> tr_target_name ` set (target_tbl db) then
         Inl (UniqueViolation ''target_resources_target_name_key'')
       else Inr (True, db\<lparr>target_tbl := target_tbl db @ [\<lparr>tr_id = target, tr_target_name = target_name,
          tr_target_type = target_type, tr_connection_url_encrypted = connection_url_encrypted,
          tr_default_role = default_role, tr_active = True, tr_created_at = env_store_time env created_at\<rparr>]\<rparr>))"

definition active_credential_exists ::
  "string \<Rightarrow> string \<Rightarrow> string \<Rightarrow> (kms_db, sqlx_error, uuid option) sm" where
  "active_credential_exists service_id target_type target_db =
     query (\<lambda>db. map_option dc_id (find (\<lambda>r. dc_service_id r = service_id \<and> dc_target_type r = target_type
        \<and> dc_target_db r = target_db \<and> dc_status r = ''ACTIVE'') (db_cred_tbl db)))"

definition latest_kek_id :: "string \<Rightarrow> (kms_db, sqlx_error, (uuid \<times> int) option) sm" where
  "latest_kek_id service_id =
     query (\<lambda>db. newest_version (filter (\<lambda>r. kr_service_id r = service_id \<and> kr_is_active r) (keys_tbl db)))"

definition insert_db_credential ::
  "db_env \<Rightarrow> uuid \<Rightarrow> string \<Rightarrow> string \<Rightarrow> string \<Rightarrow> string \<Rightarrow> bytes \<Rightarrow> uuid \<Rightarrow> int \<Rightarrow> timestamp
     \<Rightarrow> (kms_db, sqlx_error, bool) sm" where
  "insert_db_credential env cred service_id target_type target_db resource encrypted_credentials kek_id kek_version created_at =
     exec (\<lambda>db.
       if cred \<in> dc_id ` set (db_cred_tbl db) then Inr (False, db)
       else if kek_id \<notin> kr_id ` set (keys_tbl db) then Inl (ForeignKeyViolation ''db_credentials_kek_id_fkey'')
       else Inr (True, db\<lparr>db_cred_tbl := db_cred_tbl db @ [\<lparr>dc_id = cred, dc_service_id = service_id,
          dc_target_type = target_type, dc_target_db = target_db, dc_resource = resource,
          dc_encrypted_credentials = encrypted_credentials, dc_kek_id = kek_id, dc_kek_version = kek_version,
          dc_status = ''ACTIVE'', dc_created_at = env_store_time env created_at\<rparr>]\<rparr>))"

section \<open>Root certificate authority statements\<close>

definition fetch_active_root_ca_by_tag :: "string \<Rightarrow> (kms_db, sqlx_error, RootCaRow option) sm" where
  "fetch_active_root_ca_by_tag ca_tag = query (\<lambda>db. find (\<lambda>r. ca_ca_tag r = ca_tag) (root_ca_tbl db))"

definition root_ca_exists_by_tag :: "string \<Rightarrow> (kms_db, sqlx_error, bool) sm" where
  "root_ca_exists_by_tag ca_tag = query (\<lambda>db. ca_tag \<in> ca_ca_tag ` set (root_ca_tbl db))"

definition insert_root_ca :: "db_env \<Rightarrow> RootCaRow \<Rightarrow> (kms_db, sqlx_error, bool) sm" where
  "insert_root_ca env row =
     exec (\<lambda>db.
       if ca_ca_tag row \<in> ca_ca_tag ` set (root_ca_tbl db) then Inr (False, db)
       else if ca_id row \<in> ca_id ` set (root_ca_tbl db) then Inl (UniqueViolation ''root_cas_pkey'')
       else if ca_kek_id row \<notin> kr_id ` set (keys_tbl db) then Inl (ForeignKeyViolation ''root_cas_kek_id_fkey'')
       else Inr (True, db\<lparr>root_ca_tbl := root_ca_tbl db @ [row\<lparr>ca_created_at := env_store_time env (ca_created_at row),
          ca_expires_at := map_option (env_store_time env) (ca_expires_at row)\<rparr>]\<rparr>))"

definition root_ca_advisory_lock :: "string \<Rightarrow> (kms_db, sqlx_error, unit) sm" where
  "root_ca_advisory_lock lock_key = query (\<lambda>_. ())"

definition update_root_ca_private_key :: "uuid \<Rightarrow> bytes \<Rightarrow> int \<Rightarrow> (kms_db, sqlx_error, unit) sm" where
  "update_root_ca_private_key ca encrypted_private_key kek_version =
     exec (\<lambda>db. Inr ((), db\<lparr>root_ca_tbl := map (\<lambda>r. if ca_id r = ca
        then r\<lparr>ca_encrypted_private_key := encrypted_private_key, ca_kek_version := kek_version\<rparr> else r)
        (root_ca_tbl db)\<rparr>))"

text \<open>\<^verbatim>\<open>fetch_by_id\<close> does not select \<^verbatim>\<open>public_key\<close>, which the row type requires: decoding a row fails.\<close>

definition fetch_root_ca_by_id :: "uuid \<Rightarrow> (kms_db, sqlx_error, RootCaRow option) sm" where
  "fetch_root_ca_by_id ca =
     exec (\<lambda>db. case find (\<lambda>r. ca_id r = ca) (root_ca_tbl db) of
        None \<Rightarrow> Inr (None, db) | Some r \<Rightarrow> Inl (ColumnNotFound ''public_key''))"

definition ping :: "(kms_db, sqlx_error, unit) sm" where
  "ping = query (\<lambda>_. ())"

section \<open>Table invariant\<close>

text \<open>The constraints of the keys table hold, and a row is active exactly when its status says so.\<close>

definition keys_ok :: "kms_db \<Rightarrow> bool" where
  "keys_ok db = (key_violation (keys_tbl db) = None
     \<and> (\<forall>r\<in>set (keys_tbl db). kr_is_active r = (kr_status r = ''Active'')))"

section \<open>Lemmas\<close>

lemma exec_cases:
  obtains (fault) e where "exec stmt db = (Inl e, db\<lparr>db_faults := tl (db_faults db)\<rparr>)"
  | (run) db1 where "db1 = db\<lparr>db_faults := tl (db_faults db)\<rparr>"
      "exec stmt db = (case stmt db1 of Inl e \<Rightarrow> (Inl e, db1) | Inr (x, db2) \<Rightarrow> (Inr x, db2))"
proof (cases "db_faults db")
  case (Cons f rest)
  then show ?thesis using that by (cases f) (simp_all add: exec_def Let_def)
qed (use that in \<open>simp add: exec_def Let_def\<close>)

lemma exec_no_faults:
  "db_faults db = [] \<Longrightarrow> exec stmt db = (case stmt db of Inl e \<Rightarrow> (Inl e, db) | Inr (x, db2) \<Rightarrow> (Inr x, db2))"
proof -
  assume a: "db_faults db = []"
  then have eq: "db\<lparr>db_faults := []\<rparr> = db" by (cases db) simp
  show ?thesis by (simp add: exec_def Let_def a eq)
qed

lemma query_no_faults: "db_faults db = [] \<Longrightarrow> query f db = (Inr (f db), db)"
  by (simp add: query_def exec_no_faults)

lemma exec_Inr:
  "exec stmt db = (Inr x, db') \<Longrightarrow> stmt (db\<lparr>db_faults := tl (db_faults db)\<rparr>) = Inr (x, db')"
  by (rule exec_cases [of stmt db]) (auto split: sum.splits prod.splits)

lemma query_state: "snd (query f db) = db\<lparr>db_faults := tl (db_faults db)\<rparr>"
  unfolding query_def by (rule exec_cases [of "\<lambda>db. Inr (f db, db)" db]) auto

lemma query_Inr: "query f db = (Inr x, db') \<Longrightarrow> x = f db' \<and> db' = db\<lparr>db_faults := tl (db_faults db)\<rparr>"
  unfolding query_def by (drule exec_Inr) auto

text \<open>An invariant that ignores the fault list is kept by a statement that keeps it when it succeeds.\<close>

lemma preserves_exec [preserve]:
  assumes "\<And>db fs. I (db\<lparr>db_faults := fs\<rparr>) = I db"
    and "\<And>db x db'. I db \<Longrightarrow> stmt db = Inr (x, db') \<Longrightarrow> I db'"
  shows "preserves I (exec stmt)"
  unfolding preserves_def
proof (intro allI impI)
  fix db assume I: "I db"
  show "I (snd (exec stmt db))"
    by (rule exec_cases [of stmt db])
       (use I assms(1) assms(2) [of "db\<lparr>db_faults := tl (db_faults db)\<rparr>"] in \<open>auto split: sum.splits prod.splits\<close>)
qed

lemma preserves_query [preserve]:
  assumes "\<And>db fs. I (db\<lparr>db_faults := fs\<rparr>) = I db"
  shows "preserves I (query f)"
  unfolding query_def by (rule preserves_exec [OF assms]) auto

lemma keys_ok_faults [simp]: "keys_ok (db\<lparr>db_faults := fs\<rparr>) = keys_ok db"
  by (simp add: keys_ok_def)

lemma set_keys_Inr_iff:
  "set_keys rows db = Inr (u, db') \<longleftrightarrow> key_violation rows = None \<and> db' = db\<lparr>keys_tbl := rows\<rparr>"
  by (auto simp: set_keys_def split: option.splits)

lemma set_upsert_key:
  "r \<in> set (upsert_key row rows) \<Longrightarrow> r \<in> set rows \<or> (\<exists>i. r = row\<lparr>kr_id := i\<rparr>)"
  by (auto simp: upsert_key_def split: if_splits) (metis KeyDbRow.surjective KeyDbRow.update_convs(1))

end
