(* ===== verification/Key_Repository.thy ===== *)
theory Key_Repository
  imports Kms_Db
begin

text \<open>The key repository (\<^verbatim>\<open>kms-service/src/infrastructure/postgres/keys.rs\<close>): each method of
  \<^verbatim>\<open>PgKeyRepository\<close> runs one statement of \<^theory_text>\<open>Kms_Db\<close> and converts between rows and key entities.  The
  contract its clients rely on, a map from slots (a service and an algorithm) to the active key, is
  the locale \<^verbatim>\<open>key_store\<close>.  The \<^verbatim>\<open>Debug\<close> form of a timestamp, which belongs to the time library, is the
  parameter \<^verbatim>\<open>dbg\<close>.\<close>

section \<open>Rows and entities\<close>

definition db_error :: "db_env \<Rightarrow> sqlx_error \<Rightarrow> AppError" where
  "db_error env err = DatabaseError (''Database operation failed: '' @ env_error_text env err)"

text \<open>\<^verbatim>\<open>str::replace\<close>.\<close>

function replace_sub :: "string \<Rightarrow> string \<Rightarrow> string \<Rightarrow> string" where
  "replace_sub pat to [] = []"
| "replace_sub pat to (c # s) =
     (if pat \<noteq> [] \<and> starts_with (c # s) pat then to @ replace_sub pat to (drop (length pat) (c # s))
      else c # replace_sub pat to s)"
  by pat_completeness auto
termination
  by (relation "measure (\<lambda>(pat, to, s). length s)") auto

fun status_debug :: "(timestamp \<Rightarrow> string) \<Rightarrow> KeyStatus \<Rightarrow> string" where
  "status_debug dbg Active = ''Active''"
| "status_debug dbg (Deprecated valid_until) = ''Deprecated { valid_until: '' @ dbg valid_until @ '' }''"
| "status_debug dbg Revoked = ''Revoked''"
| "status_debug dbg Expired = ''Expired''"
| "status_debug dbg Compromised = ''Compromised''"

definition THIRTY_MINUTES :: int where
  "THIRTY_MINUTES = 30 * 60 * 1000000000"

definition algorithm_of_row :: "string \<Rightarrow> AppError + KeyAlgorithm" where
  "algorithm_of_row s =
     (if s = ''Ed25519'' then Inr Ed25519
      else if s = ''X25519'' then Inr X25519
      else if s = ''AES256GCM'' then Inr AES256GCM
      else if s = ''HmacSha256'' then Inr HmacSha256
      else Inl (AppInternal (''Unknown algorithm in database: '' @ s)))"

definition purpose_of_row :: "string \<Rightarrow> AppError + KeyPurpose" where
  "purpose_of_row s =
     (if s = ''Signing'' then Inr Signing
      else if s = ''Encryption'' then Inr Encryption
      else if s = ''Authentication'' then Inr Authentication
      else Inl (AppInternal (''Unknown purpose in database: '' @ s)))"

definition status_of_row :: "string \<Rightarrow> timestamp \<Rightarrow> AppError + KeyStatus" where
  "status_of_row s created_at =
     (if s = ''Active'' then Inr Active
      else if s = ''Revoked'' then Inr Revoked
      else if s = ''Compromised'' then Inr Compromised
      else if s = ''Deprecated'' then Inr (Deprecated (created_at + THIRTY_MINUTES))
      else if s = ''Expired'' then Inr Expired
      else Inl (AppInternal (''Unknown key status in database: '' @ s)))"

definition map_key_row :: "KeyDbRow \<Rightarrow> AppError + KeyPairEntity" where
  "map_key_row row =
     bindR (algorithm_of_row (kr_algorithm row)) (\<lambda>algorithm.
     bindR (purpose_of_row (kr_purpose row)) (\<lambda>purpose.
     bindR (status_of_row (kr_status row) (kr_created_at row)) (\<lambda>status.
       Inr \<lparr>kp_id = kr_id row, kp_service_id = kr_service_id row, kp_algorithm = algorithm,
         kp_purpose = purpose, kp_public_key_pem = kr_public_key_pem row,
         kp_encrypted_private_key = \<lparr>epk_ciphertext = kr_encrypted_key_data row, epk_master_key_version = 0\<rparr>,
         kp_version = kr_version row, kp_status = status, kp_created_at = kr_created_at row,
         kp_expires_at = None\<rparr>)))"

text \<open>\<^verbatim>\<open>rows.into_iter().map(map_key_row).collect()\<close>: the first failure is the result.\<close>

fun map_key_rows :: "KeyDbRow list \<Rightarrow> AppError + KeyPairEntity list" where
  "map_key_rows [] = Inr []"
| "map_key_rows (row # rows) =
     bindR (map_key_row row) (\<lambda>k. bindR (map_key_rows rows) (\<lambda>ks. Inr (k # ks)))"

fun map_optional_row :: "KeyDbRow option \<Rightarrow> AppError + KeyPairEntity option" where
  "map_optional_row None = Inr None"
| "map_optional_row (Some r) = bindR (map_key_row r) (\<lambda>k. Inr (Some k))"

section \<open>Methods\<close>

definition pg_save_key :: "db_env \<Rightarrow> (timestamp \<Rightarrow> string) \<Rightarrow> KeyPairEntity \<Rightarrow> (kms_db, AppError, unit) sm" where
  "pg_save_key env dbg key_pair =
     (let status = replace_sub ''Deprecated { valid_until: ... }'' ''Deprecated'' (status_debug dbg (kp_status key_pair));
          is_active = (kp_status key_pair = Active) in
      map_errE (db_error env)
        (save_key env (kp_id key_pair) (kp_service_id key_pair) (algorithm_debug (kp_algorithm key_pair))
          (kp_version key_pair) (epk_ciphertext (kp_encrypted_private_key key_pair)) (kp_public_key_pem key_pair)
          (purpose_debug (kp_purpose key_pair)) status is_active))"

definition pg_get_active_key ::
  "db_env \<Rightarrow> service_id \<Rightarrow> KeyAlgorithm \<Rightarrow> (kms_db, AppError, KeyPairEntity option) sm" where
  "pg_get_active_key env service_id algo =
     bindE (map_errE (db_error env) (get_active_key_row service_id (algorithm_debug algo)))
       (\<lambda>row. liftE (map_optional_row row))"

definition pg_get_key_by_version ::
  "db_env \<Rightarrow> service_id \<Rightarrow> KeyAlgorithm \<Rightarrow> u32 \<Rightarrow> (kms_db, AppError, KeyPairEntity option) sm" where
  "pg_get_key_by_version env service_id algo version =
     bindE (map_errE (db_error env) (get_key_row_by_version service_id (algorithm_debug algo) version))
       (\<lambda>row. liftE (map_optional_row row))"

definition pg_get_all_active_keys :: "db_env \<Rightarrow> (kms_db, AppError, KeyPairEntity list) sm" where
  "pg_get_all_active_keys env =
     bindE (map_errE (db_error env) (get_all_active_key_rows env)) (\<lambda>rows. liftE (map_key_rows rows))"

definition pg_deactivate_keys_for_service ::
  "db_env \<Rightarrow> service_id \<Rightarrow> KeyAlgorithm \<Rightarrow> (kms_db, AppError, unit) sm" where
  "pg_deactivate_keys_for_service env service_id algo =
     map_errE (db_error env) (deactivate_key_rows service_id (algorithm_debug algo))"

fun status_column :: "KeyStatus \<Rightarrow> string" where
  "status_column Active = ''Active''"
| "status_column (Deprecated _) = ''Deprecated''"
| "status_column Revoked = ''Revoked''"
| "status_column Expired = ''Expired''"
| "status_column Compromised = ''Compromised''"

definition pg_update_key_status ::
  "db_env \<Rightarrow> uuid \<Rightarrow> KeyStatus \<Rightarrow> timestamp option \<Rightarrow> (kms_db, AppError, unit) sm" where
  "pg_update_key_status env key_id status deprecated_until =
     map_errE (db_error env) (update_key_row_status key_id (status_column status) (status = Active))"

definition pg_compare_and_set :: "db_env \<Rightarrow> uuid \<Rightarrow> timestamp \<Rightarrow> (kms_db, AppError, bool) sm" where
  "pg_compare_and_set env key_id deprecated_until = map_errE (db_error env) (compare_and_set_row key_id)"

definition pg_rotate_active_key ::
  "db_env \<Rightarrow> service_id \<Rightarrow> KeyAlgorithm \<Rightarrow> KeyPairEntity \<Rightarrow> timestamp option \<Rightarrow> (kms_db, AppError, bool) sm" where
  "pg_rotate_active_key env service_id algorithm new_key deprecated_until =
     (let old_status = (if deprecated_until \<noteq> None then ''Deprecated'' else ''Compromised'') in
      map_errE (db_error env)
        (rotate_row env service_id (algorithm_debug algorithm) old_status (kp_id new_key) (kp_version new_key)
          (epk_ciphertext (kp_encrypted_private_key new_key)) (kp_public_key_pem new_key)
          (purpose_debug (kp_purpose new_key))))"

fun expired_before :: "timestamp \<Rightarrow> KeyStatus \<Rightarrow> bool" where
  "expired_before now (Deprecated valid_until) = (valid_until \<le> now)"
| "expired_before now _ = False"

definition pg_get_deprecated_keys_expired :: "db_env \<Rightarrow> timestamp \<Rightarrow> (kms_db, AppError, KeyPairEntity list) sm" where
  "pg_get_deprecated_keys_expired env now =
     bindE (map_errE (db_error env) get_deprecated_key_rows) (\<lambda>rows.
       liftE (bindR (map_key_rows rows) (\<lambda>ks. Inr (filter (\<lambda>k. expired_before now (kp_status k)) ks))))"

fun valid_after :: "timestamp \<Rightarrow> KeyStatus \<Rightarrow> bool" where
  "valid_after now Active = True"
| "valid_after now (Deprecated valid_until) = (now < valid_until)"
| "valid_after now _ = False"

text \<open>The loop returns at the first match and fails at the first unreadable row before it.\<close>

fun first_valid_row ::
  "service_id \<Rightarrow> KeyAlgorithm \<Rightarrow> timestamp \<Rightarrow> KeyDbRow list \<Rightarrow> AppError + KeyPairEntity option" where
  "first_valid_row service_id algo now [] = Inr None"
| "first_valid_row service_id algo now (row # rows) =
     bindR (map_key_row row) (\<lambda>entity.
       if kp_service_id entity = service_id \<and> kp_algorithm entity = algo \<and> valid_after now (kp_status entity)
       then Inr (Some entity)
       else first_valid_row service_id algo now rows)"

definition pg_get_active_or_valid_deprecated_key ::
  "db_env \<Rightarrow> service_id \<Rightarrow> KeyAlgorithm \<Rightarrow> timestamp \<Rightarrow> (kms_db, AppError, KeyPairEntity option) sm" where
  "pg_get_active_or_valid_deprecated_key env service_id algo now =
     bindE (map_errE (db_error env) (get_active_or_valid_deprecated_rows env))
       (\<lambda>rows. liftE (first_valid_row service_id algo now rows))"

definition pg_get_all_keys :: "db_env \<Rightarrow> (kms_db, AppError, KeyPairEntity list) sm" where
  "pg_get_all_keys env = bindE (map_errE (db_error env) get_all_key_rows) (\<lambda>rows. liftE (map_key_rows rows))"

definition pg_update_encrypted_key :: "db_env \<Rightarrow> uuid \<Rightarrow> EncryptedPrivateKey \<Rightarrow> (kms_db, AppError, unit) sm" where
  "pg_update_encrypted_key env key_id encrypted =
     map_errE (db_error env) (update_encrypted_key_row key_id (epk_ciphertext encrypted))"

definition pg_get_keys_needing_rewrap :: "db_env \<Rightarrow> int \<Rightarrow> nat \<Rightarrow> (kms_db, AppError, KeyPairEntity list) sm" where
  "pg_get_keys_needing_rewrap env current_master_version batch_size =
     bindE (map_errE (db_error env) get_key_rows_needing_rewrap)
       (\<lambda>rows. liftE (map_key_rows (take batch_size rows)))"

definition pg_update_encrypted_keys_batch ::
  "db_env \<Rightarrow> (uuid \<times> EncryptedPrivateKey \<times> int) list \<Rightarrow> (kms_db, AppError, nat) sm" where
  "pg_update_encrypted_keys_batch env updates =
     map_errE (db_error env)
       (update_encrypted_key_rows (map (\<lambda>(key_id, encrypted, _). (key_id, epk_ciphertext encrypted)) updates))"

section \<open>The repository contract\<close>

text \<open>A slot is a service and an algorithm.  What the repository promises is a map from slots to the
  material of the active key: its version, its encrypted private key, its public key and its purpose.\<close>

type_synonym slot = "service_id \<times> KeyAlgorithm"

type_synonym key_material = "u32 \<times> bytes \<times> string \<times> KeyPurpose"

definition material :: "KeyPairEntity \<Rightarrow> key_material" where
  "material k = (kp_version k, epk_ciphertext (kp_encrypted_private_key k), kp_public_key_pem k, kp_purpose k)"

definition active_in :: "string \<times> string \<Rightarrow> KeyDbRow list \<Rightarrow> KeyDbRow option" where
  "active_in ks rows = find (\<lambda>r. key_slot r = ks \<and> kr_is_active r) rows"

definition slot_key :: "slot \<Rightarrow> string \<times> string" where
  "slot_key s = (fst s, algorithm_debug (snd s))"

definition active_key :: "kms_db \<Rightarrow> slot \<Rightarrow> key_material option" where
  "active_key db s =
     (case active_in (slot_key s) (keys_tbl db) of
        None \<Rightarrow> None
      | Some r \<Rightarrow> (case map_key_row r of Inl _ \<Rightarrow> None | Inr k \<Rightarrow> Some (material k)))"

text \<open>The tables satisfy their constraints and every key row can be read.\<close>

definition repo_ok :: "kms_db \<Rightarrow> bool" where
  "repo_ok db = (keys_ok db \<and> (\<forall>r\<in>set (keys_tbl db). is_ok (map_key_row r)))"

definition row_ok :: "KeyDbRow \<Rightarrow> bool" where
  "row_ok r = (is_ok (map_key_row r) \<and> kr_is_active r = (kr_status r = ''Active''))"

text \<open>The row that storing an active entity writes.\<close>

definition stored_row :: "db_env \<Rightarrow> KeyPairEntity \<Rightarrow> KeyDbRow" where
  "stored_row env k = \<lparr>kr_id = kp_id k, kr_service_id = kp_service_id k, kr_algorithm = algorithm_debug (kp_algorithm k),
     kr_version = kp_version k, kr_encrypted_key_data = epk_ciphertext (kp_encrypted_private_key k),
     kr_public_key_pem = kp_public_key_pem k, kr_purpose = purpose_debug (kp_purpose k), kr_status = ''Active'',
     kr_is_active = True, kr_created_at = env_now env\<rparr>"

definition storable :: "slot \<Rightarrow> KeyPairEntity \<Rightarrow> bool" where
  "storable s k = (s = (kp_service_id k, kp_algorithm k) \<and> kp_status k = Active \<and> kp_algorithm k \<noteq> EcdsaP256)"

text \<open>The rows after a rotation that succeeds.\<close>

definition retired :: "db_env \<Rightarrow> slot \<Rightarrow> string \<Rightarrow> KeyDbRow \<Rightarrow> KeyDbRow" where
  "retired env s old_status q = (if key_slot q = slot_key s \<and> kr_is_active q
     then q\<lparr>kr_status := old_status, kr_is_active := False, kr_created_at := env_now env\<rparr> else q)"

definition rotated :: "db_env \<Rightarrow> slot \<Rightarrow> string \<Rightarrow> KeyDbRow \<Rightarrow> KeyDbRow list \<Rightarrow> KeyDbRow list" where
  "rotated env s old row rows =
     (if env_cte_first env then upsert_key row (map (retired env s old) rows)
      else map (\<lambda>r. if same_version row r then r else retired env s old r) (upsert_key row rows))"

definition old_status :: "timestamp option \<Rightarrow> string" where
  "old_status deprecated_until = (if deprecated_until \<noteq> None then ''Deprecated'' else ''Compromised'')"

text \<open>The methods that change the table, as steps.\<close>

inductive repo_step :: "(timestamp \<Rightarrow> string) \<Rightarrow> kms_db \<Rightarrow> kms_db \<Rightarrow> bool" for dbg :: "timestamp \<Rightarrow> string" where
  step_save: "storable s k \<Longrightarrow> repo_step dbg db (snd (pg_save_key env dbg k db))"
| step_deactivate: "repo_step dbg db (snd (pg_deactivate_keys_for_service env service algo db))"
| step_status: "repo_step dbg db (snd (pg_update_key_status env key_id status deprecated_until db))"
| step_cas: "repo_step dbg db (snd (pg_compare_and_set env key_id until db))"
| step_rotate: "storable s k \<Longrightarrow> repo_step dbg db (snd (pg_rotate_active_key env (fst s) (snd s) k until_opt db))"
| step_encrypted: "repo_step dbg db (snd (pg_update_encrypted_key env key_id encrypted db))"
| step_batch: "repo_step dbg db (snd (pg_update_encrypted_keys_batch env updates db))"

locale key_store =
  fixes inv :: "'db \<Rightarrow> bool"
    and active :: "'db \<Rightarrow> 's \<Rightarrow> 'm option"
    and get :: "'s \<Rightarrow> ('db, 'e, 'k option) sm"
    and rotate :: "'s \<Rightarrow> 'k \<Rightarrow> ('db, 'e, bool) sm"
    and retire :: "'s \<Rightarrow> ('db, 'e, unit) sm"
    and save :: "'s \<Rightarrow> 'k \<Rightarrow> ('db, 'e, unit) sm"
    and view :: "'k \<Rightarrow> 'm"
    and accepts :: "'s \<Rightarrow> 'k \<Rightarrow> bool"
  assumes get_result: "inv db \<Longrightarrow> get s db = (Inr found, db') \<Longrightarrow> map_option view found = active db s"
    and get_keeps: "inv db \<Longrightarrow> get s db = (r, db') \<Longrightarrow> inv db' \<and> active db' = active db"
    and rotate_ok: "inv db \<Longrightarrow> accepts s k \<Longrightarrow> rotate s k db = (Inr b, db') \<Longrightarrow>
        b \<and> inv db' \<and> active db' = (active db)(s \<mapsto> view k)"
    and rotate_failed: "inv db \<Longrightarrow> rotate s k db = (Inl e, db') \<Longrightarrow> inv db' \<and> active db' = active db"
    and retire_ok: "inv db \<Longrightarrow> retire s db = (Inr u, db') \<Longrightarrow> inv db' \<and> active db' = (active db)(s := None)"
    and retire_failed: "inv db \<Longrightarrow> retire s db = (Inl e, db') \<Longrightarrow> inv db' \<and> active db' = active db"
    and save_ok: "inv db \<Longrightarrow> accepts s k \<Longrightarrow> save s k db = (Inr u, db') \<Longrightarrow>
        inv db' \<and> active db' = (active db)(s \<mapsto> view k)"
    and save_failed: "inv db \<Longrightarrow> save s k db = (Inl e, db') \<Longrightarrow> inv db' \<and> active db' = active db"
begin

lemma rotate_then_get:
  assumes "inv db" "accepts s k" "rotate s k db = (Inr b, db1)" "get t db1 = (Inr r, db2)"
  shows "map_option view r = (if t = s then Some (view k) else active db t)"
  using rotate_ok [OF assms(1-3)] get_result [OF _ assms(4)] by simp

lemma rotate_keeps_others:
  assumes "inv db" "accepts s k" "rotate s k db = (r, db')" "t \<noteq> s"
  shows "active db' t = active db t"
  using assms rotate_ok [of db s k _ db'] rotate_failed [of db s k _ db'] by (cases r) auto

lemma rotate_inv: "inv db \<Longrightarrow> accepts s k \<Longrightarrow> inv (snd (rotate s k db))"
proof -
  assume "inv db" "accepts s k"
  obtain r db' where "rotate s k db = (r, db')" by (cases "rotate s k db")
  with \<open>inv db\<close> \<open>accepts s k\<close> show ?thesis
    using rotate_ok [of db s k _ db'] rotate_failed [of db s k _ db'] by (cases r) auto
qed

text \<open>Retiring first and saving afterwards is not atomic: when the save fails, the slot is left empty.\<close>

lemma replace_outcome:
  assumes "inv db" "accepts s k" "bindE (retire s) (\<lambda>_. save s k) db = (r, db')"
  shows "inv db' \<and> active db' \<in> (case r of Inr _ \<Rightarrow> {(active db)(s \<mapsto> view k)}
                                  | Inl _ \<Rightarrow> {active db, (active db)(s := None)})"
proof (cases "retire s db")
  case (Pair r1 db1)
  show ?thesis
  proof (cases r1)
    case (Inl e)
    with Pair assms(3) have "r = Inl e" "db' = db1" by (auto simp: bindE_def)
    with retire_failed [OF assms(1)] Pair Inl show ?thesis by simp
  next
    case (Inr u)
    with Pair assms(3) have s: "save s k db1 = (r, db')" by (simp add: bindE_def)
    have 1: "inv db1" "active db1 = (active db)(s := None)"
      using retire_ok [OF assms(1)] Pair Inr by simp_all
    show ?thesis
    proof (cases r)
      case (Inl e)
      with save_failed [OF 1(1)] s 1(2) show ?thesis by simp
    next
      case (Inr v)
      with save_ok [OF 1(1) assms(2)] s 1(2) show ?thesis by simp
    qed
  qed
qed

end

section \<open>A sample server\<close>

definition sample_env :: db_env where
  "sample_env = \<lparr>env_now = 7000, env_store_time = \<lambda>t. t - t mod 1000, env_cte_first = True,
     env_same_row = SqlFault ''row changed twice'', env_collate_le = \<lambda>a b. length a \<le> length b,
     env_error_text = \<lambda>_. ''error''\<rparr>"

definition sample_key :: "uuid \<Rightarrow> u32 \<Rightarrow> bytes \<Rightarrow> KeyPairEntity" where
  "sample_key i v ct = \<lparr>kp_id = i, kp_service_id = ''svc'', kp_algorithm = Ed25519, kp_purpose = Signing,
     kp_public_key_pem = ''pem'', kp_encrypted_private_key = \<lparr>epk_ciphertext = ct, epk_master_key_version = 1\<rparr>,
     kp_version = v, kp_status = Active, kp_created_at = 0, kp_expires_at = None\<rparr>"

definition sample_db :: kms_db where
  "sample_db = empty_db\<lparr>keys_tbl := [stored_row sample_env (sample_key 1 1 [5])]\<rparr>"

section \<open>Lemmas\<close>

lemma find_active_rows:
  "find (\<lambda>r. kr_service_id r = fst s \<and> kr_algorithm r = algorithm_debug (snd s) \<and> kr_is_active r) rows
   = active_in (slot_key s) rows"
  unfolding active_in_def key_slot_def slot_key_def by (rule arg_cong2 [where f = find]) auto

lemma active_in_iff:
  assumes "key_violation rows = None"
  shows "active_in ks rows = Some r \<longleftrightarrow> r \<in> set rows \<and> key_slot r = ks \<and> kr_is_active r"
proof
  assume "active_in ks rows = Some r"
  then show "r \<in> set rows \<and> key_slot r = ks \<and> kr_is_active r"
    unfolding active_in_def find_Some_iff by auto
next
  assume r: "r \<in> set rows \<and> key_slot r = ks \<and> kr_is_active r"
  have inj: "inj_on key_slot (set (filter kr_is_active rows))"
    using assms by (auto simp: key_violation_def distinct_map split: if_splits)
  from r have "active_in ks rows \<noteq> None"
    unfolding active_in_def by (auto simp: find_None_iff)
  then obtain q where q: "active_in ks rows = Some q" by auto
  then have "q \<in> set rows \<and> key_slot q = ks \<and> kr_is_active q"
    unfolding active_in_def find_Some_iff by auto
  with r inj have "q = r" by (auto dest: inj_onD)
  with q show "active_in ks rows = Some r" by simp
qed

lemma active_in_None_iff:
  "active_in ks rows = None \<longleftrightarrow> (\<forall>r\<in>set rows. key_slot r = ks \<longrightarrow> \<not> kr_is_active r)"
  unfolding active_in_def by (auto simp: find_None_iff)

lemma active_in_cong:
  assumes "key_violation rows = None" "key_violation rows' = None"
    and "\<And>r. kr_is_active r \<Longrightarrow> key_slot r = ks \<Longrightarrow> r \<in> set rows \<longleftrightarrow> r \<in> set rows'"
  shows "active_in ks rows = active_in ks rows'"
proof (cases "active_in ks rows")
  case None
  then have "active_in ks rows' = None" using assms(3) by (fastforce simp: active_in_None_iff)
  with None show ?thesis by simp
next
  case (Some r)
  then have "r \<in> set rows \<and> key_slot r = ks \<and> kr_is_active r" by (simp only: active_in_iff [OF assms(1)])
  then have "active_in ks rows' = Some r" using assms(3) [of r] by (simp add: active_in_iff [OF assms(2)])
  with Some show ?thesis by simp
qed

lemma set_upsert:
  "r \<in> set (upsert_key row rows) \<longleftrightarrow>
     (r \<in> set rows \<and> \<not> same_version row r)
     \<or> (if list_ex (same_version row) rows then \<exists>q\<in>set rows. same_version row q \<and> r = row\<lparr>kr_id := kr_id q\<rparr>
        else r = row)"
proof (cases "list_ex (same_version row) rows")
  case True
  then have "upsert_key row rows = map (\<lambda>q. if same_version row q then row\<lparr>kr_id := kr_id q\<rparr> else q) rows"
    by (simp add: upsert_key_def)
  then have "r \<in> set (upsert_key row rows) \<longleftrightarrow>
      (\<exists>q\<in>set rows. r = (if same_version row q then row\<lparr>kr_id := kr_id q\<rparr> else q))"
    by (simp only: set_map image_iff)
  also have "\<dots> \<longleftrightarrow> (\<exists>q\<in>set rows. \<not> same_version row q \<and> r = q)
      \<or> (\<exists>q\<in>set rows. same_version row q \<and> r = row\<lparr>kr_id := kr_id q\<rparr>)"
    by (smt (verit))
  finally show ?thesis using True by (simp only: if_True) blast
next
  case False
  then have "\<And>q. q \<in> set rows \<Longrightarrow> \<not> same_version row q" by (simp add: list_ex_iff)
  moreover from False have "upsert_key row rows = rows @ [row]" by (simp add: upsert_key_def)
  ultimately show ?thesis using False by (simp only: if_False set_append) auto
qed

lemma slot_key_inject [simp]: "slot_key s = slot_key t \<longleftrightarrow> s = t"
  by (cases s; cases t) (simp add: slot_key_def)

lemma key_slot_updates [simp]:
  "key_slot (r\<lparr>kr_id := i\<rparr>) = key_slot r" "key_slot (r\<lparr>kr_status := x\<rparr>) = key_slot r"
  "key_slot (r\<lparr>kr_is_active := b\<rparr>) = key_slot r" "key_slot (r\<lparr>kr_created_at := t\<rparr>) = key_slot r"
  "key_slot (r\<lparr>kr_encrypted_key_data := d\<rparr>) = key_slot r"
  by (simp_all add: key_slot_def)

lemma exec_Inl: "exec stmt db = (Inl e, db') \<Longrightarrow> db' = db\<lparr>db_faults := tl (db_faults db)\<rparr>"
  by (rule exec_cases [of stmt db]) (auto split: sum.splits prod.splits)

lemma map_errE_Inr_iff: "map_errE g m s = (Inr x, t) \<longleftrightarrow> m s = (Inr x, t)"
  by (cases "m s") (auto simp: map_errE_def)

lemma map_errE_Inl_iff: "map_errE g m s = (Inl e, t) \<longleftrightarrow> (\<exists>e0. m s = (Inl e0, t) \<and> e = g e0)"
  by (cases "m s"; cases "fst (m s)") (auto simp: map_errE_def)

lemma repo_ok_iff: "repo_ok db \<longleftrightarrow> key_violation (keys_tbl db) = None \<and> (\<forall>r\<in>set (keys_tbl db). row_ok r)"
  by (auto simp: repo_ok_def keys_ok_def row_ok_def)

lemma repo_ok_faults [simp]: "repo_ok (db\<lparr>db_faults := fs\<rparr>) = repo_ok db"
  by (simp add: repo_ok_iff)

lemma active_key_faults [simp]: "active_key (db\<lparr>db_faults := fs\<rparr>) = active_key db"
  by (rule ext) (simp add: active_key_def)

lemma readable_iff:
  "is_ok (map_key_row r) \<longleftrightarrow>
     kr_algorithm r \<in> {''Ed25519'', ''X25519'', ''AES256GCM'', ''HmacSha256''}
     \<and> kr_purpose r \<in> {''Signing'', ''Encryption'', ''Authentication''}
     \<and> kr_status r \<in> {''Active'', ''Revoked'', ''Compromised'', ''Deprecated'', ''Expired''}"
  by (simp add: map_key_row_def algorithm_of_row_def purpose_of_row_def status_of_row_def)

lemma row_ok_updates:
  "row_ok r \<Longrightarrow> row_ok (r\<lparr>kr_id := i\<rparr>)"
  "row_ok r \<Longrightarrow> st \<in> {''Revoked'', ''Compromised'', ''Deprecated'', ''Expired''} \<Longrightarrow>
     row_ok (r\<lparr>kr_status := st, kr_is_active := False\<rparr>)"
  "row_ok r \<Longrightarrow> st \<in> {''Revoked'', ''Compromised'', ''Deprecated'', ''Expired''} \<Longrightarrow>
     row_ok (r\<lparr>kr_status := st, kr_is_active := False, kr_created_at := t\<rparr>)"
  "row_ok r \<Longrightarrow> row_ok (r\<lparr>kr_encrypted_key_data := d\<rparr>)"
  by (auto simp: row_ok_def readable_iff)

lemma algorithm_of_debug: "a \<noteq> EcdsaP256 \<Longrightarrow> algorithm_of_row (algorithm_debug a) = Inr a"
  by (cases a) (simp_all add: algorithm_of_row_def)

lemma purpose_of_debug: "purpose_of_row (purpose_debug p) = Inr p"
  by (cases p) (simp_all add: purpose_of_row_def)

lemma map_stored_row:
  assumes "storable s k"
  shows "\<exists>q. map_key_row (stored_row env k\<lparr>kr_id := i\<rparr>) = Inr q \<and> material q = material k
      \<and> kp_status q = Active \<and> (kp_service_id q, kp_algorithm q) = s"
  using assms by (auto simp: storable_def stored_row_def map_key_row_def algorithm_of_debug purpose_of_debug
      status_of_row_def material_def)

lemma stored_row_facts:
  assumes "storable s k"
  shows "row_ok (stored_row env k)" "key_slot (stored_row env k) = slot_key s" "kr_is_active (stored_row env k)"
  using assms map_stored_row [OF assms, where env = env and i = "kp_id k"]
  by (auto simp: storable_def row_ok_def is_ok_iff key_slot_def slot_key_def stored_row_def)

lemma stored_row_id: "stored_row env k\<lparr>kr_id := kp_id k\<rparr> = stored_row env k"
  by (simp add: stored_row_def)

lemma retire_member:
  "r \<in> set (retire_rows service algo f rows) \<longleftrightarrow>
     (\<exists>q\<in>set rows. r = (if key_slot q = (service, algo) \<and> kr_is_active q then f q else q))"
  unfolding retire_rows_def set_map image_iff key_slot_def by simp

lemma same_version_slot: "same_version row r \<Longrightarrow> key_slot r = key_slot row"
  by (simp add: same_version_def)

text \<open>How a change of the rows of one slot changes the map of active keys.\<close>

lemma active_key_set:
  assumes "repo_ok db" "key_violation rows = None"
    and "\<And>r. kr_is_active r \<Longrightarrow> key_slot r \<noteq> slot_key s \<Longrightarrow> r \<in> set rows \<longleftrightarrow> r \<in> set (keys_tbl db)"
  shows "active_key (db\<lparr>keys_tbl := rows\<rparr>) = (active_key db)(s := active_key (db\<lparr>keys_tbl := rows\<rparr>) s)"
proof
  fix t
  show "active_key (db\<lparr>keys_tbl := rows\<rparr>) t
      = ((active_key db)(s := active_key (db\<lparr>keys_tbl := rows\<rparr>) s)) t"
  proof (cases "t = s")
    case False
    then have "active_in (slot_key t) rows = active_in (slot_key t) (keys_tbl db)"
      using assms by (intro active_in_cong) (auto simp: repo_ok_iff)
    with False show ?thesis by (simp add: active_key_def)
  qed simp
qed

lemma active_key_stored:
  assumes "key_violation (keys_tbl db) = None" "storable s k" "stored_row env k\<lparr>kr_id := i\<rparr> \<in> set (keys_tbl db)"
  shows "active_key db s = Some (material k)"
proof -
  have "active_in (slot_key s) (keys_tbl db) = Some (stored_row env k\<lparr>kr_id := i\<rparr>)"
    using assms stored_row_facts [OF assms(2), of env] by (simp add: active_in_iff)
  with map_stored_row [OF assms(2), where env = env and i = i] show ?thesis by (auto simp: active_key_def)
qed

lemma upsert_stored:
  assumes "storable s k"
  shows "\<exists>i. stored_row env k\<lparr>kr_id := i\<rparr> \<in> set (upsert_key (stored_row env k) rows)"
    "\<forall>r\<in>set rows. row_ok r \<Longrightarrow> r \<in> set (upsert_key (stored_row env k) rows) \<Longrightarrow> row_ok r"
    "key_slot r \<noteq> slot_key s \<Longrightarrow> r \<in> set (upsert_key (stored_row env k) rows) \<longleftrightarrow> r \<in> set rows"
proof -
  note facts = stored_row_facts [OF assms, of env]
  show "\<exists>i. stored_row env k\<lparr>kr_id := i\<rparr> \<in> set (upsert_key (stored_row env k) rows)"
  proof (cases "list_ex (same_version (stored_row env k)) rows")
    case True
    then show ?thesis by (auto simp: set_upsert list_ex_iff)
  next
    case False
    then have "stored_row env k\<lparr>kr_id := kp_id k\<rparr> \<in> set (upsert_key (stored_row env k) rows)"
      by (simp add: set_upsert stored_row_id)
    then show ?thesis ..
  qed
  show "row_ok r" if "\<forall>r\<in>set rows. row_ok r" "r \<in> set (upsert_key (stored_row env k) rows)"
    using that facts(1) by (auto simp: set_upsert row_ok_updates(1) split: if_splits)
  show "r \<in> set (upsert_key (stored_row env k) rows) \<longleftrightarrow> r \<in> set rows" if "key_slot r \<noteq> slot_key s"
    using that facts(2) same_version_slot [of "stored_row env k" r]
    by (auto simp: set_upsert split: if_splits)
qed

text \<open>Storing an entity: the statement, and what it does to the map of active keys.\<close>

lemma pg_save_key_active:
  assumes "kp_status k = Active"
  shows "pg_save_key env dbg k = map_errE (db_error env)
    (exec (\<lambda>db. set_keys (upsert_key (stored_row env k) (keys_tbl db)) db))"
proof -
  have "replace_sub ''Deprecated { valid_until: ... }'' ''Deprecated'' ''Active'' = ''Active''"
    by (simp add: starts_with.simps)
  with assms show ?thesis by (simp add: pg_save_key_def save_key_def stored_row_def)
qed

lemma save_stored:
  assumes "repo_ok db" "storable s k" "pg_save_key env dbg k db = (Inr u, db')"
  shows "repo_ok db' \<and> active_key db' = (active_key db)(s \<mapsto> material k)"
proof -
  let ?rows = "upsert_key (stored_row env k) (keys_tbl db)"
  from assms(2,3) have v: "key_violation ?rows = None"
    and db': "db' = db\<lparr>db_faults := tl (db_faults db), keys_tbl := ?rows\<rparr>"
    by (auto simp: pg_save_key_active storable_def map_errE_Inr_iff set_keys_Inr_iff dest!: exec_Inr)
  have eq: "db' = (db\<lparr>keys_tbl := ?rows\<rparr>)\<lparr>db_faults := tl (db_faults db)\<rparr>" using db' by simp
  note up = upsert_stored [OF assms(2), where env = env]
  have ok: "repo_ok (db\<lparr>keys_tbl := ?rows\<rparr>)"
    using assms(1) v up(2) [where rows = "keys_tbl db"] by (auto simp: repo_ok_iff)
  obtain i where "stored_row env k\<lparr>kr_id := i\<rparr> \<in> set ?rows" using up(1) [where rows = "keys_tbl db"] ..
  then have "active_key (db\<lparr>keys_tbl := ?rows\<rparr>) s = Some (material k)"
    using active_key_stored [of "db\<lparr>keys_tbl := ?rows\<rparr>", OF _ assms(2)] v by simp
  with active_key_set [OF assms(1) v, of s] up(3) ok show ?thesis unfolding eq by simp
qed

lemma deactivate_stored:
  assumes "repo_ok db" "pg_deactivate_keys_for_service env (fst s) (snd s) db = (Inr u, db')"
  shows "repo_ok db' \<and> active_key db' = (active_key db)(s := None)"
proof -
  let ?f = "\<lambda>r. r\<lparr>kr_status := ''Revoked'', kr_is_active := False\<rparr>"
  let ?rows = "retire_rows (fst s) (algorithm_debug (snd s)) ?f (keys_tbl db)"
  from assms(2) have v: "key_violation ?rows = None"
    and db': "db' = db\<lparr>db_faults := tl (db_faults db), keys_tbl := ?rows\<rparr>"
    by (auto simp: pg_deactivate_keys_for_service_def deactivate_key_rows_def map_errE_Inr_iff set_keys_Inr_iff
        dest!: exec_Inr)
  have eq: "db' = (db\<lparr>keys_tbl := ?rows\<rparr>)\<lparr>db_faults := tl (db_faults db)\<rparr>" using db' by simp
  have mem: "r \<in> set ?rows \<longleftrightarrow> (\<exists>q\<in>set (keys_tbl db). r = (if key_slot q = slot_key s \<and> kr_is_active q then ?f q else q))"
    for r by (simp add: retire_member slot_key_def)
  have ok: "repo_ok (db\<lparr>keys_tbl := ?rows\<rparr>)"
    using assms(1) v by (auto simp: repo_ok_iff mem row_ok_updates(2))
  have "\<not> kr_is_active r" if r: "r \<in> set ?rows" "key_slot r = slot_key s" for r
  proof -
    obtain q where "r = (if key_slot q = slot_key s \<and> kr_is_active q then ?f q else q)" using r(1) mem by blast
    with r(2) show ?thesis by (cases "key_slot q = slot_key s \<and> kr_is_active q") auto
  qed
  then have "active_in (slot_key s) ?rows = None" by (simp add: active_in_None_iff)
  then have none: "active_key (db\<lparr>keys_tbl := ?rows\<rparr>) s = None" by (simp add: active_key_def)
  have "r \<in> set ?rows \<longleftrightarrow> r \<in> set (keys_tbl db)" if "kr_is_active r" "key_slot r \<noteq> slot_key s" for r
    using that by (auto simp: mem split: if_splits)
  with active_key_set [OF assms(1) v, of s] ok none show ?thesis unfolding eq by simp
qed

lemma retire_rows_map:
  "retire_rows (fst s) (algorithm_debug (snd s))
     (\<lambda>r. r\<lparr>kr_status := old, kr_is_active := False, kr_created_at := env_now env\<rparr>) rows = map (retired env s old) rows"
  by (simp add: retire_rows_def retired_def key_slot_def slot_key_def)

lemma same_version_retired [simp]: "same_version row (retired env s old q) = same_version row q"
  by (simp add: same_version_def retired_def key_slot_def)

lemma upsert_cases:
  assumes "r \<in> set (upsert_key row rows)"
  obtains (old) "r \<in> set rows" "\<not> same_version row r" | (new) i where "r = row\<lparr>kr_id := i\<rparr>"
proof (cases "list_ex (same_version row) rows")
  case True
  with assms have "(r \<in> set rows \<and> \<not> same_version row r)
      \<or> (\<exists>q\<in>set rows. same_version row q \<and> r = row\<lparr>kr_id := kr_id q\<rparr>)" by (simp only: set_upsert if_True)
  with that show ?thesis by blast
next
  case False
  with assms have "(r \<in> set rows \<and> \<not> same_version row r) \<or> r = row\<lparr>kr_id := kr_id row\<rparr>"
    by (simp add: set_upsert)
  with that show ?thesis by blast
qed

lemma upsert_new: "\<exists>i. row\<lparr>kr_id := i\<rparr> \<in> set (upsert_key row rows)"
proof (cases "list_ex (same_version row) rows")
  case True
  then obtain q where "q \<in> set rows" "same_version row q" by (auto simp: list_ex_iff)
  with True have "row\<lparr>kr_id := kr_id q\<rparr> \<in> set (upsert_key row rows)" unfolding set_upsert if_P [OF True] by blast
  then show ?thesis ..
next
  case False
  then have "row\<lparr>kr_id := kr_id row\<rparr> \<in> set (upsert_key row rows)" by (simp add: set_upsert)
  then show ?thesis ..
qed

lemma upsert_old: "q \<in> set rows \<Longrightarrow> \<not> same_version row q \<Longrightarrow> q \<in> set (upsert_key row rows)"
  by (simp add: set_upsert)

lemma same_version_self: "same_version row (row\<lparr>kr_id := i\<rparr>)"
  by (simp add: same_version_def)

lemma rotated_new: "\<exists>i. row\<lparr>kr_id := i\<rparr> \<in> set (rotated env s old row rows)"
proof (cases "env_cte_first env")
  case False
  obtain i where "row\<lparr>kr_id := i\<rparr> \<in> set (upsert_key row rows)" using upsert_new by blast
  then have "(if same_version row (row\<lparr>kr_id := i\<rparr>) then row\<lparr>kr_id := i\<rparr> else retired env s old (row\<lparr>kr_id := i\<rparr>))
      \<in> set (rotated env s old row rows)"
    unfolding rotated_def if_not_P [OF False] set_map by (rule imageI)
  then show ?thesis by (auto simp: same_version_self)
qed (simp add: rotated_def upsert_new)

lemma rotated_old:
  assumes "q \<in> set rows" "\<not> same_version row q"
  shows "retired env s old q \<in> set (rotated env s old row rows)"
proof (cases "env_cte_first env")
  case True
  have "retired env s old q \<in> set (upsert_key row (map (retired env s old) rows))"
    using assms by (intro upsert_old) simp_all
  with True show ?thesis by (simp add: rotated_def)
next
  case False
  have "(if same_version row q then q else retired env s old q) \<in> set (rotated env s old row rows)"
    unfolding rotated_def if_not_P [OF False] set_map by (rule imageI) (rule upsert_old [OF assms])
  with assms(2) show ?thesis by simp
qed

lemma rotated_cases:
  assumes "r \<in> set (rotated env s old row rows)"
  obtains (old) q where "q \<in> set rows" "\<not> same_version row q" "r = retired env s old q"
    | (new) i where "r = row\<lparr>kr_id := i\<rparr>"
proof (cases "env_cte_first env")
  case True
  with assms have "r \<in> set (upsert_key row (map (retired env s old) rows))" by (simp add: rotated_def)
  then show ?thesis
  proof (cases rule: upsert_cases)
    case old
    then obtain q where "q \<in> set rows" "r = retired env s old q" by auto
    with old(2) that(1) show ?thesis by simp
  qed (use that(2) in simp)
next
  case False
  with assms obtain q where q: "q \<in> set (upsert_key row rows)"
    "r = (if same_version row q then q else retired env s old q)" by (auto simp: rotated_def)
  from q(1) show ?thesis
  proof (cases rule: upsert_cases)
    case old
    with q(2) that(1) show ?thesis by simp
  next
    case (new i)
    with q(2) have "r = row\<lparr>kr_id := i\<rparr>" by (simp add: same_version_self)
    with that(2) show ?thesis by simp
  qed
qed

lemma rotate_Inr:
  assumes "storable s k" "pg_rotate_active_key env (fst s) (snd s) k du db = (Inr b, db')"
  defines "rows \<equiv> rotated env s (old_status du) (stored_row env k) (keys_tbl db)"
  shows "b" "key_violation rows = None" "db' = (db\<lparr>keys_tbl := rows\<rparr>)\<lparr>db_faults := tl (db_faults db)\<rparr>"
    "q \<in> set (keys_tbl db) \<Longrightarrow> kr_is_active q \<Longrightarrow> \<not> same_version (stored_row env k) q"
proof -
  let ?row = "stored_row env k" and ?db = "db\<lparr>db_faults := tl (db_faults db)\<rparr>"
  have row: "\<lparr>kr_id = kp_id k, kr_service_id = fst s, kr_algorithm = algorithm_debug (snd s), kr_version = kp_version k,
      kr_encrypted_key_data = epk_ciphertext (kp_encrypted_private_key k), kr_public_key_pem = kp_public_key_pem k,
      kr_purpose = purpose_debug (kp_purpose k), kr_status = ''Active'', kr_is_active = True,
      kr_created_at = env_now env\<rparr> = ?row"
    using assms(1) by (simp add: storable_def stored_row_def)
  from assms(2) have run: "(if list_ex (\<lambda>r. kr_is_active r \<and> same_version ?row r) (keys_tbl db) then Inl (env_same_row env)
      else bindR (if env_cte_first env then set_keys (upsert_key ?row (map (retired env s (old_status du)) (keys_tbl db))) ?db
             else bindR (set_keys (upsert_key ?row (keys_tbl db)) ?db) (\<lambda>(_, db1).
               set_keys (map (\<lambda>r. if same_version ?row r then r else retired env s (old_status du) r) (keys_tbl db1)) db1))
        (\<lambda>(_, db2). Inr (True, db2))) = Inr (b, db')"
    unfolding pg_rotate_active_key_def Let_def rotate_row_def row old_status_def [symmetric] retire_rows_map
      map_errE_Inr_iff
    by - (drule exec_Inr, simp split del: if_split cong: if_cong)
  from run show "b" "key_violation rows = None" "db' = (db\<lparr>keys_tbl := rows\<rparr>)\<lparr>db_faults := tl (db_faults db)\<rparr>"
    unfolding rows_def rotated_def
    by (auto simp: bindR_eq_Inr_iff set_keys_Inr_iff split: if_splits)
  from run show "\<not> same_version ?row q" if "q \<in> set (keys_tbl db)" "kr_is_active q"
    using that by (auto simp: list_ex_iff split: if_splits)
qed

lemma retired_other: "key_slot q \<noteq> slot_key s \<Longrightarrow> retired env s old q = q"
  by (simp add: retired_def)

lemma retired_inactive: "key_slot q = slot_key s \<Longrightarrow> \<not> kr_is_active (retired env s old q)"
  by (simp add: retired_def)

lemma key_slot_retired [simp]: "key_slot (retired env s old q) = key_slot q"
  by (simp add: retired_def)

lemma row_ok_retired: "row_ok q \<Longrightarrow> row_ok (retired env s (old_status du) q)"
  by (simp add: retired_def row_ok_updates old_status_def)

lemma rotate_stored:
  assumes "repo_ok db" "storable s k" "pg_rotate_active_key env (fst s) (snd s) k du db = (Inr b, db')"
  shows "b \<and> repo_ok db' \<and> active_key db' = (active_key db)(s \<mapsto> material k)"
proof -
  let ?row = "stored_row env k" and ?rows = "rotated env s (old_status du) (stored_row env k) (keys_tbl db)"
  note run = rotate_Inr [OF assms(2,3)] and facts = stored_row_facts [OF assms(2), of env]
  have "row_ok r" if "r \<in> set ?rows" for r
    using that
  proof (cases rule: rotated_cases)
    case (old q)
    with assms(1) show ?thesis by (simp add: repo_ok_iff row_ok_retired)
  next
    case (new i)
    with facts(1) show ?thesis by (simp add: row_ok_updates(1))
  qed
  then have ok: "repo_ok (db\<lparr>keys_tbl := ?rows\<rparr>)" using run(2) by (simp add: repo_ok_iff)
  have other: "r \<in> set ?rows \<longleftrightarrow> r \<in> set (keys_tbl db)" if r: "key_slot r \<noteq> slot_key s" for r
  proof
    assume "r \<in> set ?rows"
    then show "r \<in> set (keys_tbl db)"
      by (cases rule: rotated_cases) (use r facts(2) in \<open>auto simp: retired_other\<close>)
  next
    assume "r \<in> set (keys_tbl db)"
    moreover have "\<not> same_version ?row r" using r facts(2) same_version_slot by metis
    ultimately show "r \<in> set ?rows"
      using rotated_old [of r "keys_tbl db" ?row env s "old_status du"] r by (simp add: retired_other)
  qed
  obtain i where "?row\<lparr>kr_id := i\<rparr> \<in> set ?rows" using rotated_new by blast
  then have "active_key (db\<lparr>keys_tbl := ?rows\<rparr>) s = Some (material k)"
    using active_key_stored [of "db\<lparr>keys_tbl := ?rows\<rparr>", OF _ assms(2)] run(2) by simp
  with active_key_set [OF assms(1) run(2), of s] other ok run(1) show ?thesis unfolding run(3) by simp
qed

lemma failed_statement:
  assumes "map_errE g (exec stmt) db = (Inl e, db')" "repo_ok db"
  shows "repo_ok db' \<and> active_key db' = active_key db"
  using assms by (auto simp: map_errE_Inl_iff dest!: exec_Inl)

lemma get_active_key_cases:
  assumes "pg_get_active_key env (fst s) (snd s) db = (r, db')"
  shows "db' = db\<lparr>db_faults := tl (db_faults db)\<rparr>
    \<and> (case r of Inr k \<Rightarrow> map_optional_row (active_in (slot_key s) (keys_tbl db)) = Inr k | Inl _ \<Rightarrow> True)"
proof -
  let ?q = "query (\<lambda>db. active_in (slot_key s) (keys_tbl db))"
  have q: "get_active_key_row (fst s) (algorithm_debug (snd s)) = ?q"
    by (simp add: get_active_key_row_def find_active_rows)
  show ?thesis
  proof (cases "?q db")
    case (Pair x db1)
    then have db1: "db1 = db\<lparr>db_faults := tl (db_faults db)\<rparr>" using query_state [of _ db] by (metis snd_conv)
    show ?thesis
    proof (cases x)
      case (Inl e)
      with assms Pair db1 show ?thesis by (auto simp: pg_get_active_key_def q bindE_def map_errE_def)
    next
      case (Inr row)
      with Pair have "row = active_in (slot_key s) (keys_tbl db)" by (auto dest: query_Inr)
      with Inr assms Pair db1 show ?thesis
        by (auto simp: pg_get_active_key_def q bindE_def map_errE_def split: sum.splits)
    qed
  qed
qed

lemma map_optional_row_view:
  assumes "map_optional_row (active_in (slot_key s) (keys_tbl db)) = Inr k"
  shows "map_option material k = active_key db s"
  using assms by (cases "active_in (slot_key s) (keys_tbl db)") (auto simp: active_key_def bindR_eq_Inr_iff)

interpretation repo: key_store repo_ok active_key "\<lambda>s. pg_get_active_key env (fst s) (snd s)"
  "\<lambda>s k. pg_rotate_active_key env (fst s) (snd s) k du" "\<lambda>s. pg_deactivate_keys_for_service env (fst s) (snd s)"
  "\<lambda>s k. pg_save_key env dbg k" material storable for env dbg du
proof (unfold_locales, goal_cases)
  case (1 db s found db')
  then show ?case using get_active_key_cases [of env s db] map_optional_row_view [of s db] by fastforce
next
  case (2 db s r db')
  then show ?case using get_active_key_cases [of env s db r db'] by simp
next
  case (3 db s k b db')
  then show ?case by (rule rotate_stored)
next
  case (4 db s k e db')
  then show ?case by (simp add: pg_rotate_active_key_def rotate_row_def failed_statement)
next
  case (5 db s u db')
  then show ?case by (rule deactivate_stored)
next
  case (6 db s e db')
  then show ?case by (simp add: pg_deactivate_keys_for_service_def deactivate_key_rows_def failed_statement)
next
  case (7 db s k u db')
  then show ?case by (rule save_stored)
next
  case (8 db s k e db')
  then show ?case by (simp add: pg_save_key_def save_key_def Let_def failed_statement)
qed

text \<open>The other methods keep the invariant too.\<close>

lemma repo_ok_statement:
  assumes "\<And>db. repo_ok db \<Longrightarrow> \<forall>r\<in>set (f (keys_tbl db)). row_ok r"
  shows "preserves repo_ok (exec (\<lambda>db. set_keys (f (keys_tbl db)) db))"
  using assms by (intro preserves_exec) (auto simp: set_keys_Inr_iff repo_ok_iff)

lemma preserves_transaction:
  assumes "preserves I body" and faults: "\<And>db fs. I (db\<lparr>db_faults := fs\<rparr>) = I db"
  shows "preserves I (transaction g h body)"
proof -
  have "I (snd (transaction g h body db))" if db: "I db" for db
  proof (cases "query id db")
    case (Pair x db0)
    then have db0: "db0 = db\<lparr>db_faults := tl (db_faults db)\<rparr>" using query_state [of id db] by simp
    show ?thesis
    proof (cases x)
      case (Inl e)
      with Pair db0 db show ?thesis by (simp add: transaction_def bindE_def map_errE_def faults)
    next
      case (Inr snapshot)
      with Pair db0 have snap: "snapshot = db0" by (auto dest: query_Inr)
      obtain y db1 where body: "body db0 = (y, db1)" by (cases "body db0")
      with assms(1) db db0 have db1: "I db1" using preservesD [of I body db0] by (simp add: faults)
      have rb: "I (rollback_to snapshot d)" for d using db db0 by (simp add: rollback_to_def snap faults)
      obtain z db2 where q: "query id db1 = (z, db2)" by (cases "query id db1")
      then have "db2 = db1\<lparr>db_faults := tl (db_faults db1)\<rparr>" using query_state [of id db1] by simp
      with db1 have db2: "I db2" by (simp add: faults)
      from Pair Inr body q rb db2 show ?thesis
        by (simp add: transaction_def bindE_def map_errE_def split: sum.split)
    qed
  qed
  then show ?thesis by (simp add: preserves_def)
qed

lemma repo_ok_transaction [preserve]: "preserves repo_ok body \<Longrightarrow> preserves repo_ok (transaction g h body)"
  by (erule preserves_transaction) simp

lemma repo_ok_update_encrypted [preserve]: "preserves repo_ok (update_encrypted_key_row key_id encrypted)"
  unfolding update_encrypted_key_row_def
  by (rule repo_ok_statement) (auto simp: repo_ok_iff row_ok_updates)

lemma repo_ok_query: "repo_ok db \<Longrightarrow> query f db = (r, db') \<Longrightarrow> repo_ok db'"
  using query_state [of f db] by simp

lemma preserves_update_loop:
  assumes "\<And>key_id encrypted. (key_id, encrypted) \<in> set updates \<Longrightarrow> preserves I (update_encrypted_key_row key_id encrypted)"
    and faults: "\<And>db fs. I (db\<lparr>db_faults := fs\<rparr>) = I db"
  shows "preserves I (update_rows_loop updates n)"
  using assms(1)
proof (induction updates arbitrary: n)
  case (Cons u updates)
  obtain key_id encrypted where u: "u = (key_id, encrypted)" by (cases u)
  have "I (snd (update_rows_loop (u # updates) n db))" if db: "I db" for db
  proof -
    obtain x db1 where run: "update_encrypted_key_row key_id encrypted db = (x, db1)"
      by (cases "update_encrypted_key_row key_id encrypted db")
    with db have db1: "I db1" using preservesD [OF Cons.prems, of key_id encrypted db] by (simp add: u)
    obtain y db2 where q: "query id db1 = (y, db2)" by (cases "query id db1")
    with db1 have "I db2" using query_state [of id db1] by (simp add: faults)
    with run q preservesD [OF Cons.IH, of db1] Cons.prems db1 show ?thesis by (simp add: u split: sum.split)
  qed
  then show ?case by (simp add: preserves_def)
qed (simp add: preserves_returnE)

lemma repo_ok_update_loop [preserve]: "preserves repo_ok (update_rows_loop updates n)"
  by (rule preserves_update_loop) (simp_all add: repo_ok_update_encrypted)

lemma row_ok_status: "row_ok r \<Longrightarrow> row_ok (r\<lparr>kr_status := status_column st, kr_is_active := (st = Active)\<rparr>)"
  by (cases st) (simp_all add: row_ok_def readable_iff)

lemma repo_ok_deactivate [preserve]: "preserves repo_ok (pg_deactivate_keys_for_service env service algo)"
  unfolding pg_deactivate_keys_for_service_def deactivate_key_rows_def
  by (rule preserves_map_errE, rule repo_ok_statement) (auto simp: repo_ok_iff retire_rows_def row_ok_updates)

lemma repo_ok_status [preserve]: "preserves repo_ok (pg_update_key_status env key_id status until)"
  unfolding pg_update_key_status_def update_key_row_status_def
  by (rule preserves_map_errE, rule repo_ok_statement) (auto simp: repo_ok_iff row_ok_status)

lemma repo_ok_cas [preserve]: "preserves repo_ok (pg_compare_and_set env key_id until)"
  unfolding pg_compare_and_set_def compare_and_set_row_def
  by (rule preserves_map_errE, rule preserves_exec)
     (auto simp: bindR_eq_Inr_iff set_keys_Inr_iff repo_ok_iff row_ok_updates)

lemma repo_ok_encrypted [preserve]: "preserves repo_ok (pg_update_encrypted_key env key_id encrypted)"
  unfolding pg_update_encrypted_key_def by (rule preserves_map_errE, rule repo_ok_update_encrypted)

lemma repo_ok_batch [preserve]: "preserves repo_ok (pg_update_encrypted_keys_batch env updates)"
  unfolding pg_update_encrypted_keys_batch_def update_encrypted_key_rows_def
  by (rule preserves_map_errE, rule repo_ok_transaction, rule repo_ok_update_loop)

lemmas repo_ok_methods = repo_ok_deactivate repo_ok_status repo_ok_cas repo_ok_encrypted repo_ok_batch

lemma repo_ok_save: "storable s k \<Longrightarrow> repo_ok db \<Longrightarrow> repo_ok (snd (pg_save_key env dbg k db))"
proof -
  assume a: "storable s k" "repo_ok db"
  obtain r db' where "pg_save_key env dbg k db = (r, db')" by (cases "pg_save_key env dbg k db")
  with a show ?thesis
    using repo.save_ok [of db s k env dbg _ db'] repo.save_failed [of db env dbg k _ db'] by (cases r) auto
qed

interpretation repo_runs: invariant_system "\<lambda>db. db = empty_db" "repo_step dbg" repo_ok for dbg
proof (unfold_locales, goal_cases)
  case (1 db)
  then show ?case by (simp add: repo_ok_iff empty_db_def key_violation_def)
next
  case (2 db db')
  from 2(2,1) show ?case
    by cases (simp_all add: repo_ok_save repo.rotate_inv repo_ok_methods [THEN preservesD])
qed

text \<open>The lookup behind public keys.\<close>

lemma map_key_row_status: "map_key_row r = Inr k \<Longrightarrow> kr_status r = ''Active'' \<Longrightarrow> kp_status k = Active"
  by (auto simp: map_key_row_def bindR_eq_Inr_iff status_of_row_def)

lemma set_insort_by [simp]: "set (insort_by le x xs) = insert x (set xs)"
  by (induction xs) auto

lemma set_order_by [simp]: "set (order_by le xs) = set xs"
  unfolding order_by_def by (induction xs) auto

lemma first_valid_row_find:
  assumes "\<forall>r\<in>set rows. row_ok r \<and> kr_is_active r"
  shows "first_valid_row service_id algo now rows
    = map_optional_row (find (\<lambda>r. key_slot r = slot_key (service_id, algo)) rows)"
  using assms
proof (induction rows)
  case (Cons r rows)
  then obtain k where k: "map_key_row r = Inr k" and st: "kr_status r = ''Active''"
    by (auto simp: row_ok_def is_ok_iff)
  then have "kp_status k = Active" "kp_service_id k = kr_service_id r" "algorithm_debug (kp_algorithm k) = kr_algorithm r"
    by (auto simp: map_key_row_def bindR_eq_Inr_iff status_of_row_def algorithm_of_row_def split: if_splits)
  then have "kp_service_id k = service_id \<and> kp_algorithm k = algo \<and> valid_after now (kp_status k)
      \<longleftrightarrow> key_slot r = slot_key (service_id, algo)"
    by (metis algorithm_debug_inject fst_conv key_slot_def prod.inject slot_key_def snd_conv valid_after.simps(1))
  with Cons k show ?case by simp
qed simp

lemma find_active_sorted:
  assumes "key_violation rows = None"
  shows "find (\<lambda>r. key_slot r = ks) (order_by le (filter kr_is_active rows)) = active_in ks rows"
proof (cases "active_in ks rows")
  case None
  then have "find (\<lambda>r. key_slot r = ks) (order_by le (filter kr_is_active rows)) = None"
    by (auto simp: active_in_None_iff find_None_iff)
  with None show ?thesis by simp
next
  case (Some r)
  then have r: "r \<in> set rows \<and> key_slot r = ks \<and> kr_is_active r" by (simp only: active_in_iff [OF assms])
  then have "find (\<lambda>r. key_slot r = ks) (order_by le (filter kr_is_active rows)) \<noteq> None"
    by (auto simp: find_None_iff)
  then obtain q where q: "find (\<lambda>r. key_slot r = ks) (order_by le (filter kr_is_active rows)) = Some q" by auto
  then have "q \<in> set (order_by le (filter kr_is_active rows)) \<and> key_slot q = ks"
    unfolding find_Some_iff by (metis nth_mem)
  then have "active_in ks rows = Some q" by (simp add: active_in_iff [OF assms])
  with q Some show ?thesis by simp
qed

lemma violation_second_active:
  assumes "key_violation rows = None" "active_in (key_slot row) rows = Some q" "kr_is_active row"
    and "kr_id row \<notin> kr_id ` set rows" "\<not> list_ex (same_version row) rows"
  shows "key_violation (rows @ [row]) = Some ''uniq_active_key_per_service_algorithm''"
proof -
  have q: "q \<in> set rows" "key_slot q = key_slot row" "kr_is_active q"
    using assms(2) by (simp_all add: active_in_iff [OF assms(1)])
  have "distinct (map kr_id (rows @ [row]))"
    using assms(1,4) by (simp add: key_violation_def split: if_splits)
  moreover have "distinct (map (\<lambda>r. (key_slot r, kr_version r)) (rows @ [row]))"
    using assms(1,5) by (auto simp: key_violation_def list_ex_iff same_version_def split: if_splits)
  moreover have "key_slot row \<in> key_slot ` set (filter kr_is_active rows)"
    using q by (intro image_eqI [of _ _ q]) simp_all
  then have "\<not> distinct (map key_slot (filter kr_is_active (rows @ [row])))"
    using assms(3) by simp
  ultimately show ?thesis by (simp add: key_violation_def del: map_append filter_append)
qed

section \<open>Properties\<close>


text \<open>C36: A rotation that succeeds makes the new key the active key of its slot, leaves every other slot
  alone, and keeps the previous active key under its version with its ciphertext, no longer active and
  marked deprecated, or compromised when no grace period was given.\<close>

theorem rotation_replaces_active:
  assumes "repo_ok db" "storable (service, algo) k"
    and "pg_rotate_active_key env service algo k until db = (Inr b, db')"
  shows "b \<and> repo_ok db' \<and> active_key db' = (active_key db)((service, algo) \<mapsto> material k)
    \<and> (\<forall>q\<in>set (keys_tbl db). kr_service_id q = service \<and> kr_algorithm q = algorithm_debug algo \<and> kr_is_active q \<longrightarrow>
         (\<exists>r\<in>set (keys_tbl db'). kr_id r = kr_id q \<and> kr_version r = kr_version q
            \<and> kr_encrypted_key_data r = kr_encrypted_key_data q \<and> \<not> kr_is_active r
            \<and> kr_status r = (if until = None then ''Compromised'' else ''Deprecated'')))"
proof -
  let ?s = "(service, algo)"
  have run: "pg_rotate_active_key env (fst ?s) (snd ?s) k until db = (Inr b, db')" using assms(3) by simp
  have "\<exists>r\<in>set (keys_tbl db'). kr_id r = kr_id q \<and> kr_version r = kr_version q
      \<and> kr_encrypted_key_data r = kr_encrypted_key_data q \<and> \<not> kr_is_active r
      \<and> kr_status r = (if until = None then ''Compromised'' else ''Deprecated'')"
    if q: "q \<in> set (keys_tbl db)" "kr_service_id q = service" "kr_algorithm q = algorithm_debug algo" "kr_is_active q" for q
  proof -
    have "retired env ?s (old_status until) q \<in> set (keys_tbl db')"
      using rotated_old [OF q(1) rotate_Inr(4) [OF assms(2) run q(1,4)]] by (simp add: rotate_Inr(3) [OF assms(2) run])
    moreover have "retired env ?s (old_status until) q
        = q\<lparr>kr_status := old_status until, kr_is_active := False, kr_created_at := env_now env\<rparr>"
      using q by (simp add: retired_def key_slot_def slot_key_def)
    ultimately show ?thesis
      by (intro bexI [of _ "retired env ?s (old_status until) q"]) (simp_all add: old_status_def)
  qed
  with repo.rotate_ok [OF assms(1,2) run] show ?thesis by blast
qed

text \<open>PostgreSQL does not promise that the update in the \<^verbatim>\<open>WITH\<close> clause of the rotation statement happens
  before the insert.  When it happens after it, rotating a slot that has an active key always fails on
  the index that allows one active key per slot, and changes nothing.\<close>

theorem rotation_insert_first_fails:
  assumes "\<not> env_cte_first env" "db_faults db = []" "repo_ok db" "storable s k"
    and "active_key db s \<noteq> None" "kp_id k \<notin> kr_id ` set (keys_tbl db)"
    and "\<forall>r\<in>set (keys_tbl db). key_slot r = slot_key s \<longrightarrow> kr_version r \<noteq> kp_version k"
  shows "pg_rotate_active_key env (fst s) (snd s) k until db
    = (Inl (db_error env (UniqueViolation ''uniq_active_key_per_service_algorithm'')), db)"
proof -
  let ?row = "stored_row env k"
  note facts = stored_row_facts [OF assms(4), of env]
  have row: "\<lparr>kr_id = kp_id k, kr_service_id = fst s, kr_algorithm = algorithm_debug (snd s), kr_version = kp_version k,
      kr_encrypted_key_data = epk_ciphertext (kp_encrypted_private_key k), kr_public_key_pem = kp_public_key_pem k,
      kr_purpose = purpose_debug (kp_purpose k), kr_status = ''Active'', kr_is_active = True,
      kr_created_at = env_now env\<rparr> = ?row"
    using assms(4) by (simp add: storable_def stored_row_def)
  have new: "\<not> list_ex (same_version ?row) (keys_tbl db)"
    using assms(7) facts(2) by (auto simp: list_ex_iff same_version_def stored_row_def)
  obtain q where "active_in (key_slot ?row) (keys_tbl db) = Some q"
    using assms(5) facts(2) by (auto simp: active_key_def split: option.splits)
  with violation_second_active [of "keys_tbl db" ?row q] assms(3,6) new facts(3)
  have v: "key_violation (keys_tbl db @ [?row]) = Some ''uniq_active_key_per_service_algorithm''"
    by (simp add: repo_ok_iff stored_row_def)
  have up: "upsert_key ?row (keys_tbl db) = keys_tbl db @ [?row]" using new by (simp add: upsert_key_def)
  have guard: "\<not> list_ex (\<lambda>r. kr_is_active r \<and> same_version ?row r) (keys_tbl db)"
    using new by (auto simp: list_ex_iff)
  show ?thesis
    unfolding pg_rotate_active_key_def Let_def rotate_row_def row
    by (simp add: map_errE_def exec_no_faults assms(1,2) guard up set_keys_def v)
qed

text \<open>The lookup of an active or still valid deprecated key returns exactly the active key of the slot: a
  deprecated key is never found, however long its grace period.\<close>

theorem deprecated_key_never_found:
  assumes "repo_ok db" "pg_get_active_or_valid_deprecated_key env service algo now db = (Inr found, db')"
  shows "map_option material found = active_key db (service, algo)
    \<and> (\<forall>k. found = Some k \<longrightarrow> kp_status k = Active)"
proof -
  let ?rows = "order_by (slot_version_le env) (filter kr_is_active (keys_tbl db))"
  have ok: "\<forall>r\<in>set ?rows. row_ok r \<and> kr_is_active r" and v: "key_violation (keys_tbl db) = None"
    using assms(1) by (simp_all add: repo_ok_iff)
  from assms(2) obtain rows db1 where
    q: "query (\<lambda>db. order_by (slot_version_le env) (filter kr_is_active (keys_tbl db))) db = (Inr rows, db1)"
    and r: "liftE (first_valid_row service algo now rows) db1 = (Inr found, db')"
    unfolding pg_get_active_or_valid_deprecated_key_def get_active_or_valid_deprecated_rows_def
      bindE_eq_Inr_iff map_errE_Inr_iff by blast
  from query_Inr [OF q] have "rows = ?rows" by simp
  with r have "first_valid_row service algo now ?rows = Inr found" by simp
  then have f: "map_optional_row (active_in (slot_key (service, algo)) (keys_tbl db)) = Inr found"
    by (simp add: first_valid_row_find [OF ok] find_active_sorted [OF v])
  have "kp_status k = Active" if "found = Some k" for k
  proof -
    from f that obtain r where "active_in (slot_key (service, algo)) (keys_tbl db) = Some r" "map_key_row r = Inr k"
      by (cases "active_in (slot_key (service, algo)) (keys_tbl db)") (auto simp: bindR_eq_Inr_iff)
    then have "kr_is_active r" "r \<in> set (keys_tbl db)" "map_key_row r = Inr k"
      by (simp_all add: active_in_iff [OF v])
    with assms(1) show ?thesis by (simp add: repo_ok_iff row_ok_def map_key_row_status)
  qed
  with map_optional_row_view [OF f] show ?thesis by blast
qed

section \<open>Witnesses\<close>

lemma sample_db_ok: "repo_ok sample_db"
  by (simp add: repo_ok_def keys_ok_def key_violation_def sample_db_def empty_db_def stored_row_def sample_env_def
      sample_key_def readable_iff)

lemma sample_storable: "storable (''svc'', Ed25519) (sample_key i v ct)"
  by (simp add: storable_def sample_key_def)

lemma sample_saved: "pg_save_key sample_env dbg (sample_key 1 1 [5]) empty_db = (Inr (), sample_db)"
  by (simp add: pg_save_key_active sample_key_def sample_db_def stored_row_def empty_db_def exec_no_faults map_errE_def
      upsert_key_def set_keys_def key_violation_def)


theorem rotation_replaces_active_witness:
  "\<exists>b db'. pg_rotate_active_key sample_env ''svc'' Ed25519 (sample_key 2 2 [6]) None sample_db = (Inr b, db')
    \<and> active_key db' (''svc'', Ed25519) = Some (2, [6], ''pem'', Signing)"
proof -
  obtain b db' where run: "pg_rotate_active_key sample_env ''svc'' Ed25519 (sample_key 2 2 [6]) None sample_db = (Inr b, db')"
    by (simp add: pg_rotate_active_key_def rotate_row_def sample_db_def empty_db_def stored_row_def sample_env_def
        sample_key_def exec_no_faults map_errE_def same_version_def key_slot_def upsert_key_def retire_rows_def
        set_keys_def key_violation_def)
  from rotation_replaces_active [OF sample_db_ok sample_storable run] show ?thesis using run by (auto simp: material_def sample_key_def)
qed

lemma sample_active: "active_key sample_db (''svc'', Ed25519) = Some (1, [5], ''pem'', Signing)"
proof -
  have "stored_row sample_env (sample_key 1 1 [5])\<lparr>kr_id := 1\<rparr> \<in> set (keys_tbl sample_db)"
    by (simp add: sample_db_def stored_row_def sample_key_def)
  moreover have "key_violation (keys_tbl sample_db) = None" using sample_db_ok by (simp add: repo_ok_iff)
  ultimately have "active_key sample_db (''svc'', Ed25519) = Some (material (sample_key 1 1 [5]))"
    using active_key_stored [OF _ sample_storable] by blast
  then show ?thesis by (simp add: material_def sample_key_def)
qed

theorem rotation_insert_first_fails_witness:
  "\<not> env_cte_first (sample_env\<lparr>env_cte_first := False\<rparr>)
   \<and> snd (pg_rotate_active_key (sample_env\<lparr>env_cte_first := False\<rparr>) ''svc'' Ed25519 (sample_key 2 2 [6]) None sample_db)
     = sample_db"
  using rotation_insert_first_fails [of "sample_env\<lparr>env_cte_first := False\<rparr>" sample_db "(''svc'', Ed25519)"
      "sample_key 2 2 [6]" None] sample_db_ok sample_storable sample_active
  by (simp add: sample_db_def empty_db_def sample_key_def stored_row_def)

theorem deprecated_key_never_found_witness:
  "\<exists>k db'. pg_get_active_or_valid_deprecated_key sample_env ''svc'' Ed25519 0 sample_db = (Inr (Some k), db')
     \<and> kp_status k = Active"
proof -
  obtain k db' where run: "pg_get_active_or_valid_deprecated_key sample_env ''svc'' Ed25519 0 sample_db = (Inr (Some k), db')"
    by (simp add: pg_get_active_or_valid_deprecated_key_def get_active_or_valid_deprecated_rows_def sample_db_def
        empty_db_def query_no_faults map_errE_def bindE_def order_by_def stored_row_def sample_key_def map_key_row_def
        algorithm_of_row_def purpose_of_row_def status_of_row_def)
  with deprecated_key_never_found [OF sample_db_ok run] show ?thesis by blast
qed

end
