(* ===== verification/Audit_Entries.thy ===== *)
theory Audit_Entries
  imports Key_Repository
begin

text \<open>Audit entries and their sanitising (\<^verbatim>\<open>kms-service/src/domain/audit/models.rs\<close>): actions, statuses, the
  request context, the redaction of details under keys that mention a secret, and the redaction of sensitive words
  in a reason.\<close>

section \<open>Entries\<close>

datatype AuditAction =
    GetPrivateKey | GetPublicKey | GetSymmetricKey | GenerateKey | GenerateDataKeyAction | EncryptData | DecryptData
  | RotateKey | RewrapKeys | SignData | IssueAgentCredential | ImportBootstrapCredential | CredentialProvisioned
  | CredentialProvisionFailed | KeyRotated | KeyRevoked | KeyExpired | SystemStarted | SystemShutdown
  | MasterKeyGenerated | MasterKeyUnsealed | MasterKeySealed | MasterKeyOperationFailed | AuditVerification
  | CaSignIntermediateAction

fun action_debug :: "AuditAction \<Rightarrow> string" where
  "action_debug GetPrivateKey = ''GetPrivateKey''"
| "action_debug GetPublicKey = ''GetPublicKey''"
| "action_debug GetSymmetricKey = ''GetSymmetricKey''"
| "action_debug GenerateKey = ''GenerateKey''"
| "action_debug GenerateDataKeyAction = ''GenerateDataKey''"
| "action_debug EncryptData = ''EncryptData''"
| "action_debug DecryptData = ''DecryptData''"
| "action_debug RotateKey = ''RotateKey''"
| "action_debug RewrapKeys = ''RewrapKeys''"
| "action_debug SignData = ''SignData''"
| "action_debug IssueAgentCredential = ''IssueAgentCredential''"
| "action_debug ImportBootstrapCredential = ''ImportBootstrapCredential''"
| "action_debug CredentialProvisioned = ''CredentialProvisioned''"
| "action_debug CredentialProvisionFailed = ''CredentialProvisionFailed''"
| "action_debug KeyRotated = ''KeyRotated''"
| "action_debug KeyRevoked = ''KeyRevoked''"
| "action_debug KeyExpired = ''KeyExpired''"
| "action_debug SystemStarted = ''SystemStarted''"
| "action_debug SystemShutdown = ''SystemShutdown''"
| "action_debug MasterKeyGenerated = ''MasterKeyGenerated''"
| "action_debug MasterKeyUnsealed = ''MasterKeyUnsealed''"
| "action_debug MasterKeySealed = ''MasterKeySealed''"
| "action_debug MasterKeyOperationFailed = ''MasterKeyOperationFailed''"
| "action_debug AuditVerification = ''AuditVerification''"
| "action_debug CaSignIntermediateAction = ''CaSignIntermediate''"

datatype AuditStatus =
  Recorded | Success | AccessDenied | StatusNotFound | ValidationFailure | Failure

fun status_as_str :: "AuditStatus \<Rightarrow> string" where
  "status_as_str Recorded = ''RECORDED''"
| "status_as_str Success = ''SUCCESS''"
| "status_as_str AccessDenied = ''ACCESS_DENIED''"
| "status_as_str StatusNotFound = ''NOT_FOUND''"
| "status_as_str ValidationFailure = ''VALIDATION_FAILURE''"
| "status_as_str Failure = ''FAILURE''"

record RequestContext =
  rq_operation_id :: string
  rq_nonce :: "string option"
  rq_actor_id :: service_id
  rq_ip :: "string option"
  rq_user_agent :: "string option"

text \<open>\<^verbatim>\<open>serde_json::Value\<close>; the numbers the service writes are integers.\<close>

datatype json = JNull | JBool bool | JNum int | JStr string | JArr "json list" | JObj "(string \<times> json) list"

record AuditLog =
  al_id :: uuid
  al_caller_service :: service_id
  al_target_service :: service_id
  al_action :: AuditAction
  al_algorithm :: KeyAlgorithm
  al_status :: AuditStatus
  al_reason :: "string option"
  al_request_id :: "string option"
  al_operation_id :: "string option"
  al_target_id :: "string option"
  al_metadata :: "string option"
  al_timestamp :: timestamp

record CanonicalAuditEntry =
  ce_id :: uuid
  ce_caller_service :: service_id
  ce_target_service :: service_id
  ce_action :: AuditAction
  ce_algorithm :: KeyAlgorithm
  ce_status :: AuditStatus
  ce_reason :: "string option"
  ce_prev_hash :: string
  ce_request_id :: "string option"
  ce_operation_id :: "string option"
  ce_target_id :: "string option"
  ce_metadata :: "json option"
  ce_timestamp :: timestamp

text \<open>\<^verbatim>\<open>BTreeMap<String, _>\<close>: insertion into an association list ordered by the bytes of the keys.\<close>

fun str_less :: "string \<Rightarrow> string \<Rightarrow> bool" where
  "str_less s [] = False"
| "str_less [] (c # t) = True"
| "str_less (b # s) (c # t) =
     ((of_char b :: nat) < of_char c \<or> (b = c \<and> str_less s t))"

fun btree_insert :: "string \<Rightarrow> 'a \<Rightarrow> (string \<times> 'a) list \<Rightarrow> (string \<times> 'a) list" where
  "btree_insert k v [] = [(k, v)]"
| "btree_insert k v ((k', v') # xs) =
     (if k = k' then (k, v) # xs
      else if str_less k k' then (k, v) # (k', v') # xs
      else (k', v') # btree_insert k v xs)"

definition btree_of :: "(string \<times> 'a) list \<Rightarrow> (string \<times> 'a) list" where
  "btree_of entries = foldl (\<lambda>m (k, v). btree_insert k v m) [] entries"

definition redacted_scalar :: "string option \<Rightarrow> json \<Rightarrow> json" where
  "redacted_scalar parent_key value =
     (if (case parent_key of None \<Rightarrow> False | Some key \<Rightarrow> contains_sub (to_ascii_lowercase key) ''secret'')
      then JStr ''[REDACTED]'' else value)"

fun canonicalize_value :: "json \<Rightarrow> string option \<Rightarrow> json" where
  "canonicalize_value (JObj m) parent_key =
     JObj (btree_of (map (\<lambda>(key, inner). (key, canonicalize_value inner
       (Some (case parent_key of None \<Rightarrow> key | Some parent \<Rightarrow> parent @ ''.'' @ key)))) m))"
| "canonicalize_value (JArr items) parent_key = JArr (map (\<lambda>item. canonicalize_value item parent_key) items)"
| "canonicalize_value JNull parent_key = redacted_scalar parent_key JNull"
| "canonicalize_value (JBool b) parent_key = redacted_scalar parent_key (JBool b)"
| "canonicalize_value (JNum n) parent_key = redacted_scalar parent_key (JNum n)"
| "canonicalize_value (JStr s) parent_key = redacted_scalar parent_key (JStr s)"

definition sanitize_details :: "json option \<Rightarrow> json option" where
  "sanitize_details details = map_option (\<lambda>value. canonicalize_value value None) details"

definition new_canonical_entry ::
  "uuid \<Rightarrow> timestamp \<Rightarrow> RequestContext \<Rightarrow> AuditAction \<Rightarrow> AuditStatus \<Rightarrow> json option \<Rightarrow> string \<Rightarrow> KeyAlgorithm
     \<Rightarrow> CanonicalAuditEntry" where
  "new_canonical_entry new_id now ctx action status details prev_hash algorithm =
     \<lparr>ce_id = new_id, ce_caller_service = rq_actor_id ctx, ce_target_service = rq_actor_id ctx, ce_action = action,
      ce_algorithm = algorithm, ce_status = status, ce_reason = None, ce_prev_hash = prev_hash,
      ce_request_id = Some (rq_operation_id ctx), ce_operation_id = Some (rq_operation_id ctx), ce_target_id = None,
      ce_metadata = sanitize_details details, ce_timestamp = now\<rparr>"

section \<open>Sanitising a reason\<close>

definition SENSITIVE_KEYWORDS :: "string list" where
  "SENSITIVE_KEYWORDS = [''password'', ''secret'', ''private_key'', ''master_key'', ''kek'', ''dek'', ''pin'',
     ''passphrase'', ''api_key'', ''hmac'', ''plaintext'', ''bootstrap'']"

definition REDACTED :: string where
  "REDACTED = ''[REDACTED]''"

text \<open>Letters that no replacement text contains; every keyword has one, so each replacement uses some up.\<close>

definition foreign :: "char \<Rightarrow> bool" where
  "foreign c = (lower_char c \<notin> set ''[redacted]'')"

lemma keywords_foreign: "list_all (\<lambda>kw. filter foreign kw \<noteq> []) SENSITIVE_KEYWORDS"
  by code_simp

lemma redacted_not_foreign: "filter foreign REDACTED = []"
  by code_simp

text \<open>The loop over the keywords with the loop over the occurrences of one keyword inside it: \<^verbatim>\<open>i\<close> is the
  keyword at hand.\<close>

lemma lower_char_idem: "lower_char (lower_char c) = lower_char c"
proof (cases "65 \<le> (of_char c :: nat) \<and> of_char c \<le> (90::nat)")
  case True
  then have "(of_char (char_of (of_char c + (32::nat)) :: char) :: nat) = of_char c + 32"
    by simp
  with True show ?thesis by (simp add: lower_char_def)
next
  case False
  then have "lower_char c = c" by (simp only: lower_char_def if_False)
  then show ?thesis by simp
qed

lemma redact_decreases:
  assumes "find_sub kw (to_ascii_lowercase s) = Some pos" "kw \<in> set SENSITIVE_KEYWORDS"
  shows "length (filter foreign (take pos s @ REDACTED @ drop (pos + length kw) s)) < length (filter foreign s)"
proof -
  obtain t where
    t: "to_ascii_lowercase s = take pos (to_ascii_lowercase s) @ kw @ t"
    and len0: "pos + length kw \<le> length (to_ascii_lowercase s)"
    using find_sub_Some [OF assms(1)] by (elim exE conjE)
  let ?mid = "take (length kw) (drop pos s)"
  have len: "pos + length kw \<le> length s" using len0 by (simp add: to_ascii_lowercase_def)
  let ?low = "to_ascii_lowercase s"
  have "drop pos ?low = drop pos (take pos ?low @ kw @ t)" by (rule arg_cong [OF t])
  also have "\<dots> = kw @ t" using len by (simp add: to_ascii_lowercase_def)
  finally have "take (length kw) (drop pos ?low) = kw" by simp
  then have mid: "map lower_char ?mid = kw" by (simp add: to_ascii_lowercase_def take_map drop_map)
  have low: "foreign (lower_char c) = foreign c" for c by (simp add: foreign_def lower_char_idem)
  have "filter foreign kw \<noteq> []" using keywords_foreign assms(2) by (simp add: list_all_iff)
  then obtain d where "d \<in> set kw" "foreign d" by (auto simp: filter_empty_conv)
  then have "d \<in> set (map lower_char ?mid)" "foreign d" by (simp_all only: mid)
  then obtain c where "c \<in> set ?mid" "foreign (lower_char c)" by auto
  then have "filter foreign ?mid \<noteq> []" using low by (auto simp: filter_empty_conv)
  moreover have eq: "take pos s @ ?mid @ drop (pos + length kw) s = s"
    using append_take_drop_id [of "length kw" "drop pos s"] append_take_drop_id [of pos s]
    by (simp add: add.commute)
  have "length (filter foreign (take pos s @ ?mid @ drop (pos + length kw) s))
      = length (filter foreign (take pos s)) + length (filter foreign ?mid)
      + length (filter foreign (drop (pos + length kw) s))" by simp
  then have "length (filter foreign s) = length (filter foreign (take pos s)) + length (filter foreign ?mid)
      + length (filter foreign (drop (pos + length kw) s))" unfolding eq .
  ultimately show ?thesis using redacted_not_foreign by simp
qed

function redact :: "nat \<Rightarrow> string \<Rightarrow> string" where
  "redact i sanitized =
     (if i < length SENSITIVE_KEYWORDS then
        (let keyword = SENSITIVE_KEYWORDS ! i in
         case find_sub keyword (to_ascii_lowercase sanitized) of
           Some pos \<Rightarrow> redact i (take pos sanitized @ REDACTED @ drop (pos + length keyword) sanitized)
         | None \<Rightarrow> redact (i + 1) sanitized)
      else sanitized)"
  by pat_completeness auto
termination
  by (relation "measures [\<lambda>(i, s). length SENSITIVE_KEYWORDS - i, \<lambda>(i, s). length (filter foreign s)]")
     (auto intro: redact_decreases simp del: filter_append)

declare redact.simps [simp del]

definition sanitize_reason :: "string option \<Rightarrow> string option" where
  "sanitize_reason reason =
     (case reason of
        None \<Rightarrow> None
      | Some r \<Rightarrow>
          if trim r = [] then None
          else let sanitized = redact 0 r in if sanitized = [] then None else Some sanitized)"

text \<open>The first keywords do not occur.\<close>

definition clean :: "nat \<Rightarrow> string \<Rightarrow> bool" where
  "clean i s = (\<forall>j<i. \<not> contains_sub (to_ascii_lowercase s) (SENSITIVE_KEYWORDS ! j))"

section \<open>Lemmas\<close>

subsection \<open>Ordered maps\<close>

lemma map_of_btree_insert: "map_of (btree_insert k v m) = (map_of m)(k \<mapsto> v)"
  by (induction k v m rule: btree_insert.induct) (auto simp: fun_eq_iff)

lemma map_of_btree_of: "map_of (btree_of es) = map_of (rev es)"
proof -
  have "map_of (foldl (\<lambda>m (k, v). btree_insert k v m) m es) = map_of m ++ map_of (rev es)" for m
    by (induction es arbitrary: m) (auto simp: map_of_btree_insert map_add_def fun_eq_iff split: option.splits)
  from this [of "[]"] show ?thesis by (simp add: btree_of_def)
qed

subsection \<open>Sanitising\<close>

lemma contains_split:
  assumes "c \<notin> set kw"
  shows "contains_sub (x @ c # y) kw \<longleftrightarrow> contains_sub x kw \<or> contains_sub y kw"
proof
  assume "contains_sub (x @ c # y) kw"
  then obtain u v where e: "x @ c # y = u @ kw @ v" unfolding contains_sub_iff by blast
  then consider w where "x = u @ w" "w @ c # y = kw @ v" | w where "x @ w = u" "c # y = w @ kw @ v"
    unfolding append_eq_append_conv2 by blast
  then show "contains_sub x kw \<or> contains_sub y kw"
  proof cases
    case 1
    from 1(2) consider z where "w = kw @ z" | z where "w @ z = kw" "c # y = z @ v"
      unfolding append_eq_append_conv2 by blast
    then show ?thesis
    proof cases
      case 1
      with \<open>x = u @ w\<close> show ?thesis unfolding contains_sub_iff by auto
    next
      case 2
      with assms have "z = []" by (cases z) auto
      with 2 \<open>x = u @ w\<close> have "x = u @ kw @ []" by simp
      then show ?thesis unfolding contains_sub_iff by blast
    qed
  next
    case 2
    show ?thesis
    proof (cases w)
      case Nil
      with 2(2) assms have "kw = []" by (cases kw) auto
      then show ?thesis unfolding contains_sub_iff by auto
    next
      case (Cons d w')
      with 2(2) have "y = w' @ kw @ v" by simp
      then show ?thesis unfolding contains_sub_iff by blast
    qed
  qed
next
  assume "contains_sub x kw \<or> contains_sub y kw"
  then show "contains_sub (x @ c # y) kw"
  proof
    assume "contains_sub x kw"
    then obtain u v where "x = u @ kw @ v" unfolding contains_sub_iff by blast
    then have "x @ c # y = u @ kw @ (v @ c # y)" by simp
    then show ?thesis unfolding contains_sub_iff by blast
  next
    assume "contains_sub y kw"
    then obtain u v where "y = u @ kw @ v" unfolding contains_sub_iff by blast
    then have "x @ c # y = (x @ c # u) @ kw @ v" by simp
    then show ?thesis unfolding contains_sub_iff by blast
  qed
qed

lemma keyword_facts:
  "list_all (\<lambda>kw. CHR ''['' \<notin> set kw \<and> CHR '']'' \<notin> set kw \<and> \<not> contains_sub ''redacted'' kw) SENSITIVE_KEYWORDS"
  by code_simp

lemma lower_redacted: "to_ascii_lowercase REDACTED = CHR ''['' # ''redacted'' @ [CHR '']'']"
  by code_simp

lemma contains_redacted:
  assumes "kw \<in> set SENSITIVE_KEYWORDS"
  shows "contains_sub (to_ascii_lowercase (a @ REDACTED @ b)) kw
    \<longleftrightarrow> contains_sub (to_ascii_lowercase a) kw \<or> contains_sub (to_ascii_lowercase b) kw"
proof -
  from keyword_facts assms have kw: "CHR ''['' \<notin> set kw" "CHR '']'' \<notin> set kw" "\<not> contains_sub ''redacted'' kw"
    by (auto simp: list_all_iff)
  have "to_ascii_lowercase (a @ REDACTED @ b)
      = to_ascii_lowercase a @ CHR ''['' # (''redacted'' @ CHR '']'' # to_ascii_lowercase b)"
    using lower_redacted by (simp add: to_ascii_lowercase_def)
  then show ?thesis using kw contains_split by (metis (no_types, lifting))
qed

lemma clean_redact_step:
  assumes "clean i s" "i < length SENSITIVE_KEYWORDS" "pos + n \<le> length s"
  shows "clean i (take pos s @ REDACTED @ drop (pos + n) s)"
  unfolding clean_def
proof (intro allI impI)
  fix j assume j: "j < i"
  let ?kw = "SENSITIVE_KEYWORDS ! j"
  have no: "\<not> contains_sub (to_ascii_lowercase s) ?kw" using assms(1) j by (simp add: clean_def)
  have "contains_sub (to_ascii_lowercase s) ?kw" if c: "contains_sub (to_ascii_lowercase (take pos s)) ?kw"
  proof -
    from c obtain u v where "to_ascii_lowercase (take pos s) = u @ ?kw @ v" unfolding contains_sub_iff by blast
    then have "to_ascii_lowercase s = u @ ?kw @ (v @ to_ascii_lowercase (drop pos s))"
      by (metis append.assoc append_take_drop_id map_append to_ascii_lowercase_def)
    then show ?thesis unfolding contains_sub_iff by blast
  qed
  moreover have "contains_sub (to_ascii_lowercase s) ?kw" if c: "contains_sub (to_ascii_lowercase (drop (pos + n) s)) ?kw"
  proof -
    from c obtain u v where "to_ascii_lowercase (drop (pos + n) s) = u @ ?kw @ v" unfolding contains_sub_iff by blast
    then have "to_ascii_lowercase s = (to_ascii_lowercase (take (pos + n) s) @ u) @ ?kw @ v"
      by (metis append.assoc append_take_drop_id map_append to_ascii_lowercase_def)
    then show ?thesis unfolding contains_sub_iff by blast
  qed
  ultimately show "\<not> contains_sub (to_ascii_lowercase (take pos s @ REDACTED @ drop (pos + n) s)) ?kw"
    using no contains_redacted [of ?kw "take pos s" "drop (pos + n) s"] j assms(2) by auto
qed

lemma redact_clean: "clean i s \<Longrightarrow> clean (length SENSITIVE_KEYWORDS) (redact i s)"
proof (induction i s rule: redact.induct)
  case (1 i s)
  show ?case
  proof (cases "i < length SENSITIVE_KEYWORDS")
    case False
    with 1(3) show ?thesis by (subst redact.simps) (auto simp: clean_def)
  next
    case True
    show ?thesis
    proof (cases "find_sub (SENSITIVE_KEYWORDS ! i) (to_ascii_lowercase s)")
      case None
      then have "clean (i + 1) s" using 1(3) by (auto simp: clean_def contains_sub_def less_Suc_eq)
      then have "clean (length SENSITIVE_KEYWORDS) (redact (i + 1) s)"
        using 1(1) [OF True refl None] by simp
      with True None show ?thesis by (subst redact.simps) (simp add: Let_def)
    next
      case (Some pos)
      from find_sub_Some [OF Some] have "pos + length (SENSITIVE_KEYWORDS ! i) \<le> length s"
        by (elim exE conjE) (simp add: to_ascii_lowercase_def)
      from 1(2) [OF True refl Some] clean_redact_step [OF 1(3) True this] True Some show ?thesis
        by (subst redact.simps) (simp add: Let_def)
    qed
  qed
qed

lemma redact_id: "clean (length SENSITIVE_KEYWORDS) s \<Longrightarrow> redact i s = s"
proof (induction i s rule: redact.induct)
  case (1 i s)
  show ?case
  proof (cases "i < length SENSITIVE_KEYWORDS")
    case True
    with 1(3) have "find_sub (SENSITIVE_KEYWORDS ! i) (to_ascii_lowercase s) = None"
      by (auto simp: clean_def contains_sub_def)
    with 1(1) [OF True refl this 1(3)] True show ?thesis by (subst redact.simps) (simp add: Let_def)
  qed (subst redact.simps, simp)
qed

lemma trim_eq_Nil_iff: "trim s = [] \<longleftrightarrow> (\<forall>c\<in>set s. is_whitespace c)"
proof -
  have "(\<forall>c\<in>set (dropWhile is_whitespace s). is_whitespace c) \<longleftrightarrow> dropWhile is_whitespace s = []"
    using hd_dropWhile [of is_whitespace s] by (metis empty_iff empty_set hd_in_set)
  then show ?thesis by (simp add: trim_def dropWhile_eq_Nil_conv)
qed

lemma redact_nonblank: "\<exists>c\<in>set s. \<not> is_whitespace c \<Longrightarrow> \<exists>c\<in>set (redact i s). \<not> is_whitespace c"
proof (induction i s rule: redact.induct)
  case (1 i s)
  have b: "\<exists>c\<in>set REDACTED. \<not> is_whitespace c" by code_simp
  show ?case
  proof (cases "i < length SENSITIVE_KEYWORDS")
    case True
    show ?thesis
    proof (cases "find_sub (SENSITIVE_KEYWORDS ! i) (to_ascii_lowercase s)")
      case None
      with 1(1) [OF True refl None 1(3)] True show ?thesis by (subst redact.simps) (simp add: Let_def)
    next
      case (Some pos)
      have "\<exists>c\<in>set (take pos s @ REDACTED @ drop (pos + length (SENSITIVE_KEYWORDS ! i)) s). \<not> is_whitespace c"
        using b by auto
      from 1(2) [OF True refl Some this] True Some show ?thesis by (subst redact.simps) (simp add: Let_def)
    qed
  next
    case False
    with 1(3) show ?thesis by (subst redact.simps) simp
  qed
qed

lemma sanitize_reason_cases:
  "sanitize_reason (Some r) = (if trim r = [] then None else Some (redact 0 r))"
proof (cases "trim r = []")
  case False
  then have "redact 0 r \<noteq> []" using redact_nonblank [of r 0] by (auto simp: trim_eq_Nil_iff)
  with False show ?thesis by (simp add: sanitize_reason_def Let_def)
qed (simp add: sanitize_reason_def)

end
