(* ===== verification/Audit_Log.thy ===== *)
theory Audit_Log
  imports "HOL-Library.Multiset" "HOL-Library.Countable" Core_Crypto Acl_Policy Audit_Entries
begin

text \<open>The audit log: the hash of an entry (\<^verbatim>\<open>kms-core/src/audit.rs\<close>), the audit service and its repository
  (\<^verbatim>\<open>kms-service/src/domain/audit/service.rs\<close>, \<^verbatim>\<open>infrastructure/postgres/audit.rs\<close>) and the verification of
  the hash chain (\<^verbatim>\<open>handlers/audit.rs\<close>).  The JSON printer, the time and uuid formats, base64 and the signature
  scheme are parameters.\<close>

section \<open>The hash of an entry\<close>

record audit_lib =
  ad_crypto :: crypto_lib
  ad_json :: "json \<Rightarrow> string"
  ad_rfc3339 :: "timestamp \<Rightarrow> string"
  ad_uuid :: "uuid \<Rightarrow> string"
  ad_b64_decode :: "string \<Rightarrow> bytes option"
  ad_key_from_bytes :: "bytes \<Rightarrow> bytes option"
  ad_verify_strict :: "bytes \<Rightarrow> bytes \<Rightarrow> bytes \<Rightarrow> bool"

text \<open>What verification relies on: JSON texts, RFC 3339 times and uuids read back as what they were printed
  from.\<close>

definition audit_lib_ok :: "audit_lib \<Rightarrow> bool" where
  "audit_lib_ok lib = (inj (ad_json lib) \<and> inj (ad_rfc3339 lib) \<and> inj (ad_uuid lib))"

datatype AuditHashVersion = V1

definition CURRENT :: AuditHashVersion where
  "CURRENT = V1"

fun hash_version_as_str :: "AuditHashVersion \<Rightarrow> string" where
  "hash_version_as_str V1 = ''v1''"

definition hash_version_from_str :: "string \<Rightarrow> string + AuditHashVersion" where
  "hash_version_from_str s =
     (if s = ''v1'' then Inr V1 else Inl (''Unsupported audit hash version: '' @ s))"

record AuditHashInput =
  hi_id :: string
  hi_caller_service :: string
  hi_target_service :: string
  hi_action :: string
  hi_algorithm :: string
  hi_status :: string
  hi_reason :: "string option"
  hi_prev_hash :: string
  hi_timestamp :: timestamp
  hi_request_id :: "string option"
  hi_operation_id :: "string option"
  hi_target_id :: "string option"
  hi_metadata :: "string option"

fun opt_json :: "string option \<Rightarrow> json" where
  "opt_json None = JNull"
| "opt_json (Some value) = JStr value"

definition hash_payload :: "audit_lib \<Rightarrow> AuditHashVersion \<Rightarrow> AuditHashInput \<Rightarrow> json" where
  "hash_payload lib version input =
     JObj (btree_of (
       (if version \<noteq> CURRENT then [(''hash_version'', JStr (hash_version_as_str version))] else []) @
       [(''action'', JStr (hi_action input)),
        (''algorithm'', JStr (hi_algorithm input)),
        (''caller_service'', JStr (hi_caller_service input)),
        (''id'', JStr (hi_id input)),
        (''prev_hash'', JStr (hi_prev_hash input)),
        (''reason'', opt_json (hi_reason input)),
        (''status'', JStr (hi_status input)),
        (''target_service'', JStr (hi_target_service input)),
        (''timestamp'', JStr (ad_rfc3339 lib (hi_timestamp input))),
        (''request_id'', opt_json (hi_request_id input)),
        (''operation_id'', opt_json (hi_operation_id input)),
        (''target_id'', opt_json (hi_target_id input)),
        (''metadata'', opt_json (hi_metadata input))]))"

definition hash_text :: "audit_lib \<Rightarrow> json \<Rightarrow> string" where
  "hash_text lib payload = hex_encode (ad_crypto lib) (sha256 (ad_crypto lib) (as_bytes (ad_json lib payload)))"

definition compute_hash_for_version :: "audit_lib \<Rightarrow> AuditHashVersion \<Rightarrow> AuditHashInput \<Rightarrow> string" where
  "compute_hash_for_version lib version input = hash_text lib (hash_payload lib version input)"

definition compute_audit_hash :: "audit_lib \<Rightarrow> AuditHashInput \<Rightarrow> string" where
  "compute_audit_hash lib input = compute_hash_for_version lib V1 input"

section \<open>Recording\<close>

definition GENESIS_HASH :: string where
  "GENESIS_HASH = replicate 64 (CHR ''0'')"

text \<open>The two halves of \<^verbatim>\<open>PgAuditRepository::record\<close>: reading the newest hash, and the insertion of the entry
  chained to it.\<close>

definition read_prev_hash :: "db_env \<Rightarrow> (kms_db, AppError, string) sm" where
  "read_prev_hash env =
     bindE (map_errE (db_error env) latest_hash)
       (\<lambda>prev_hash_opt. returnE (case prev_hash_opt of None \<Rightarrow> GENESIS_HASH | Some h \<Rightarrow> h))"

definition chained_row :: "audit_lib \<Rightarrow> string \<Rightarrow> AuditLog \<Rightarrow> AuditRow" where
  "chained_row lib prev_hash log =
     (let action_str = action_debug (al_action log);
          algorithm_str = algorithm_as_str (al_algorithm log);
          status_str = status_as_str (al_status log);
          safe_reason = sanitize_reason (al_reason log);
          hash_hex = compute_audit_hash lib
            \<lparr>hi_id = ad_uuid lib (al_id log), hi_caller_service = al_caller_service log,
             hi_target_service = al_target_service log, hi_action = action_str, hi_algorithm = algorithm_str,
             hi_status = status_str, hi_reason = safe_reason, hi_prev_hash = prev_hash,
             hi_timestamp = al_timestamp log, hi_request_id = al_request_id log,
             hi_operation_id = al_operation_id log, hi_target_id = al_target_id log, hi_metadata = al_metadata log\<rparr> in
      \<lparr>ar_id = al_id log, ar_caller_service = al_caller_service log, ar_target_service = al_target_service log,
       ar_action = action_str, ar_algorithm = algorithm_str, ar_status = status_str, ar_reason = safe_reason,
       ar_prev_hash = prev_hash, ar_hash = hash_hex, ar_signature = None, ar_request_id = al_request_id log,
       ar_operation_id = al_operation_id log, ar_target_id = al_target_id log, ar_metadata = al_metadata log,
       ar_created_at = al_timestamp log\<rparr>)"

definition insert_chained :: "audit_lib \<Rightarrow> db_env \<Rightarrow> AuditLog \<Rightarrow> string \<Rightarrow> (kms_db, AppError, unit) sm" where
  "insert_chained lib env log prev_hash =
     map_errE (db_error env) (insert_audit env (chained_row lib prev_hash log))"

definition pg_audit_record :: "audit_lib \<Rightarrow> db_env \<Rightarrow> AuditLog \<Rightarrow> (kms_db, AppError, unit) sm" where
  "pg_audit_record lib env log = bindE (read_prev_hash env) (insert_chained lib env log)"

definition audit_log_of ::
  "audit_lib \<Rightarrow> CanonicalAuditEntry \<Rightarrow> string option \<Rightarrow> KeyAlgorithm \<Rightarrow> AuditLog" where
  "audit_log_of lib entry reason algorithm =
     \<lparr>al_id = ce_id entry, al_caller_service = ce_caller_service entry, al_target_service = ce_target_service entry,
      al_action = ce_action entry, al_algorithm = algorithm, al_status = ce_status entry,
      al_reason = (case reason of Some r \<Rightarrow> Some r | None \<Rightarrow> ce_reason entry),
      al_request_id = ce_request_id entry, al_operation_id = ce_operation_id entry, al_target_id = ce_target_id entry,
      al_metadata = map_option (ad_json lib) (ce_metadata entry), al_timestamp = ce_timestamp entry\<rparr>"

definition record_internal ::
  "audit_lib \<Rightarrow> db_env \<Rightarrow> uuid \<Rightarrow> timestamp \<Rightarrow> RequestContext \<Rightarrow> AuditAction \<Rightarrow> AuditStatus \<Rightarrow> json option
     \<Rightarrow> string option \<Rightarrow> KeyAlgorithm \<Rightarrow> (kms_db, AppError, unit) sm" where
  "record_internal lib env new_id now ctx action status details reason algorithm =
     pg_audit_record lib env
       (audit_log_of lib (new_canonical_entry new_id now ctx action status details GENESIS_HASH algorithm) reason algorithm)"

definition record_success ::
  "audit_lib \<Rightarrow> db_env \<Rightarrow> uuid \<Rightarrow> timestamp \<Rightarrow> RequestContext \<Rightarrow> AuditAction \<Rightarrow> json option \<Rightarrow> (kms_db, AppError, unit) sm" where
  "record_success lib env new_id now ctx action details =
     record_internal lib env new_id now ctx action Success details None AES256GCM"

definition record_failure ::
  "audit_lib \<Rightarrow> db_env \<Rightarrow> uuid \<Rightarrow> timestamp \<Rightarrow> RequestContext \<Rightarrow> AuditAction \<Rightarrow> string \<Rightarrow> (kms_db, AppError, unit) sm" where
  "record_failure lib env new_id now ctx action reason =
     record_internal lib env new_id now ctx action Failure (Some (JStr reason)) (sanitize_reason (Some reason)) AES256GCM"

definition record_access_denied ::
  "audit_lib \<Rightarrow> db_env \<Rightarrow> uuid \<Rightarrow> timestamp \<Rightarrow> RequestContext \<Rightarrow> AuditAction \<Rightarrow> string \<Rightarrow> (kms_db, AppError, unit) sm" where
  "record_access_denied lib env new_id now ctx action reason =
     record_internal lib env new_id now ctx action AccessDenied (Some (JStr reason)) (sanitize_reason (Some reason)) AES256GCM"

definition record_validation_failure ::
  "audit_lib \<Rightarrow> db_env \<Rightarrow> uuid \<Rightarrow> timestamp \<Rightarrow> RequestContext \<Rightarrow> AuditAction \<Rightarrow> string \<Rightarrow> (kms_db, AppError, unit) sm" where
  "record_validation_failure lib env new_id now ctx action reason =
     record_internal lib env new_id now ctx action ValidationFailure (Some (JStr reason)) (sanitize_reason (Some reason))
       AES256GCM"

section \<open>Verification\<close>

record VerifyReport =
  vr_ok :: bool
  vr_total_checked :: nat
  vr_ok_count :: nat
  vr_errors :: "string list"

text \<open>\<^verbatim>\<open>str::lines\<close>: split at line feeds, without the line feed and a carriage return before it; a final
  line feed does not start another line.\<close>

definition chomp :: "string \<Rightarrow> string" where
  "chomp l = (if l \<noteq> [] \<and> last l = CHR 0x0D then butlast l else l)"

fun split_lines :: "string \<Rightarrow> string \<Rightarrow> string list" where
  "split_lines [] acc = (if acc = [] then [] else [rev acc])"
| "split_lines (c # s) acc = (if c = CHR 0x0A then chomp (rev acc) # split_lines s [] else split_lines s (c # acc))"

definition str_lines :: "string \<Rightarrow> string list" where
  "str_lines s = split_lines s []"

definition parse_ed25519_pub_from_pem :: "audit_lib \<Rightarrow> string \<Rightarrow> bytes option" where
  "parse_ed25519_pub_from_pem lib pem =
     (case ad_b64_decode lib (concat (filter (\<lambda>l. \<not> starts_with l ''-----'') (str_lines pem))) of
        None \<Rightarrow> None
      | Some der \<Rightarrow>
          if length der \<ge> 32 then ad_key_from_bytes lib (drop (length der - 32) der) else None)"

definition row_hash_input :: "audit_lib \<Rightarrow> AuditRow \<Rightarrow> AuditHashInput" where
  "row_hash_input lib rec =
     \<lparr>hi_id = ad_uuid lib (ar_id rec), hi_caller_service = ar_caller_service rec,
      hi_target_service = ar_target_service rec, hi_action = ar_action rec, hi_algorithm = ar_algorithm rec,
      hi_status = ar_status rec, hi_reason = ar_reason rec, hi_prev_hash = ar_prev_hash rec,
      hi_timestamp = ar_created_at rec, hi_request_id = ar_request_id rec, hi_operation_id = ar_operation_id rec,
      hi_target_id = ar_target_id rec, hi_metadata = ar_metadata rec\<rparr>"

definition signature_accepted :: "audit_lib \<Rightarrow> bytes list \<Rightarrow> string \<Rightarrow> AuditRow \<Rightarrow> bool" where
  "signature_accepted lib pubkeys computed rec =
     (case ar_signature rec of
        None \<Rightarrow> True
      | Some sig_bytes \<Rightarrow>
          if length sig_bytes = 64 \<and> pubkeys \<noteq> []
          then list_ex (\<lambda>pk. ad_verify_strict lib pk (as_bytes computed) sig_bytes) pubkeys else True)"

text \<open>The loop over the records: the errors it collects (it stops at the first) and how many records passed.\<close>

fun verify_records :: "audit_lib \<Rightarrow> bytes list \<Rightarrow> string \<Rightarrow> AuditRow list \<Rightarrow> nat \<Rightarrow> string list \<times> nat" where
  "verify_records lib pubkeys last_hash [] ok_count = ([], ok_count)"
| "verify_records lib pubkeys last_hash (rec # recs) ok_count =
     (if ar_prev_hash rec \<noteq> last_hash then
        ([''Integrity violation at id '' @ ad_uuid lib (ar_id rec) @ '': prev_hash mismatch (expected '' @ last_hash
          @ '' got '' @ ar_prev_hash rec @ '')''], ok_count)
      else
        let computed = compute_audit_hash lib (row_hash_input lib rec) in
        if computed \<noteq> ar_hash rec then
          ([''Integrity violation at id '' @ ad_uuid lib (ar_id rec) @ '': hash mismatch (expected '' @ ar_hash rec
            @ '' got '' @ computed @ '')''], ok_count)
        else if \<not> signature_accepted lib pubkeys computed rec then
          ([''Signature verification failed for id '' @ ad_uuid lib (ar_id rec)], ok_count)
        else verify_records lib pubkeys (ar_hash rec) recs (ok_count + 1))"

definition verify_audit_handler ::
  "audit_lib \<Rightarrow> db_env \<Rightarrow> AclSettings \<Rightarrow> service_id \<Rightarrow> u64 option \<Rightarrow> bool option \<Rightarrow> (kms_db, AppError, VerifyReport) sm" where
  "verify_audit_handler lib env acl caller q_limit q_full =
     (if \<not> settings_has_control_action acl caller AuditVerify then throwE Forbidden
      else
        let limit = (case q_limit of None \<Rightarrow> 1000 | Some l \<Rightarrow> l);
            full = (case q_full of None \<Rightarrow> False | Some b \<Rightarrow> b) in
        bindE (map_errE (db_error env) (list_recent (Some limit) full)) (\<lambda>rows.
          if rows = [] then returnE \<lparr>vr_ok = True, vr_total_checked = 0, vr_ok_count = 0, vr_errors = []\<rparr>
          else
            let cut = (\<not> full \<and> length rows > unat limit);
                anchor_hash = (if cut then ar_hash (hd rows) else GENESIS_HASH);
                records_to_verify = (if cut then tl rows else rows) in
            bindE (map_errE (db_error env) active_signing_public_keys) (\<lambda>signing_keys.
              let pubkeys = List.map_filter (parse_ed25519_pub_from_pem lib) signing_keys;
                  (errors, ok_count) = verify_records lib pubkeys anchor_hash records_to_verify 0 in
              returnE \<lparr>vr_ok = (errors = []), vr_total_checked = ok_count + length errors, vr_ok_count = ok_count,
                       vr_errors = errors\<rparr>)))"

definition log_json :: "audit_lib \<Rightarrow> AuditRow \<Rightarrow> json" where
  "log_json lib rec =
     JObj (btree_of
       [(''id'', JStr (ad_uuid lib (ar_id rec))), (''caller_service'', JStr (ar_caller_service rec)),
        (''target_service'', JStr (ar_target_service rec)), (''action'', JStr (ar_action rec)),
        (''algorithm'', JStr (ar_algorithm rec)), (''status'', JStr (ar_status rec)),
        (''reason'', opt_json (ar_reason rec)), (''prev_hash'', JStr (ar_prev_hash rec)),
        (''hash'', JStr (ar_hash rec)), (''created_at'', JStr (ad_rfc3339 lib (ar_created_at rec)))])"

definition audit_logs_handler ::
  "audit_lib \<Rightarrow> db_env \<Rightarrow> AclSettings \<Rightarrow> service_id \<Rightarrow> (kms_db, AppError, json) sm" where
  "audit_logs_handler lib env acl caller =
     (if \<not> settings_has_control_action acl caller AuditRead then throwE Forbidden
      else
        bindE (map_errE (db_error env) (list_recent None True)) (\<lambda>rows.
        bindE (map_errE (db_error env) active_signing_public_keys) (\<lambda>signing_keys.
          returnE (JObj (btree_of [(''logs'', JArr (map (log_json lib) rows)),
            (''signing_public_keys'', JArr (map JStr signing_keys))])))))"

section \<open>Chains\<close>

text \<open>A list of entries in which each carries the hash of the one before, starting from an anchor, and its own
  hash is the recomputed one.\<close>

fun chain_ok :: "audit_lib \<Rightarrow> string \<Rightarrow> AuditRow list \<Rightarrow> bool" where
  "chain_ok lib anchor [] = True"
| "chain_ok lib anchor (r # rows) =
     (ar_prev_hash r = anchor \<and> ar_hash r = compute_audit_hash lib (row_hash_input lib r) \<and> chain_ok lib (ar_hash r) rows)"

definition chain_end :: "string \<Rightarrow> AuditRow list \<Rightarrow> string" where
  "chain_end anchor rows = (if rows = [] then anchor else ar_hash (last rows))"

text \<open>The text an entry is hashed from, and two entries whose different texts have the same digest.\<close>

definition entry_payload :: "audit_lib \<Rightarrow> AuditRow \<Rightarrow> json" where
  "entry_payload lib r = hash_payload lib V1 (row_hash_input lib r)"

definition collide :: "audit_lib \<Rightarrow> json \<Rightarrow> json \<Rightarrow> bool" where
  "collide lib p q = (ad_json lib p \<noteq> ad_json lib q \<and> hash_text lib p = hash_text lib q)"

text \<open>What an entry says: everything but its signature.\<close>

definition entry_content :: "AuditRow \<Rightarrow> AuditRow" where
  "entry_content r = r\<lparr>ar_signature := None\<rparr>"

text \<open>The log as verification sees it: entries with different ids whose order by time is a chain.\<close>

definition audit_ok :: "audit_lib \<Rightarrow> kms_db \<Rightarrow> bool" where
  "audit_ok lib db = (distinct (map ar_id (audit_tbl db))
     \<and> chain_ok lib GENESIS_HASH (order_by audit_le (audit_tbl db))
     \<and> (\<forall>r\<in>set (audit_tbl db). ar_signature r = None))"

definition newest_or_genesis :: "AuditRow list \<Rightarrow> string" where
  "newest_or_genesis rows = (case newest_hash rows of None \<Rightarrow> GENESIS_HASH | Some h \<Rightarrow> h)"

definition stored_entry :: "audit_lib \<Rightarrow> db_env \<Rightarrow> string \<Rightarrow> AuditLog \<Rightarrow> AuditRow" where
  "stored_entry lib env prev_hash log =
     (chained_row lib prev_hash log)\<lparr>ar_created_at := env_store_time env (al_timestamp log)\<rparr>"

section \<open>A sample log\<close>

instance json :: countable
  by countable_datatype

definition sample_audit_lib :: audit_lib where
  "sample_audit_lib = \<lparr>ad_crypto = sample_lib, ad_json = \<lambda>j. replicate (to_nat j) (CHR ''j''),
     ad_rfc3339 = \<lambda>t. (if t < 0 then CHR ''-'' else CHR ''+'') # replicate (nat \<bar>t\<bar>) (CHR ''t''),
     ad_uuid = \<lambda>i. replicate i (CHR ''u''), ad_b64_decode = \<lambda>_. None, ad_key_from_bytes = \<lambda>b. Some b,
     ad_verify_strict = \<lambda>_ _ _. False\<rparr>"

definition sample_rq :: RequestContext where
  "sample_rq = \<lparr>rq_operation_id = ''op-1'', rq_nonce = None, rq_actor_id = ''svc'', rq_ip = None, rq_user_agent = None\<rparr>"

definition sample_auditor :: AclSettings where
  "sample_auditor = \<lparr>acl_services = [(''auditor'', \<lparr>cfg_service_id = ''auditor'', cfg_secret = [], cfg_allowed_access = [],
     cfg_allowed_actions = Some [AuditVerify]\<rparr>)]\<rparr>"

definition sample_entry :: AuditLog where
  "sample_entry = audit_log_of sample_audit_lib
     (new_canonical_entry 1 5000 sample_rq GenerateKey Success None GENESIS_HASH AES256GCM) None AES256GCM"

definition sample_log :: kms_db where
  "sample_log = empty_db\<lparr>audit_tbl := audit_tbl empty_db
     @ [stored_entry sample_audit_lib sample_env (newest_or_genesis (audit_tbl empty_db)) sample_entry]\<rparr>"

section \<open>Lemmas\<close>

subsection \<open>Payloads\<close>

lemma opt_json_inject [simp]: "opt_json x = opt_json y \<longleftrightarrow> x = y"
  by (cases x; cases y) simp_all

lemma hash_payload_inject:
  assumes "hash_payload lib V1 x = hash_payload lib V1 y" "inj (ad_rfc3339 lib)"
  shows "x = y"
proof -
  let ?m = "\<lambda>x. map_of (rev
       [(''action'', JStr (hi_action x)), (''algorithm'', JStr (hi_algorithm x)),
        (''caller_service'', JStr (hi_caller_service x)), (''id'', JStr (hi_id x)),
        (''prev_hash'', JStr (hi_prev_hash x)), (''reason'', opt_json (hi_reason x)),
        (''status'', JStr (hi_status x)), (''target_service'', JStr (hi_target_service x)),
        (''timestamp'', JStr (ad_rfc3339 lib (hi_timestamp x))), (''request_id'', opt_json (hi_request_id x)),
        (''operation_id'', opt_json (hi_operation_id x)), (''target_id'', opt_json (hi_target_id x)),
        (''metadata'', opt_json (hi_metadata x))])"
  have "?m x = ?m y" using assms(1) by (simp only: hash_payload_def CURRENT_def json.inject map_of_btree_of [symmetric]
      not_True_eq_False if_False append_Nil refl)
  then have e: "?m x k = ?m y k" for k by simp
  have "hi_action x = hi_action y" using e [of "''action''"] by simp
  moreover have "hi_algorithm x = hi_algorithm y" using e [of "''algorithm''"] by simp
  moreover have "hi_caller_service x = hi_caller_service y" using e [of "''caller_service''"] by simp
  moreover have "hi_id x = hi_id y" using e [of "''id''"] by simp
  moreover have "hi_prev_hash x = hi_prev_hash y" using e [of "''prev_hash''"] by simp
  moreover have "hi_reason x = hi_reason y" using e [of "''reason''"] by simp
  moreover have "hi_status x = hi_status y" using e [of "''status''"] by simp
  moreover have "hi_target_service x = hi_target_service y" using e [of "''target_service''"] by simp
  moreover have "hi_timestamp x = hi_timestamp y" using e [of "''timestamp''"] assms(2) by (simp add: inj_eq)
  moreover have "hi_request_id x = hi_request_id y" using e [of "''request_id''"] by simp
  moreover have "hi_operation_id x = hi_operation_id y" using e [of "''operation_id''"] by simp
  moreover have "hi_target_id x = hi_target_id y" using e [of "''target_id''"] by simp
  moreover have "hi_metadata x = hi_metadata y" using e [of "''metadata''"] by simp
  ultimately show ?thesis by (cases x; cases y) simp
qed

lemma row_hash_input_inject:
  assumes "row_hash_input lib r = row_hash_input lib q" "inj (ad_uuid lib)"
  shows "r\<lparr>ar_signature := None, ar_hash := h\<rparr> = q\<lparr>ar_signature := None, ar_hash := h\<rparr>"
  using assms by (cases r; cases q) (simp add: row_hash_input_def inj_eq)

lemma compute_audit_hash_payload: "compute_audit_hash lib (row_hash_input lib r) = hash_text lib (entry_payload lib r)"
  by (simp add: compute_audit_hash_def compute_hash_for_version_def entry_payload_def)

text \<open>Two entries with the same recomputed hash say the same, or their texts are a collision.\<close>

lemma same_hash:
  assumes "audit_lib_ok lib" "compute_audit_hash lib (row_hash_input lib r) = compute_audit_hash lib (row_hash_input lib q)"
  shows "r\<lparr>ar_signature := None, ar_hash := h\<rparr> = q\<lparr>ar_signature := None, ar_hash := h\<rparr>
    \<or> collide lib (entry_payload lib r) (entry_payload lib q)"
proof (cases "entry_payload lib r = entry_payload lib q")
  case True
  with assms(1) have "row_hash_input lib r = row_hash_input lib q"
    by (auto simp: entry_payload_def audit_lib_ok_def dest: hash_payload_inject)
  with assms(1) show ?thesis using row_hash_input_inject by (auto simp: audit_lib_ok_def)
next
  case False
  with assms show ?thesis by (simp add: collide_def compute_audit_hash_payload audit_lib_ok_def inj_eq)
qed

subsection \<open>Chains\<close>

lemma chain_end_simps [simp]: "chain_end z [] = z" "chain_end z (xs @ [r]) = ar_hash r"
  by (simp_all add: chain_end_def)

lemma chain_end_Cons: "chain_end z (r # rows) = chain_end (ar_hash r) rows"
  by (simp add: chain_end_def)

lemma chain_ok_append:
  "chain_ok lib z (xs @ [r]) \<longleftrightarrow> chain_ok lib z xs \<and> ar_prev_hash r = chain_end z xs
     \<and> ar_hash r = compute_audit_hash lib (row_hash_input lib r)"
  by (induction xs arbitrary: z) (auto simp: chain_end_Cons)

lemma chain_hashes: "chain_ok lib z rows \<Longrightarrow> r \<in> set rows \<Longrightarrow> ar_hash r = compute_audit_hash lib (row_hash_input lib r)"
  by (induction rows arbitrary: z) auto

lemma same_content:
  assumes "audit_lib_ok lib" "ar_hash r = ar_hash q"
    and "ar_hash r = compute_audit_hash lib (row_hash_input lib r)" "ar_hash q = compute_audit_hash lib (row_hash_input lib q)"
  shows "(entry_content r = entry_content q \<and> ar_prev_hash r = ar_prev_hash q)
    \<or> collide lib (entry_payload lib r) (entry_payload lib q)"
proof -
  have "r\<lparr>ar_signature := None, ar_hash := ar_hash r\<rparr> = q\<lparr>ar_signature := None, ar_hash := ar_hash r\<rparr>
      \<or> collide lib (entry_payload lib r) (entry_payload lib q)"
    by (rule same_hash [OF assms(1)]) (use assms in simp)
  moreover have "entry_content r = entry_content q \<and> ar_prev_hash r = ar_prev_hash q"
    if "r\<lparr>ar_signature := None, ar_hash := ar_hash r\<rparr> = q\<lparr>ar_signature := None, ar_hash := ar_hash r\<rparr>"
    using that assms(2) by (cases r; cases q) (simp add: entry_content_def)
  ultimately show ?thesis by blast
qed

text \<open>The last hash pins the whole chain.\<close>

lemma chains_equal:
  assumes "audit_lib_ok lib" "chain_ok lib z A" "chain_ok lib z B" "chain_end z A = chain_end z B"
  shows "map entry_content A = map entry_content B
    \<or> (\<exists>r\<in>set A. \<exists>q\<in>set B. collide lib (entry_payload lib r) (entry_payload lib q))
    \<or> (\<exists>r\<in>set A \<union> set B. ar_hash r = z)"
  using assms(2-)
proof (induction A arbitrary: B rule: rev_induct)
  case Nil
  then show ?case by (cases B rule: rev_cases) auto
next
  case (snoc r A)
  show ?case
  proof (cases B rule: rev_cases)
    case Nil
    with snoc.prems(3) show ?thesis by simp
  next
    case B: (snoc B' q)
    from snoc.prems B have r: "chain_ok lib z A" "ar_prev_hash r = chain_end z A"
        "ar_hash r = compute_audit_hash lib (row_hash_input lib r)"
      and q: "chain_ok lib z B'" "ar_prev_hash q = chain_end z B'"
        "ar_hash q = compute_audit_hash lib (row_hash_input lib q)" and h: "ar_hash r = ar_hash q"
      by (simp_all add: chain_ok_append)
    from same_content [OF assms(1) h r(3) q(3)] show ?thesis
    proof
      assume "collide lib (entry_payload lib r) (entry_payload lib q)"
      with B show ?thesis by auto
    next
      assume e: "entry_content r = entry_content q \<and> ar_prev_hash r = ar_prev_hash q"
      then have "chain_end z A = chain_end z B'" using r(2) q(2) by simp
      from snoc.IH [OF r(1) q(1) this] e B show ?thesis by auto
    qed
  qed
qed

text \<open>In a valid chain no two entries follow the same predecessor.\<close>

lemma chain_at: "chain_ok lib z (xs @ r # ys) \<Longrightarrow> ar_prev_hash r = chain_end z xs"
  by (induction xs arbitrary: z) (auto simp: chain_end_Cons)

lemma fork_ordered:
  assumes "audit_lib_ok lib" "chain_ok lib z rows" "distinct (map ar_id rows)"
    and rows: "rows = xs @ r # ys @ s # zs" and "ar_prev_hash r = ar_prev_hash s"
  shows "(\<exists>p\<in>set rows. \<exists>q\<in>set rows. collide lib (entry_payload lib p) (entry_payload lib q))
    \<or> (\<exists>p\<in>set rows. ar_hash p = z)"
proof -
  let ?p = "last (r # ys)"
  have pre: "ar_prev_hash r = chain_end z xs" "ar_prev_hash s = chain_end z (xs @ r # ys)"
    using assms(2) chain_at [of lib z xs r "ys @ s # zs"] chain_at [of lib z "xs @ r # ys" s zs] by (simp_all add: rows)
  then have h: "chain_end z xs = ar_hash ?p" using assms(5) by (simp add: chain_end_def)
  have p: "?p \<in> set (r # ys)" by (rule last_in_set) simp
  then have p_rows: "?p \<in> set rows" by (auto simp: rows)
  show ?thesis
  proof (cases xs rule: rev_cases)
    case Nil
    with h p_rows show ?thesis by auto
  next
    case (snoc xs' q)
    then have q: "q \<in> set rows" "q \<in> set xs" by (simp_all add: rows)
    have "ar_id ` set xs \<inter> ar_id ` set (r # ys) = {}" using assms(3) unfolding rows by auto
    with q(2) p have "ar_id q \<noteq> ar_id ?p" by blast
    then have "entry_content q \<noteq> entry_content ?p" by (metis AuditRow.select_convs(1) AuditRow.surjective
        AuditRow.update_convs(10) entry_content_def)
    moreover have "ar_hash q = ar_hash ?p" using h snoc by simp
    ultimately have "collide lib (entry_payload lib q) (entry_payload lib ?p)"
      using same_content [OF assms(1), of q ?p] chain_hashes [OF assms(2)] q(1) p_rows by blast
    with q(1) p_rows show ?thesis by blast
  qed
qed

lemma fork_detected:
  assumes "audit_lib_ok lib" "chain_ok lib z rows" "distinct (map ar_id rows)"
    and "r \<in> set rows" "s \<in> set rows" "r \<noteq> s" "ar_prev_hash r = ar_prev_hash s"
  shows "(\<exists>p\<in>set rows. \<exists>q\<in>set rows. collide lib (entry_payload lib p) (entry_payload lib q))
    \<or> (\<exists>p\<in>set rows. ar_hash p = z)"
proof -
  obtain xs ys where rows: "rows = xs @ r # ys" using split_list [OF assms(4)] by blast
  with assms(5,6) consider "s \<in> set ys" | "s \<in> set xs" by auto
  then show ?thesis
  proof cases
    case 1
    then obtain us zs where "ys = us @ s # zs" using split_list by fastforce
    with rows have "rows = xs @ r # us @ s # zs" by simp
    from fork_ordered [OF assms(1-3) this assms(7)] show ?thesis .
  next
    case 2
    then obtain us zs where "xs = us @ s # zs" using split_list by fastforce
    with rows have "rows = us @ s # zs @ r # ys" by simp
    from fork_ordered [OF assms(1-3) this assms(7) [symmetric]] show ?thesis .
  qed
qed

subsection \<open>The verification loop\<close>

lemma verify_records_chain:
  "verify_records lib pubkeys z rows n = ([], m) \<Longrightarrow> chain_ok lib z rows"
  by (induction rows arbitrary: z n) (auto simp: Let_def split: if_splits)

lemma verify_records_unsigned:
  "chain_ok lib z rows \<Longrightarrow> \<forall>r\<in>set rows. ar_signature r = None \<Longrightarrow>
     verify_records lib pubkeys z rows n = ([], n + length rows)"
  by (induction rows arbitrary: z n) (auto simp: Let_def signature_accepted_def)

lemma verify_records_stops: "length (fst (verify_records lib pubkeys z rows n)) \<le> 1"
  by (induction rows arbitrary: z n) (auto simp: Let_def)

subsection \<open>Ordering\<close>

lemma insort_by_snoc: "le x r \<Longrightarrow> insort_by le x (ys @ [r]) = insort_by le x ys @ [r]"
  by (induction ys) auto

lemma order_by_snoc: "\<forall>x\<in>set xs. le x r \<Longrightarrow> order_by le (xs @ [r]) = order_by le xs @ [r]"
proof -
  assume "\<forall>x\<in>set xs. le x r"
  then have "foldr (insort_by le) xs [r] = foldr (insort_by le) xs [] @ [r]"
    by (induction xs) (auto simp: insort_by_snoc)
  then show ?thesis by (simp add: order_by_def)
qed

lemma length_order_by [simp]: "length (order_by le xs) = length xs"
proof -
  have "length (insort_by le x ys) = Suc (length ys)" for x ys by (induction ys) auto
  then show ?thesis unfolding order_by_def by (induction xs) auto
qed

lemma mset_order_by [simp]: "mset (order_by le xs) = mset xs"
proof -
  have "mset (insort_by le x ys) = add_mset x (mset ys)" for x ys by (induction ys) auto
  then show ?thesis unfolding order_by_def by (induction xs) auto
qed

lemma sorted_order_by:
  assumes "\<And>a b. le a b \<or> le b a" "\<And>a b c. le a b \<Longrightarrow> le b c \<Longrightarrow> le a c"
  shows "sorted_wrt le (order_by le xs)"
proof -
  have "sorted_wrt le (insort_by le x ys)" if "sorted_wrt le ys" for x ys
    using that
  proof (induction ys)
    case (Cons y ys)
    then show ?case using assms(1) [of x y] by (auto intro: assms(2))
  qed simp
  then show ?thesis unfolding order_by_def by (induction xs) auto
qed

lemma audit_le_total: "audit_le a b \<or> audit_le b a"
  by (auto simp: audit_le_def)

lemma audit_le_trans: "audit_le a b \<Longrightarrow> audit_le b c \<Longrightarrow> audit_le a c"
  by (auto simp: audit_le_def)

lemma last_sorted: "sorted_wrt le xs \<Longrightarrow> (\<And>a. le a a) \<Longrightarrow> x \<in> set xs \<Longrightarrow> le x (last xs)"
  by (induction xs) auto

lemma newest_is_chain_end:
  assumes "distinct (map ar_id rows)"
  shows "newest_or_genesis rows = chain_end GENESIS_HASH (order_by audit_le rows)"
proof (cases "rows = []")
  case True
  then show ?thesis by (simp add: newest_or_genesis_def newest_hash_def order_by_def)
next
  case False
  let ?D = "order_by (\<lambda>a b. audit_le b a) rows" and ?A = "order_by audit_le rows"
  have "length ?D = length rows" by (rule length_order_by)
  with False obtain y ys where D: "?D = y # ys" by (cases ?D) auto
  have "set ?D = set rows" by (rule set_order_by)
  then have rows: "set rows = insert y (set ys)" using D by simp
  have "sorted_wrt (\<lambda>a b. audit_le b a) ?D"
    by (rule sorted_order_by) (use audit_le_total audit_le_trans in blast)+
  with D have y: "audit_le x y" if "x \<in> set rows" for x
    using that by (auto simp: rows audit_le_def)
  have "length ?A = length rows" by (rule length_order_by)
  with False have A: "?A \<noteq> []" by (metis length_0_conv)
  have "last ?A \<in> set ?A" using A by (rule last_in_set)
  then have m: "last ?A \<in> set rows" by simp
  have sorted: "sorted_wrt audit_le ?A" by (rule sorted_order_by [OF audit_le_total audit_le_trans])
  have y_A: "y \<in> set ?A" using rows by simp
  have "audit_le y (last ?A)" by (rule last_sorted [OF sorted _ y_A]) (simp add: audit_le_def)
  with y [OF m] have "ar_id y = ar_id (last ?A)" unfolding audit_le_def by linarith
  moreover have "inj_on ar_id (set rows)" using assms by (simp add: distinct_map)
  moreover have "y \<in> set rows" using rows by simp
  ultimately have "y = last ?A" using m by (simp add: inj_on_eq_iff)
  with A D show ?thesis by (simp add: newest_or_genesis_def newest_hash_def chain_end_def)
qed

subsection \<open>Recording\<close>

lemma read_prev_hash_Inr:
  "read_prev_hash env db = (Inr h, db1) \<longleftrightarrow>
     (\<exists>p. latest_hash db = (Inr p, db1) \<and> h = (case p of None \<Rightarrow> GENESIS_HASH | Some x \<Rightarrow> x))"
  by (auto simp: read_prev_hash_def bindE_eq_Inr_iff map_errE_Inr_iff)

lemma read_prev_hash_newest:
  assumes "read_prev_hash env db = (Inr h, db1)"
  shows "h = newest_or_genesis (audit_tbl db)" "db1 = db\<lparr>db_faults := tl (db_faults db)\<rparr>"
proof -
  from assms obtain p where p: "latest_hash db = (Inr p, db1)" "h = (case p of None \<Rightarrow> GENESIS_HASH | Some x \<Rightarrow> x)"
    by (auto simp: read_prev_hash_Inr)
  from p(1) have "p = newest_hash (audit_tbl db1) \<and> db1 = db\<lparr>db_faults := tl (db_faults db)\<rparr>"
    unfolding latest_hash_def by (rule query_Inr)
  with p(2) show "h = newest_or_genesis (audit_tbl db)" "db1 = db\<lparr>db_faults := tl (db_faults db)\<rparr>"
    by (simp_all add: newest_or_genesis_def)
qed

lemma chained_row_fields [simp]:
  "ar_id (chained_row lib prev log) = al_id log" "ar_created_at (chained_row lib prev log) = al_timestamp log"
  "ar_prev_hash (chained_row lib prev log) = prev" "ar_signature (chained_row lib prev log) = None"
  "ar_metadata (chained_row lib prev log) = al_metadata log"
  "ar_reason (chained_row lib prev log) = sanitize_reason (al_reason log)"
  "ar_status (chained_row lib prev log) = status_as_str (al_status log)"
  "ar_action (chained_row lib prev log) = action_debug (al_action log)"
  by (simp_all add: chained_row_def Let_def)

lemma chained_row_hash:
  "ar_hash (chained_row lib prev log) = compute_audit_hash lib (row_hash_input lib (chained_row lib prev log))"
  by (simp add: chained_row_def Let_def row_hash_input_def)

lemma insert_chained_Inr:
  assumes "insert_chained lib env log prev db = (Inr u, db')"
  shows "al_id log \<notin> ar_id ` set (audit_tbl db)"
    "db' = db\<lparr>db_faults := tl (db_faults db), audit_tbl := audit_tbl db @ [stored_entry lib env prev log]\<rparr>"
  using assms by (auto simp: insert_chained_def map_errE_Inr_iff insert_audit_def stored_entry_def
      dest!: exec_Inr split: if_splits)

lemma pg_audit_record_Inr:
  assumes "pg_audit_record lib env log db = (Inr u, db')"
  shows "al_id log \<notin> ar_id ` set (audit_tbl db)"
    "db' = db\<lparr>db_faults := tl (tl (db_faults db)),
       audit_tbl := audit_tbl db @ [stored_entry lib env (newest_or_genesis (audit_tbl db)) log]\<rparr>"
proof -
  from assms obtain h db1 where r: "read_prev_hash env db = (Inr h, db1)" "insert_chained lib env log h db1 = (Inr u, db')"
    by (auto simp: pg_audit_record_def bindE_eq_Inr_iff)
  note p = read_prev_hash_newest [OF r(1)] and i = insert_chained_Inr [OF r(2)]
  from i(1) p(2) show "al_id log \<notin> ar_id ` set (audit_tbl db)" by simp
  from i(2) p show "db' = db\<lparr>db_faults := tl (tl (db_faults db)),
       audit_tbl := audit_tbl db @ [stored_entry lib env (newest_or_genesis (audit_tbl db)) log]\<rparr>" by simp
qed

lemma record_keeps_audit_ok:
  assumes "audit_ok lib db" "pg_audit_record lib env log db = (Inr u, db')"
    and "env_store_time env (al_timestamp log) = al_timestamp log"
    and "\<forall>r\<in>set (audit_tbl db). ar_created_at r < al_timestamp log"
  shows "audit_ok lib db'"
proof -
  let ?prev = "newest_or_genesis (audit_tbl db)"
  let ?row = "stored_entry lib env ?prev log"
  note run = pg_audit_record_Inr [OF assms(2)]
  have row: "stored_entry lib env p log = chained_row lib p log" for p
    using assms(3) by (cases "chained_row lib p log") (simp add: stored_entry_def chained_row_def Let_def)
  have "order_by audit_le (audit_tbl db @ [?row]) = order_by audit_le (audit_tbl db) @ [?row]"
    using assms(4) by (intro order_by_snoc) (simp add: row audit_le_def)
  moreover have "?prev = chain_end GENESIS_HASH (order_by audit_le (audit_tbl db))"
    using assms(1) by (intro newest_is_chain_end) (simp add: audit_ok_def)
  ultimately have "chain_ok lib GENESIS_HASH (order_by audit_le (audit_tbl db @ [?row]))"
    using assms(1) by (simp add: chain_ok_append audit_ok_def row chained_row_hash)
  with assms(1) run show ?thesis by (auto simp: audit_ok_def row)
qed

subsection \<open>The handler\<close>

lemma verify_full_chain:
  assumes "verify_audit_handler lib env acl caller lim (Some True) db = (Inr rep, db')" "vr_ok rep"
  shows "chain_ok lib GENESIS_HASH (order_by audit_le (audit_tbl db))"
proof -
  from assms(1) obtain rows db1 where q: "list_recent (Some (case lim of None \<Rightarrow> 1000 | Some l \<Rightarrow> l)) True db = (Inr rows, db1)"
    and run: "(if rows = [] then returnE \<lparr>vr_ok = True, vr_total_checked = 0, vr_ok_count = 0, vr_errors = []\<rparr>
      else bindE (map_errE (db_error env) active_signing_public_keys) (\<lambda>signing_keys.
        let pubkeys = List.map_filter (parse_ed25519_pub_from_pem lib) signing_keys;
            (errors, ok_count) = verify_records lib pubkeys GENESIS_HASH rows 0 in
        returnE \<lparr>vr_ok = (errors = []), vr_total_checked = ok_count + length errors, vr_ok_count = ok_count,
                 vr_errors = errors\<rparr>)) db1 = (Inr rep, db')"
    by (auto simp: verify_audit_handler_def bindE_eq_Inr_iff map_errE_Inr_iff Let_def split: if_splits)
  from q have rows: "rows = order_by audit_le (audit_tbl db)"
    by (auto simp: list_recent_def dest!: query_Inr)
  show ?thesis
  proof (cases "rows = []")
    case False
    obtain keys db2 where
      "(let pubkeys = List.map_filter (parse_ed25519_pub_from_pem lib) keys;
            (errors, ok_count) = verify_records lib pubkeys GENESIS_HASH rows 0 in
        returnE \<lparr>vr_ok = (errors = []), vr_total_checked = ok_count + length errors, vr_ok_count = ok_count,
                 vr_errors = errors\<rparr>) db2 = ((Inr rep :: AppError + VerifyReport), db')"
      using run unfolding if_not_P [OF False] bindE_eq_Inr_iff by blast
    with assms(2) show ?thesis
      by (auto simp: Let_def rows split: prod.splits dest: verify_records_chain)
  qed (use rows in simp)
qed

lemma verify_full_unsigned:
  assumes "audit_ok lib db" "db_faults db = []" "settings_has_control_action acl caller AuditVerify"
  shows "\<exists>rep. verify_audit_handler lib env acl caller lim (Some True) db = (Inr rep, db)
    \<and> vr_ok rep \<and> vr_ok_count rep = length (audit_tbl db)"
proof -
  let ?rows = "order_by audit_le (audit_tbl db)"
  have v: "verify_records lib pk GENESIS_HASH ?rows 0 = ([], length (audit_tbl db))" for pk
    using assms(1) verify_records_unsigned [of lib GENESIS_HASH ?rows pk 0] by (simp add: audit_ok_def)
  have "?rows = [] \<longleftrightarrow> audit_tbl db = []" using length_order_by [of audit_le "audit_tbl db"] by (metis length_0_conv)
  then show ?thesis
    using assms(2,3) by (simp add: verify_audit_handler_def list_recent_def active_signing_public_keys_def
        query_no_faults map_errE_def bindE_def v)
qed

lemma record_runs:
  assumes "db_faults db = []" "al_id log \<notin> ar_id ` set (audit_tbl db)"
  shows "pg_audit_record lib env log db
    = (Inr (), db\<lparr>audit_tbl := audit_tbl db @ [stored_entry lib env (newest_or_genesis (audit_tbl db)) log]\<rparr>)"
  using assms by (simp add: pg_audit_record_def read_prev_hash_def latest_hash_def insert_chained_def insert_audit_def
      query_no_faults exec_no_faults map_errE_def bindE_def newest_or_genesis_def stored_entry_def)

section \<open>Properties\<close>

text \<open>C37: Recording keeps the log verifiable.  When the log verifies, the clock has moved past every entry and its
  reading is one the timestamp column keeps exactly, then recording an event succeeds and the full verification
  reports all entries, the new one included, as valid.\<close>

theorem recorded_entry_verifies:
  assumes "audit_ok lib db" "db_faults db = []" "new_id \<notin> ar_id ` set (audit_tbl db)"
    and "env_store_time env now = now" "\<forall>r\<in>set (audit_tbl db). ar_created_at r < now"
    and "settings_has_control_action acl caller AuditVerify"
  shows "\<exists>db' rep. record_internal lib env new_id now ctx action status details reason algorithm db = (Inr (), db')
    \<and> audit_ok lib db' \<and> verify_audit_handler lib env acl caller lim (Some True) db' = (Inr rep, db')
    \<and> vr_ok rep \<and> vr_ok_count rep = Suc (length (audit_tbl db))"
proof -
  let ?log = "audit_log_of lib (new_canonical_entry new_id now ctx action status details GENESIS_HASH algorithm) reason algorithm"
  have log: "al_id ?log = new_id" "al_timestamp ?log = now" by (simp_all add: audit_log_of_def new_canonical_entry_def)
  let ?db' = "db\<lparr>audit_tbl := audit_tbl db @ [stored_entry lib env (newest_or_genesis (audit_tbl db)) ?log]\<rparr>"
  have run: "pg_audit_record lib env ?log db = (Inr (), ?db')"
    by (rule record_runs) (use assms log in auto)
  have ok: "audit_ok lib ?db'" by (rule record_keeps_audit_ok [OF assms(1) run]) (use assms log in auto)
  have "db_faults ?db' = []" using assms(2) by simp
  from verify_full_unsigned [OF ok this assms(6)] run ok show ?thesis
    by (auto simp: record_internal_def)
qed

text \<open>C38: Tampering shows.  If two logs both pass the full verification and end in the same hash, they contain the
  same entries, signatures apart, unless two different entry texts among them have the same SHA-256 digest or some
  entry hashes to the all-zero anchor.\<close>

theorem tampered_log_detected:
  assumes "audit_lib_ok lib"
    and "verify_audit_handler lib env acl caller lim (Some True) db = (Inr rep, db1)" "vr_ok rep"
    and "verify_audit_handler lib env' acl' caller' lim' (Some True) tampered = (Inr rep', db2)" "vr_ok rep'"
    and "chain_end GENESIS_HASH (order_by audit_le (audit_tbl db))
      = chain_end GENESIS_HASH (order_by audit_le (audit_tbl tampered))"
  shows "map entry_content (order_by audit_le (audit_tbl db)) = map entry_content (order_by audit_le (audit_tbl tampered))
    \<or> (\<exists>r\<in>set (audit_tbl db). \<exists>q\<in>set (audit_tbl tampered). collide lib (entry_payload lib r) (entry_payload lib q))
    \<or> (\<exists>r\<in>set (audit_tbl db) \<union> set (audit_tbl tampered). ar_hash r = GENESIS_HASH)"
  using chains_equal [OF assms(1) verify_full_chain [OF assms(2,3)] verify_full_chain [OF assms(4,5)] assms(6)]
  by simp


text \<open>C40: The repository reads the newest hash and inserts in two statements without a lock.  When two recordings
  both read before either inserts, both entries follow the same predecessor, and the full verification of the
  resulting log never reports success, unless two entry texts have the same digest or an entry hashes to the
  anchor.\<close>

theorem concurrent_records_fork_chain:
  assumes "audit_lib_ok lib" "distinct (map ar_id (audit_tbl db))"
    and "read_prev_hash env db = (Inr h1, db1)" "read_prev_hash env db1 = (Inr h2, db2)"
    and "insert_chained lib env log1 h1 db2 = (Inr (), db3)" "insert_chained lib env log2 h2 db3 = (Inr (), db4)"
    and "verify_audit_handler lib env' acl caller lim (Some True) db4 = (Inr rep, db5)"
  shows "\<not> vr_ok rep
    \<or> (\<exists>p\<in>set (audit_tbl db4). \<exists>q\<in>set (audit_tbl db4). collide lib (entry_payload lib p) (entry_payload lib q))
    \<or> (\<exists>p\<in>set (audit_tbl db4). ar_hash p = GENESIS_HASH)"
proof (cases "vr_ok rep")
  case True
  note r1 = read_prev_hash_newest [OF assms(3)] and r2 = read_prev_hash_newest [OF assms(4)]
  note i1 = insert_chained_Inr [OF assms(5)] and i2 = insert_chained_Inr [OF assms(6)]
  let ?a = "stored_entry lib env h1 log1" and ?b = "stored_entry lib env h2 log2"
  have h: "h1 = h2" using r1 r2 by simp
  have tbl: "audit_tbl db4 = audit_tbl db @ [?a, ?b]" using r1 r2 i1 i2 by simp
  have ids: "ar_id ?a = al_id log1" "ar_id ?b = al_id log2" "ar_prev_hash ?a = h1" "ar_prev_hash ?b = h2"
    by (simp_all add: stored_entry_def)
  have "al_id log1 \<notin> ar_id ` set (audit_tbl db)" "al_id log2 \<notin> ar_id ` set (audit_tbl db) \<union> {al_id log1}"
    using i1 i2 r1 r2 ids by auto
  then have dist: "distinct (map ar_id (audit_tbl db4))" using assms(2) by (auto simp: tbl ids)
  let ?rows = "order_by audit_le (audit_tbl db4)"
  have "distinct (map ar_id ?rows)"
    using dist by (metis mset_order_by mset_map mset_eq_imp_distinct_iff)
  moreover have "?a \<noteq> ?b" using dist by (auto simp: tbl)
  moreover have "?a \<in> set ?rows" "?b \<in> set ?rows" by (simp_all add: tbl)
  ultimately show ?thesis
    using fork_detected [OF assms(1) verify_full_chain [OF assms(7) True]] h ids by auto
qed simp

text \<open>A recorded failure has its reason redacted: none of the sensitive words occurs in the reason column,
  in any letter case, and redacting it again changes nothing.  The metadata column of the same entry holds the
  reason as it was given.\<close>

theorem failure_reason_redacted_and_kept:
  assumes "record_failure lib env new_id now ctx action reason db = (Inr (), db')" "trim reason \<noteq> []"
  shows "\<exists>row s. audit_tbl db' = audit_tbl db @ [row] \<and> ar_reason row = Some s
    \<and> (\<forall>kw\<in>set SENSITIVE_KEYWORDS. \<not> contains_sub (to_ascii_lowercase s) kw) \<and> sanitize_reason (Some s) = Some s
    \<and> ar_metadata row = Some (ad_json lib (JStr reason))"
proof -
  let ?s = "redact 0 reason"
  have c: "clean (length SENSITIVE_KEYWORDS) ?s" by (rule redact_clean) (simp add: clean_def)
  then have kw: "\<forall>kw\<in>set SENSITIVE_KEYWORDS. \<not> contains_sub (to_ascii_lowercase ?s) kw"
    by (auto simp: clean_def in_set_conv_nth)
  have "trim ?s \<noteq> []" using assms(2) redact_nonblank [of reason 0] by (auto simp: trim_eq_Nil_iff)
  then have again: "sanitize_reason (Some ?s) = Some ?s" by (simp add: sanitize_reason_cases redact_id [OF c])
  have first: "sanitize_reason (Some reason) = Some ?s" using assms(2) by (simp add: sanitize_reason_cases)
  let ?log = "audit_log_of lib (new_canonical_entry new_id now ctx action Failure (Some (JStr reason)) GENESIS_HASH AES256GCM)
    (Some ?s) AES256GCM"
  from assms(1) have "pg_audit_record lib env ?log db = (Inr (), db')"
    by (simp add: record_failure_def record_internal_def first)
  from pg_audit_record_Inr(2) [OF this]
  have "audit_tbl db' = audit_tbl db @ [stored_entry lib env (newest_or_genesis (audit_tbl db)) ?log]" by simp
  moreover have "ar_reason (stored_entry lib env p ?log) = Some ?s"
      "ar_metadata (stored_entry lib env p ?log) = Some (ad_json lib (JStr reason))" for p
    by (simp_all add: stored_entry_def again audit_log_of_def new_canonical_entry_def sanitize_details_def
        redacted_scalar_def)
  ultimately show ?thesis using kw again by blast
qed

section \<open>Witnesses\<close>

lemma sample_audit_lib_ok: "audit_lib_ok sample_audit_lib"
proof -
  have rep: "replicate n c = replicate m c \<longleftrightarrow> n = m" for n m and c :: char by (metis length_replicate)
  have "inj (ad_rfc3339 sample_audit_lib)"
  proof (rule injI)
    fix x y assume "ad_rfc3339 sample_audit_lib x = ad_rfc3339 sample_audit_lib y"
    then show "x = y" by (auto simp: sample_audit_lib_def rep split: if_splits)
  qed
  moreover have "inj (ad_json sample_audit_lib)" by (auto simp: sample_audit_lib_def inj_def rep)
  moreover have "inj (ad_uuid sample_audit_lib)" by (auto simp: sample_audit_lib_def inj_def rep)
  ultimately show ?thesis by (simp add: audit_lib_ok_def)
qed

lemma sample_auditor_allowed: "settings_has_control_action sample_auditor ''auditor'' AuditVerify"
  by (simp add: settings_has_control_action_def sample_auditor_def)

lemma empty_audit_ok: "audit_ok lib empty_db" "db_faults empty_db = []" "audit_tbl empty_db = []"
  by (simp_all add: audit_ok_def empty_db_def order_by_def)

lemma sample_store_time: "env_store_time sample_env 5000 = 5000" "\<forall>t. env_store_time sample_env t mod 1000 = 0"
  by (simp_all add: sample_env_def minus_mod_eq_mult_div)

lemma verify_returns:
  assumes "db_faults db = []" "settings_has_control_action acl caller AuditVerify"
  shows "\<exists>rep. verify_audit_handler lib env acl caller lim (Some True) db = (Inr rep, db)"
  using assms by (auto simp: verify_audit_handler_def list_recent_def active_signing_public_keys_def
      query_no_faults map_errE_def bindE_def Let_def split: prod.split)

theorem recorded_entry_verifies_witness:
  "\<exists>db' rep. record_internal sample_audit_lib sample_env 1 5000 sample_rq GenerateKey Success None None AES256GCM empty_db
      = (Inr (), db')
    \<and> audit_ok sample_audit_lib db' \<and> verify_audit_handler sample_audit_lib sample_env sample_auditor ''auditor'' None
        (Some True) db' = (Inr rep, db') \<and> vr_ok rep \<and> vr_ok_count rep = Suc (length (audit_tbl empty_db))"
  by (rule recorded_entry_verifies)
     (simp_all add: empty_audit_ok sample_store_time sample_auditor_allowed)

lemma sample_log_verifies:
  "\<exists>rep. verify_audit_handler sample_audit_lib sample_env sample_auditor ''auditor'' None (Some True) sample_log
     = (Inr rep, sample_log) \<and> vr_ok rep"
proof -
  have run: "pg_audit_record sample_audit_lib sample_env sample_entry empty_db = (Inr (), sample_log)"
    unfolding sample_log_def by (rule record_runs) (simp_all add: empty_audit_ok)
  have time: "al_timestamp sample_entry = 5000"
    by (simp add: sample_entry_def audit_log_of_def new_canonical_entry_def)
  have "audit_ok sample_audit_lib sample_log"
    by (rule record_keeps_audit_ok [OF empty_audit_ok(1) run]) (simp_all add: time sample_store_time empty_audit_ok)
  then show ?thesis
    using verify_full_unsigned [of sample_audit_lib sample_log sample_auditor "''auditor''" sample_env None]
    by (auto simp: sample_log_def empty_audit_ok sample_auditor_allowed)
qed

theorem tampered_log_detected_witness:
  "\<exists>rep. verify_audit_handler sample_audit_lib sample_env sample_auditor ''auditor'' None (Some True) sample_log
      = (Inr rep, sample_log) \<and> vr_ok rep
    \<and> (map entry_content (order_by audit_le (audit_tbl sample_log)) = map entry_content (order_by audit_le (audit_tbl sample_log))
      \<or> (\<exists>r\<in>set (audit_tbl sample_log). \<exists>q\<in>set (audit_tbl sample_log).
          collide sample_audit_lib (entry_payload sample_audit_lib r) (entry_payload sample_audit_lib q))
      \<or> (\<exists>r\<in>set (audit_tbl sample_log) \<union> set (audit_tbl sample_log). ar_hash r = GENESIS_HASH))"
proof -
  from sample_log_verifies obtain rep where
    v: "verify_audit_handler sample_audit_lib sample_env sample_auditor ''auditor'' None (Some True) sample_log
      = (Inr rep, sample_log)" "vr_ok rep" by blast
  from tampered_log_detected [OF sample_audit_lib_ok v v refl] v show ?thesis by blast
qed


lemma read_prev_hash_runs: "db_faults db = [] \<Longrightarrow> read_prev_hash env db = (Inr (newest_or_genesis (audit_tbl db)), db)"
  by (simp add: read_prev_hash_def latest_hash_def query_no_faults map_errE_def bindE_def newest_or_genesis_def)

lemma insert_chained_runs:
  "db_faults db = [] \<Longrightarrow> al_id log \<notin> ar_id ` set (audit_tbl db)
    \<Longrightarrow> insert_chained lib env log h db = (Inr (), db\<lparr>audit_tbl := audit_tbl db @ [stored_entry lib env h log]\<rparr>)"
  by (simp add: insert_chained_def insert_audit_def exec_no_faults map_errE_def stored_entry_def)

theorem concurrent_records_fork_chain_witness:
  "\<exists>db3 db4 rep. read_prev_hash sample_env empty_db = (Inr GENESIS_HASH, empty_db)
    \<and> insert_chained sample_audit_lib sample_env sample_entry GENESIS_HASH empty_db = (Inr (), db3)
    \<and> insert_chained sample_audit_lib sample_env (sample_entry\<lparr>al_id := 2\<rparr>) GENESIS_HASH db3 = (Inr (), db4)
    \<and> verify_audit_handler sample_audit_lib sample_env sample_auditor ''auditor'' None (Some True) db4 = (Inr rep, db4)
    \<and> (\<not> vr_ok rep
      \<or> (\<exists>p\<in>set (audit_tbl db4). \<exists>q\<in>set (audit_tbl db4).
          collide sample_audit_lib (entry_payload sample_audit_lib p) (entry_payload sample_audit_lib q))
      \<or> (\<exists>p\<in>set (audit_tbl db4). ar_hash p = GENESIS_HASH))"
proof -
  let ?e2 = "sample_entry\<lparr>al_id := 2\<rparr>"
  let ?db3 = "empty_db\<lparr>audit_tbl := audit_tbl empty_db @ [stored_entry sample_audit_lib sample_env GENESIS_HASH sample_entry]\<rparr>"
  let ?db4 = "?db3\<lparr>audit_tbl := audit_tbl ?db3 @ [stored_entry sample_audit_lib sample_env GENESIS_HASH ?e2]\<rparr>"
  have id: "al_id sample_entry = 1" by (simp add: sample_entry_def audit_log_of_def new_canonical_entry_def)
  have "newest_or_genesis (audit_tbl empty_db) = GENESIS_HASH"
    by (simp add: empty_audit_ok newest_or_genesis_def newest_hash_def order_by_def)
  then have r: "read_prev_hash sample_env empty_db = (Inr GENESIS_HASH, empty_db)"
    using read_prev_hash_runs [OF empty_audit_ok(2)] by simp
  have i1: "insert_chained sample_audit_lib sample_env sample_entry GENESIS_HASH empty_db = (Inr (), ?db3)"
    by (rule insert_chained_runs) (simp_all add: empty_audit_ok)
  have i2: "insert_chained sample_audit_lib sample_env ?e2 GENESIS_HASH ?db3 = (Inr (), ?db4)"
    by (rule insert_chained_runs) (simp_all add: empty_audit_ok id stored_entry_def)
  have "db_faults ?db4 = []" by (simp add: empty_audit_ok)
  from verify_returns [OF this sample_auditor_allowed] obtain rep where
    v: "verify_audit_handler sample_audit_lib sample_env sample_auditor ''auditor'' None (Some True) ?db4 = (Inr rep, ?db4)"
    by blast
  have "distinct (map ar_id (audit_tbl empty_db))" by (simp add: empty_audit_ok)
  from concurrent_records_fork_chain [OF sample_audit_lib_ok this r r i1 i2 v] r i1 i2 v show ?thesis by blast
qed

theorem failure_reason_redacted_and_kept_witness:
  "\<exists>db' row s. record_failure sample_audit_lib sample_env 1 5000 sample_rq GenerateKey ''bad Password'' empty_db = (Inr (), db')
    \<and> audit_tbl db' = audit_tbl empty_db @ [row] \<and> ar_reason row = Some s
    \<and> (\<forall>kw\<in>set SENSITIVE_KEYWORDS. \<not> contains_sub (to_ascii_lowercase s) kw) \<and> sanitize_reason (Some s) = Some s
    \<and> ar_metadata row = Some (ad_json sample_audit_lib (JStr ''bad Password''))"
proof -
  obtain db' where run:
    "record_failure sample_audit_lib sample_env 1 5000 sample_rq GenerateKey ''bad Password'' empty_db = (Inr (), db')"
    unfolding record_failure_def record_internal_def
    using record_runs [OF empty_audit_ok(2)] by (auto simp: empty_audit_ok)
  have "trim ''bad Password'' \<noteq> []" by code_simp
  from failure_reason_redacted_and_kept [OF run this] run show ?thesis by blast
qed

end
