(* ===== verification/Key_Cache.thy ===== *)
theory Key_Cache
  imports "HOL-Library.AList" Kms_Types
begin

text \<open>The in-memory cache of decrypted keys (\<^verbatim>\<open>KeyCache\<close> of \<^verbatim>\<open>kms-service/src/server/state.rs\<close>).  The hash map is
  an association list with distinct keys; nothing panics while the lock is held, so it is never poisoned.
  The contract of the cache, and when it agrees with the keys it caches, is the locale \<^verbatim>\<open>slot_cache\<close>.\<close>

section \<open>The cache\<close>

record KeyCacheKey =
  kck_target_service :: service_id
  kck_algorithm :: KeyAlgorithm

record CachedKeyValue =
  ckv_version :: u32
  ckv_bytes :: bytes

type_synonym KeyCache = "(KeyCacheKey \<times> CachedKeyValue) list"

definition cache_new :: KeyCache where
  "cache_new = []"

definition with_key :: "service_id \<Rightarrow> KeyAlgorithm \<Rightarrow> (u32 \<Rightarrow> bytes \<Rightarrow> 'r) \<Rightarrow> KeyCache \<Rightarrow> 'r option" where
  "with_key target_service algorithm f entries =
     (let key = \<lparr>kck_target_service = target_service, kck_algorithm = algorithm\<rparr> in
      case map_of entries key of
        None \<Rightarrow> None
      | Some value \<Rightarrow> Some (f (ckv_version value) (ckv_bytes value)))"

definition cache_insert :: "service_id \<Rightarrow> KeyAlgorithm \<Rightarrow> u32 \<Rightarrow> bytes \<Rightarrow> KeyCache \<Rightarrow> KeyCache" where
  "cache_insert target_service algorithm version value entries =
     AList.update \<lparr>kck_target_service = target_service, kck_algorithm = algorithm\<rparr>
       \<lparr>ckv_version = version, ckv_bytes = value\<rparr> entries"

definition cache_remove :: "service_id \<Rightarrow> KeyAlgorithm \<Rightarrow> KeyCache \<Rightarrow> KeyCache" where
  "cache_remove target_service algorithm entries =
     AList.delete \<lparr>kck_target_service = target_service, kck_algorithm = algorithm\<rparr> entries"

definition remove_all_for_service :: "service_id \<Rightarrow> KeyCache \<Rightarrow> KeyCache" where
  "remove_all_for_service target_service entries =
     (let ks = filter (\<lambda>k. kck_target_service k = target_service) (map fst entries) in
      fold AList.delete ks entries)"

definition cache_clear :: "KeyCache \<Rightarrow> KeyCache" where
  "cache_clear entries = []"

definition keys_snapshot :: "KeyCache \<Rightarrow> KeyCacheKey list" where
  "keys_snapshot entries = map fst entries"

section \<open>The contract\<close>

text \<open>What is cached for a service and an algorithm.\<close>

definition cached :: "KeyCache \<Rightarrow> service_id \<times> KeyAlgorithm \<Rightarrow> (u32 \<times> bytes) option" where
  "cached entries s = with_key (fst s) (snd s) Pair entries"

definition cache_ok :: "KeyCache \<Rightarrow> bool" where
  "cache_ok entries = distinct (map fst entries)"

text \<open>A cache of slots grouped by an owner.  It agrees with a source of values when everything it holds is what the
  source has.\<close>

locale slot_cache =
  fixes inv :: "'c \<Rightarrow> bool"
    and look :: "'c \<Rightarrow> 's \<Rightarrow> 'v option"
    and put :: "'s \<Rightarrow> 'v \<Rightarrow> 'c \<Rightarrow> 'c"
    and drop_slot :: "'s \<Rightarrow> 'c \<Rightarrow> 'c"
    and drop_owner :: "'o \<Rightarrow> 'c \<Rightarrow> 'c"
    and owner :: "'s \<Rightarrow> 'o"
    and void :: "'c"
  assumes look_void: "look void = (\<lambda>_. None)" and inv_void: "inv void"
    and look_put: "look (put s v c) = (look c)(s \<mapsto> v)" and inv_put: "inv c \<Longrightarrow> inv (put s v c)"
    and look_drop: "look (drop_slot s c) = (look c)(s := None)" and inv_drop: "inv c \<Longrightarrow> inv (drop_slot s c)"
    and look_drop_owner: "look (drop_owner w c) = (\<lambda>s. if owner s = w then None else look c s)"
    and inv_drop_owner: "inv c \<Longrightarrow> inv (drop_owner w c)"
begin

lemma agree_void: "look void \<subseteq>\<^sub>m src"
  by (simp add: look_void map_le_def)

lemma agree_put: "look c \<subseteq>\<^sub>m src \<Longrightarrow> src s = Some v \<Longrightarrow> look (put s v c) \<subseteq>\<^sub>m src"
  by (auto simp: look_put map_le_def)

text \<open>Changing the source at a slot needs that slot dropped.\<close>

lemma agree_drop: "look c \<subseteq>\<^sub>m src \<Longrightarrow> look (drop_slot s c) \<subseteq>\<^sub>m src(s := x)"
  by (auto simp: look_drop map_le_def)

lemma agree_drop_owner: "look c \<subseteq>\<^sub>m src \<Longrightarrow> owner s = w \<Longrightarrow> look (drop_owner w c) \<subseteq>\<^sub>m src(s := x)"
  by (auto simp: look_drop_owner map_le_def split: if_splits)

text \<open>Without the drop, an entry that is present and differs from the new value is served stale.\<close>

lemma stale_without_drop: "look c s = Some old \<Longrightarrow> old \<noteq> v \<Longrightarrow> \<not> look c \<subseteq>\<^sub>m src(s \<mapsto> v)"
  by (auto simp: map_le_def)

end

section \<open>Lemmas\<close>

lemma with_key_cached: "with_key t a f c = map_option (\<lambda>(v, b). f v b) (cached c (t, a))"
  by (simp add: with_key_def cached_def Let_def split: option.split)

lemma cached_map_of:
  "cached c s = map_option (\<lambda>v. (ckv_version v, ckv_bytes v))
     (map_of c \<lparr>kck_target_service = fst s, kck_algorithm = snd s\<rparr>)"
  by (simp add: cached_def with_key_def Let_def split: option.split)

lemma map_of_fold_delete:
  "map_of (fold AList.delete ks c) k = (if k \<in> set ks then None else map_of c k)"
proof (induction ks arbitrary: c)
  case (Cons a ks)
  then show ?case by (simp add: AList.delete_conv')
qed simp

lemma distinct_fold_delete: "distinct (map fst c) \<Longrightarrow> distinct (map fst (fold AList.delete ks c))"
  by (induction ks arbitrary: c) (simp_all add: AList.distinct_delete)

interpretation key_cache: slot_cache cache_ok cached "\<lambda>s v. cache_insert (fst s) (snd s) (fst v) (snd v)"
  "\<lambda>s. cache_remove (fst s) (snd s)" remove_all_for_service fst cache_new
proof (unfold_locales, goal_cases)
  case 1
  show ?case by (rule ext) (simp add: cached_map_of cache_new_def)
next
  case 2
  show ?case by (simp add: cache_ok_def cache_new_def)
next
  case (3 s v c)
  show ?case by (rule ext) (auto simp: cached_map_of cache_insert_def AList.update_conv' prod_eq_iff)
next
  case (4 c s v)
  then show ?case by (simp add: cache_ok_def cache_insert_def AList.distinct_update)
next
  case (5 s c)
  show ?case by (rule ext) (auto simp: cached_map_of cache_remove_def AList.delete_conv' prod_eq_iff)
next
  case (6 c s)
  then show ?case by (simp add: cache_ok_def cache_remove_def AList.distinct_delete)
next
  case (7 w c)
  have "map_of c k = None" if "k \<notin> fst ` set c" for k using that by (simp add: map_of_eq_None_iff)
  then show ?case
    by (intro ext) (auto simp: cached_map_of remove_all_for_service_def Let_def map_of_fold_delete)
next
  case (8 c w)
  then show ?case by (simp add: cache_ok_def remove_all_for_service_def Let_def distinct_fold_delete)
qed

end
