(* ===== verification/Kms_Service.thy ===== *)
theory Kms_Service
  imports Vhsm_Theorems Key_Repository Audit_Log Key_Cache
begin

text \<open>The running service: its state (database, key cache, the vHSM daemon at the other end of the socket), the
  vHSM client (\<^verbatim>\<open>kms-service/src/infrastructure/crypto/vhsm_client.rs\<close>), the cryptographic service built on it
  (\<^verbatim>\<open>infrastructure/crypto/kms_service.rs\<close>) and the calls to the clock, the random generator, the repository and
  the audit service that the use cases make.  The calls to the outside are numbered; what each of them meets is a
  function of its number, given by the environment.\<close>

section \<open>One exchange with the vHSM\<close>

datatype io_outcome = Done | TimedOut | Failed string

text \<open>What happens to one connection: the outcomes of connecting and of the two writes, how many bytes reach the
  daemon when a write does not complete, whether the daemon has a free task, how that task runs, and how much of its
  reply reaches the client before the stream ends.\<close>

record hop =
  hop_connect :: io_outcome
  hop_header :: io_outcome
  hop_payload :: io_outcome
  hop_sent :: nat
  hop_served :: bool
  hop_ctx :: run_ctx
  hop_partial :: "nat \<Rightarrow> bytes \<Rightarrow> bytes"
  hop_received :: nat
  hop_end :: stream_end

definition daemon_side :: "hsm_lib \<Rightarrow> serde_hsm \<Rightarrow> hop \<Rightarrow> stream \<Rightarrow> VhsmState \<Rightarrow> bytes \<times> VhsmState" where
  "daemon_side lib sd h delivered st =
     (if hop_served h then
        (case serve_connection lib sd (hop_partial h) (hop_ctx h) delivered st of
           (None, st1) \<Rightarrow> ([], st1)
         | (Some bs, st1) \<Rightarrow> (bs, st1))
      else ([], st))"

text \<open>\<^verbatim>\<open>timeout(t, stream.read_exact(buf))\<close> with the two error messages.\<close>

fun read_full :: "nat \<Rightarrow> AppError \<Rightarrow> (string \<Rightarrow> AppError) \<Rightarrow> stream \<Rightarrow> AppError + bytes \<times> stream" where
  "read_full n late err (d, e) =
     (if n \<le> length d then Inr (take n d, (drop n d, e))
      else case e of Stalled \<Rightarrow> Inl late | Closed \<Rightarrow> Inl (err ''early eof''))"

definition read_response :: "serde_hsm \<Rightarrow> stream \<Rightarrow> AppError + HsmResponse" where
  "read_response sd resp_stream =
     bindR (read_full 4 (RuntimeError ''Timeout reading header from vHSM'')
       (\<lambda>e. RuntimeError (''B'' @ pl_l @ pl_a @ ''d odczytu nag'' @ pl_l @ pl_o @ ''wka odpowiedzi z vHSM: '' @ e)) resp_stream)
       (\<lambda>(header_buf, st1).
     bindR (read_full (unat (u32_from_be_bytes header_buf)) (RuntimeError ''Timeout reading body from vHSM'')
       (\<lambda>e. RuntimeError (''B'' @ pl_l @ pl_a @ ''d odczytu tre'' @ pl_s @ ''ci odpowiedzi z vHSM: '' @ e)) st1)
       (\<lambda>(response_buf, _).
     map_err SerializationError (resp_from_slice sd response_buf)))"

text \<open>\<^verbatim>\<open>send_request\<close>.  When a write does not complete the client drops the connection, and the daemon sees what was
  sent until then.\<close>

definition send_request ::
  "hsm_lib \<Rightarrow> serde_hsm \<Rightarrow> string \<Rightarrow> hop \<Rightarrow> HsmRequest \<Rightarrow> VhsmState \<Rightarrow> (AppError + HsmResponse) \<times> VhsmState" where
  "send_request lib sd socket_path h request st =
     (case req_to_vec sd request of
        Inl e \<Rightarrow> (Inl (SerializationError e), st)
      | Inr payload \<Rightarrow>
          let len_header = u32_to_be_bytes (word_of_nat (length payload));
              frame = len_header @ payload;
              cut = (\<lambda>n. snd (daemon_side lib sd h (take (min (hop_sent h) n) frame, Closed) st)) in
          case hop_connect h of
            TimedOut \<Rightarrow> (Inl (RuntimeError (''Timeout connecting to vHSM at '' @ socket_path)), st)
          | Failed e \<Rightarrow> (Inl (RuntimeError (''Nie uda'' @ pl_l @ ''o si'' @ pl_e @ '' po'' @ pl_l @ pl_a @ ''czy'' @ pl_c
              @ '' z vhsm-daemon pod '' @ pl_s @ ''cie'' @ pl_z @ ''k'' @ pl_a @ '' '' @ socket_path @ '': '' @ e)), st)
          | Done \<Rightarrow>
              (case hop_header h of
                 TimedOut \<Rightarrow> (Inl (RuntimeError ''Timeout writing header to vHSM''), cut 3)
               | Failed e \<Rightarrow> (Inl (RuntimeError (''B'' @ pl_l @ pl_a @ ''d zapisu nag'' @ pl_l @ pl_o @ ''wka do vHSM: '' @ e)), cut 3)
               | Done \<Rightarrow>
                   (case hop_payload h of
                      TimedOut \<Rightarrow> (Inl (RuntimeError ''Timeout writing payload to vHSM''), cut (length frame - 1))
                    | Failed e \<Rightarrow> (Inl (RuntimeError (''B'' @ pl_l @ pl_a @ ''d zapisu '' @ pl_l @ ''adunku do vHSM: '' @ e)),
                        cut (length frame - 1))
                    | Done \<Rightarrow>
                        (case daemon_side lib sd h (frame, Stalled) st of
                           (bs, st1) \<Rightarrow> (read_response sd (take (hop_received h) bs, hop_end h), st1)))))"

section \<open>State and environment\<close>

record kms_state =
  ks_db :: kms_db
  ks_cache :: KeyCache
  ks_hsm :: VhsmState
  ks_tick :: nat

text \<open>The configuration of the service and what lies outside of it.  \<^verbatim>\<open>sv_random\<close> is \<^verbatim>\<open>OsRng\<close> filling 32 bytes;
  the Ed25519 and X25519 functions map a private key to its public key, to PEM and to signatures.\<close>

record svc_env =
  sv_hsm :: hsm_lib
  sv_serde :: serde_hsm
  sv_socket_path :: string
  sv_hop :: "nat \<Rightarrow> hop"
  sv_db :: "nat \<Rightarrow> db_env"
  sv_audit :: audit_lib
  sv_dbg :: "timestamp \<Rightarrow> string"
  sv_uuid :: "nat \<Rightarrow> uuid"
  sv_now :: "nat \<Rightarrow> timestamp"
  sv_random :: "nat \<Rightarrow> string + bytes"
  sv_signing_key :: "nat \<Rightarrow> bytes"
  sv_ed_public :: "bytes \<Rightarrow> bytes"
  sv_ed_pem :: "bytes \<Rightarrow> string + string"
  sv_ed_sign :: "bytes \<Rightarrow> bytes \<Rightarrow> bytes"
  sv_static_secret :: "nat \<Rightarrow> bytes"
  sv_x_public :: "bytes \<Rightarrow> bytes"
  sv_pem_encode :: "string \<Rightarrow> bytes \<Rightarrow> string"
  sv_acl :: CompiledAcl
  sv_grace_period_minutes :: int

type_synonym 'a kms = "(kms_state, AppError, 'a) sm"

text \<open>The numbered calls.\<close>

definition next_call :: "(nat \<Rightarrow> 'a) \<Rightarrow> 'a kms" where
  "next_call f = (\<lambda>s. (Inr (f (ks_tick s)), s\<lparr>ks_tick := Suc (ks_tick s)\<rparr>))"

definition now_v7 :: "svc_env \<Rightarrow> uuid kms" where
  "now_v7 env = next_call (sv_uuid env)"

definition utc_now :: "svc_env \<Rightarrow> timestamp kms" where
  "utc_now env = next_call (sv_now env)"

definition on_db :: "svc_env \<Rightarrow> (db_env \<Rightarrow> (kms_db, AppError, 'a) sm) \<Rightarrow> 'a kms" where
  "on_db env m = (\<lambda>s. case m (sv_db env (ks_tick s)) (ks_db s) of
     (r, db) \<Rightarrow> (r, s\<lparr>ks_db := db, ks_tick := Suc (ks_tick s)\<rparr>))"

definition on_cache :: "(KeyCache \<Rightarrow> KeyCache) \<Rightarrow> unit kms" where
  "on_cache f = (\<lambda>s. (Inr (), s\<lparr>ks_cache := f (ks_cache s)\<rparr>))"

definition read_cache :: "(KeyCache \<Rightarrow> 'a) \<Rightarrow> 'a kms" where
  "read_cache f = (\<lambda>s. (Inr (f (ks_cache s)), s))"

definition vhsm_call :: "svc_env \<Rightarrow> HsmRequest \<Rightarrow> HsmResponse kms" where
  "vhsm_call env request = (\<lambda>s.
     case send_request (sv_hsm env) (sv_serde env) (sv_socket_path env) (sv_hop env (ks_tick s)) request (ks_hsm s) of
       (r, st) \<Rightarrow> (r, s\<lparr>ks_hsm := st, ks_tick := Suc (ks_tick s)\<rparr>))"

section \<open>The vHSM client\<close>

definition unexpected_response :: AppError where
  "unexpected_response = CryptoError (''Nieoczekiwana odpowied'' @ pl_zi @ '' vHSM'')"

definition vhsm_error :: "string \<Rightarrow> AppError" where
  "vhsm_error message = CryptoError (''vHSM b'' @ pl_l @ pl_a @ ''d: '' @ message)"

definition client_status :: "svc_env \<Rightarrow> u32 kms" where
  "client_status env =
     bindE (vhsm_call env Status) (\<lambda>resp.
       case resp of
         StatusInfo _ key_version \<Rightarrow> returnE key_version
       | Error _ message \<Rightarrow> throwE (CryptoError (''vHSM status error: '' @ message))
       | _ \<Rightarrow> throwE (CryptoError (''Nieoczekiwana odpowied'' @ pl_zi @ '' vHSM dla status'')))"

definition client_is_ready :: "svc_env \<Rightarrow> bool kms" where
  "client_is_ready env = (\<lambda>s.
     case vhsm_call env Status s of
       (Inr (StatusInfo is_initialized _), s1) \<Rightarrow> (Inr is_initialized, s1)
     | (_, s1) \<Rightarrow> (Inr False, s1))"

definition client_encrypt :: "svc_env \<Rightarrow> bytes \<Rightarrow> bytes kms" where
  "client_encrypt env plaintext =
     bindE (vhsm_call env (Encrypt ''master_key'' None plaintext)) (\<lambda>resp.
       case resp of
         Encrypted ciphertext _ \<Rightarrow> returnE ciphertext
       | Error _ message \<Rightarrow> throwE (vhsm_error message)
       | _ \<Rightarrow> throwE unexpected_response)"

definition client_decrypt :: "svc_env \<Rightarrow> bytes \<Rightarrow> bytes kms" where
  "client_decrypt env ciphertext =
     bindE (vhsm_call env (Decrypt ''master_key'' None ciphertext)) (\<lambda>resp.
       case resp of
         Decrypted plaintext _ \<Rightarrow> returnE plaintext
       | Error _ message \<Rightarrow> throwE (vhsm_error message)
       | _ \<Rightarrow> throwE unexpected_response)"

definition client_generate_credential :: "svc_env \<Rightarrow> nat \<Rightarrow> (string \<times> string \<times> bytes \<times> u32) kms" where
  "client_generate_credential env password_length =
     bindE (vhsm_call env (GenerateCredential password_length)) (\<lambda>resp.
       case resp of
         CredentialGenerated credential_id password wrapped_password key_version \<Rightarrow>
           returnE (credential_id, password, wrapped_password, key_version)
       | Error _ message \<Rightarrow> throwE (vhsm_error message)
       | _ \<Rightarrow> throwE unexpected_response)"

section \<open>The cryptographic service\<close>

record GeneratedDataKey =
  gk_algorithm :: KeyAlgorithm
  gk_plaintext :: bytes
  gk_wrapped :: bytes
  gk_master_key_version :: int

definition service_generate_credential :: "svc_env \<Rightarrow> nat \<Rightarrow> (string \<times> string \<times> bytes \<times> int) kms" where
  "service_generate_credential env password_length =
     bindE (client_generate_credential env password_length)
       (\<lambda>(credential_id, password_b64, wrapped, key_version).
         returnE (credential_id, password_b64, wrapped, sint key_version))"

definition service_decrypt_bytes :: "svc_env \<Rightarrow> bytes \<Rightarrow> bytes kms" where
  "service_decrypt_bytes env ciphertext = client_decrypt env ciphertext"

definition generate_ed25519_keypair :: "svc_env \<Rightarrow> RawKeyPair kms" where
  "generate_ed25519_keypair env =
     bindE (next_call (sv_signing_key env)) (\<lambda>signing_key.
     bindE (liftE (map_err (\<lambda>e. CryptoError (''Failed to encode Ed25519 public key to PEM: '' @ e))
        (sv_ed_pem env (sv_ed_public env signing_key)))) (\<lambda>public_key_pem.
       returnE \<lparr>rk_public_key_pem = public_key_pem, rk_private_key_bytes = signing_key\<rparr>))"

definition generate_x25519_keypair :: "svc_env \<Rightarrow> RawKeyPair kms" where
  "generate_x25519_keypair env =
     bindE (next_call (sv_static_secret env)) (\<lambda>secret.
       returnE \<lparr>rk_public_key_pem = sv_pem_encode env ''X25519 PUBLIC KEY'' (sv_x_public env secret),
                rk_private_key_bytes = secret\<rparr>)"

definition try_fill_bytes :: "svc_env \<Rightarrow> bytes kms" where
  "try_fill_bytes env =
     bindE (next_call (sv_random env)) (\<lambda>r. liftE (map_err (\<lambda>e. CryptoError (''RNG error: '' @ e)) r))"

definition generate_symmetric_key :: "svc_env \<Rightarrow> RawKeyPair kms" where
  "generate_symmetric_key env =
     bindE (try_fill_bytes env) (\<lambda>key_bytes.
       returnE \<lparr>rk_public_key_pem = [], rk_private_key_bytes = key_bytes\<rparr>)"

definition current_master_key_version :: "svc_env \<Rightarrow> int kms" where
  "current_master_key_version env = bindE (client_status env) (\<lambda>version. returnE (sint version))"

definition service_generate_data_key :: "svc_env \<Rightarrow> KeyAlgorithm \<Rightarrow> GeneratedDataKey kms" where
  "service_generate_data_key env algorithm =
     (if algorithm \<noteq> AES256GCM then throwE (ValidationError ''Only AES256GCM is supported for GenerateDataKey'')
      else
        bindE (try_fill_bytes env) (\<lambda>plaintext.
        bindE (client_encrypt env plaintext) (\<lambda>wrapped.
        bindE (current_master_key_version env) (\<lambda>version.
          returnE \<lparr>gk_algorithm = algorithm, gk_plaintext = plaintext, gk_wrapped = wrapped,
                   gk_master_key_version = version\<rparr>))))"

definition encrypt_private_key :: "svc_env \<Rightarrow> bytes \<Rightarrow> EncryptedPrivateKey kms" where
  "encrypt_private_key env private_key =
     bindE (client_encrypt env private_key) (\<lambda>ciphertext.
     bindE (current_master_key_version env) (\<lambda>version.
       returnE \<lparr>epk_ciphertext = ciphertext, epk_master_key_version = version\<rparr>))"

definition decrypt_private_key :: "svc_env \<Rightarrow> EncryptedPrivateKey \<Rightarrow> bytes kms" where
  "decrypt_private_key env encrypted = client_decrypt env (epk_ciphertext encrypted)"

section \<open>Audit calls\<close>

definition audit_success :: "svc_env \<Rightarrow> RequestContext \<Rightarrow> AuditAction \<Rightarrow> json option \<Rightarrow> unit kms" where
  "audit_success env ctx action details =
     bindE (now_v7 env) (\<lambda>i. bindE (utc_now env) (\<lambda>t.
       on_db env (\<lambda>e. record_success (sv_audit env) e i t ctx action details)))"

definition audit_failure :: "svc_env \<Rightarrow> RequestContext \<Rightarrow> AuditAction \<Rightarrow> string \<Rightarrow> unit kms" where
  "audit_failure env ctx action reason =
     bindE (now_v7 env) (\<lambda>i. bindE (utc_now env) (\<lambda>t.
       on_db env (\<lambda>e. record_failure (sv_audit env) e i t ctx action reason)))"

definition audit_access_denied :: "svc_env \<Rightarrow> RequestContext \<Rightarrow> AuditAction \<Rightarrow> string \<Rightarrow> unit kms" where
  "audit_access_denied env ctx action reason =
     bindE (now_v7 env) (\<lambda>i. bindE (utc_now env) (\<lambda>t.
       on_db env (\<lambda>e. record_access_denied (sv_audit env) e i t ctx action reason)))"

definition audit_validation_failure :: "svc_env \<Rightarrow> RequestContext \<Rightarrow> AuditAction \<Rightarrow> string \<Rightarrow> unit kms" where
  "audit_validation_failure env ctx action reason =
     bindE (now_v7 env) (\<lambda>i. bindE (utc_now env) (\<lambda>t.
       on_db env (\<lambda>e. record_validation_failure (sv_audit env) e i t ctx action reason)))"

section \<open>What the service relies on, and what it holds\<close>

text \<open>JSON texts of requests are delimited: a proper prefix of one does not parse, nor does a buffer whose filling was
  cut short.\<close>

definition serde_framed :: "serde_hsm \<Rightarrow> bool" where
  "serde_framed sd = (\<forall>r b. req_to_vec sd r = Inr b \<longrightarrow> b \<noteq> [] \<and> (\<forall>k<length b. \<not> is_ok (req_from_slice sd (take k b))))"

definition cut_rejected :: "serde_hsm \<Rightarrow> hop \<Rightarrow> bool" where
  "cut_rejected sd h = (\<forall>n d. length d < n \<longrightarrow> \<not> is_ok (req_from_slice sd (hop_partial h n d)))"

definition transport_ok :: "svc_env \<Rightarrow> bool" where
  "transport_ok env = (serde_ok (sv_serde env) \<and> serde_framed (sv_serde env)
     \<and> (\<forall>i. cut_rejected (sv_serde env) (sv_hop env i)))"

definition daemon_crypto_ok :: "svc_env \<Rightarrow> bool" where
  "daemon_crypto_ok env = (aead_ok (core (sv_hsm env)) \<and> (\<forall>i. entropy_ok (rnd (hop_ctx (sv_hop env i)))))"

text \<open>The private key that a slot holds: its active key, unwrapped with the master key of the daemon.\<close>

definition unwrapped :: "svc_env \<Rightarrow> VhsmState \<Rightarrow> key_material \<Rightarrow> (u32 \<times> bytes) option" where
  "unwrapped env st = (\<lambda>(version, ciphertext, pem, purpose).
     case master_key st of
       None \<Rightarrow> None
     | Some k \<Rightarrow>
         (case decrypt_bytes (core (sv_hsm env)) k ciphertext of
            Inl _ \<Rightarrow> None
          | Inr b \<Rightarrow> Some (version, b)))"

definition secret_of :: "svc_env \<Rightarrow> kms_state \<Rightarrow> slot \<Rightarrow> (u32 \<times> bytes) option" where
  "secret_of env s x = Option.bind (active_key (ks_db s) x) (unwrapped env (ks_hsm s))"

text \<open>The state of the service between requests.\<close>

definition service_inv :: "kms_state \<Rightarrow> bool" where
  "service_inv s = (repo_ok (ks_db s) \<and> vhsm_inv (ks_hsm s) \<and> cache_ok (ks_cache s))"

text \<open>Two states with the same keys, cache and daemon; audit entries, pending faults and the call counter may differ.\<close>

definition same_keys :: "kms_state \<Rightarrow> kms_state \<Rightarrow> bool" where
  "same_keys s t = (keys_tbl (ks_db t) = keys_tbl (ks_db s) \<and> ks_cache t = ks_cache s \<and> ks_hsm t = ks_hsm s)"

definition quiet :: "'a kms \<Rightarrow> bool" where
  "quiet m = (\<forall>s. same_keys s (snd (m s)))"

text \<open>Requests that the daemon answers without changing its state.\<close>

fun observing :: "HsmRequest \<Rightarrow> bool" where
  "observing (Encrypt _ _ _) = True"
| "observing (Decrypt _ _ _) = True"
| "observing (GenerateCredential _) = True"
| "observing Status = True"
| "observing _ = False"

section \<open>Lemmas on one exchange\<close>

named_theorems effects "elimination of runs of the service's calls"

lemma observing_state: "observing req \<Longrightarrow> snd (handle_request lib ctx req st) = st"
  by (cases req) (simp_all add: handle_request_def reply_def)

lemma dispatch_rejected:
  "\<not> is_ok (req_from_slice sd p) \<Longrightarrow> \<exists>m. dispatch lib sd ctx p st = (Some (Error 400 m), st)"
  by (cases "req_from_slice sd p") (auto simp: dispatch_def)

lemma serve_payload:
  assumes "daemon_read_frame partial strm = Inr (p, rest)"
  shows "snd (serve_connection lib sd partial ctx strm st) = snd (dispatch lib sd ctx p st)"
    "fst (serve_connection lib sd partial ctx strm st) = Some bs \<Longrightarrow>
       \<exists>resp rp. fst (dispatch lib sd ctx p st) = Some resp \<and> resp_to_vec sd resp = Inr rp \<and> daemon_frame rp = Inr bs"
  using assms by (auto simp: serve_connection_def split: prod.splits option.splits sum.splits)

lemma serve_nothing:
  "daemon_read_frame partial strm = Inl u \<Longrightarrow> serve_connection lib sd partial ctx strm st = (None, st)"
  by (simp add: serve_connection_def)

text \<open>A connection that is dropped before the whole request was written leaves the daemon as it was.\<close>

lemma daemon_read_cut:
  assumes framed: "serde_framed sd" "req_to_vec sd req = Inr b" and cut: "cut_rejected sd h"
    and "n < length (u32_to_be_bytes (word_of_nat (length b)) @ b)"
    and "daemon_read_frame (hop_partial h) (take n (u32_to_be_bytes (word_of_nat (length b)) @ b), Closed) = Inr (p, rest)"
  shows "\<not> is_ok (req_from_slice sd p)"
proof (cases "n < 4")
  case True
  let ?len = "unat (u32_from_be_bytes (hop_partial h 4 (take n (u32_to_be_bytes (word_of_nat (length b))))))"
  from True have "length (take n (u32_to_be_bytes (word_of_nat (length b)) @ b)) = n" by simp
  with True assms(5) have "p = (if ?len = 0 then [] else hop_partial h ?len [])"
    by (auto simp: daemon_read_frame_def Let_def bindR_eq_Inr_iff split: if_splits)
  moreover have "\<not> is_ok (req_from_slice sd [])"
    using framed unfolding serde_framed_def by (metis length_greater_0_conv take0)
  ultimately show ?thesis using cut by (auto simp: cut_rejected_def)
next
  case False
  let ?len = "unat (word_of_nat (length b) :: u32)"
  have "take n (u32_to_be_bytes (word_of_nat (length b)) @ b) = u32_to_be_bytes (word_of_nat (length b)) @ take (n - 4) b"
    using False by simp
  with assms(5) have p: "p = (if ?len \<le> length (take (n - 4) b) then take ?len (take (n - 4) b) else hop_partial h ?len (take (n - 4) b))"
    by (auto simp: daemon_read_frame_def Let_def bindR_eq_Inr_iff split: if_splits)
  show ?thesis
  proof (cases "?len \<le> length (take (n - 4) b)")
    case True
    moreover from this have "?len \<le> n - 4" "n - 4 < length b" using assms(4) False by auto
    ultimately have "p = take ?len b" "?len < length b" using p by (simp_all add: min_absorb1)
    then show ?thesis using framed by (auto simp: serde_framed_def)
  next
    case short: False
    then have "p = hop_partial h ?len (take (n - 4) b)" using p by (metis (full_types))
    moreover have "length (take (n - 4) b) < ?len" using short by (rule not_le_imp_less)
    ultimately show ?thesis using cut unfolding cut_rejected_def by blast
  qed
qed

lemma daemon_side_cut:
  assumes "serde_framed sd" "req_to_vec sd req = Inr b" "cut_rejected sd h"
    and "n < length (u32_to_be_bytes (word_of_nat (length b)) @ b)"
  shows "snd (daemon_side lib sd h (take n (u32_to_be_bytes (word_of_nat (length b)) @ b), Closed) st) = st"
proof -
  let ?strm = "(take n (u32_to_be_bytes (word_of_nat (length b)) @ b), Closed)"
  have "snd (serve_connection lib sd (hop_partial h) (hop_ctx h) ?strm st) = st"
  proof (cases "daemon_read_frame (hop_partial h) ?strm")
    case (Inl u)
    then show ?thesis by (simp add: serve_nothing)
  next
    case (Inr pr)
    obtain p rest where pr: "pr = (p, rest)" by (cases pr)
    with Inr have run: "daemon_read_frame (hop_partial h) ?strm = Inr (p, rest)" by simp
    have "\<not> is_ok (req_from_slice sd p)" by (rule daemon_read_cut [OF assms run])
    from dispatch_rejected [OF this] serve_payload(1) [OF run] show ?thesis by (metis snd_conv)
  qed
  then show ?thesis by (auto simp: daemon_side_def split: prod.split option.split)
qed

text \<open>A request that was written completely is handled, or is too long for the daemon.\<close>

lemma daemon_side_full:
  assumes "serde_ok sd" "serde_framed sd" "req_to_vec sd req = Inr b"
    and "daemon_side lib sd h (u32_to_be_bytes (word_of_nat (length b)) @ b, Stalled) st = (bs, st1)"
  shows "(st1 = st \<or> st1 = snd (handle_request lib (hop_ctx h) req st))
    \<and> (bs = [] \<or> (\<exists>resp rp. resp_to_vec sd resp = Inr rp \<and> daemon_frame rp = Inr bs
         \<and> ((\<exists>m. resp = Error 400 m) \<or> fst (handle_request lib (hop_ctx h) req st) = Some resp)))"
proof -
  let ?strm = "(u32_to_be_bytes (word_of_nat (length b)) @ b, Stalled)"
  let ?len = "unat (word_of_nat (length b) :: u32)"
  have dispatch: "(snd (dispatch lib sd (hop_ctx h) p st) = st \<or> snd (dispatch lib sd (hop_ctx h) p st) = snd (handle_request lib (hop_ctx h) req st))
     \<and> (fst (dispatch lib sd (hop_ctx h) p st) = Some resp \<longrightarrow>
         (\<exists>m. resp = Error 400 m) \<or> fst (handle_request lib (hop_ctx h) req st) = Some resp)"
    if "daemon_read_frame (hop_partial h) ?strm = Inr (p, rest)" for p rest resp
  proof -
    have le: "?len \<le> length b" by (simp add: unat_of_nat)
    with that have p: "p = take ?len b"
      by (auto simp: daemon_read_frame_def Let_def bindR_eq_Inr_iff split: if_splits)
    show ?thesis
    proof (cases "?len = length b")
      case True
      with p assms(1,3) have "req_from_slice sd p = Inr req" by (simp add: serde_ok_def)
      then show ?thesis by (simp add: dispatch_def)
    next
      case False
      with le have "?len < length b" by simp
      with p assms(2,3) have "\<not> is_ok (req_from_slice sd p)" by (auto simp: serde_framed_def)
      from dispatch_rejected [OF this] obtain m where
        "dispatch lib sd (hop_ctx h) p st = (Some (Error 400 m), st)" by blast
      then show ?thesis by auto
    qed
  qed
  show ?thesis
  proof (cases "hop_served h")
    case True
    obtain r st2 where serve: "serve_connection lib sd (hop_partial h) (hop_ctx h) ?strm st = (r, st2)"
      by (cases "serve_connection lib sd (hop_partial h) (hop_ctx h) ?strm st")
    with True assms(4) have out: "st1 = st2" "bs = (case r of None \<Rightarrow> [] | Some x \<Rightarrow> x)"
      by (auto simp: daemon_side_def split: option.splits)
    show ?thesis
    proof (cases "daemon_read_frame (hop_partial h) ?strm")
      case (Inl u)
      with serve out show ?thesis by (simp add: serve_nothing)
    next
      case (Inr pr)
      obtain p rest where pr: "pr = (p, rest)" by (cases pr)
      with Inr have run: "daemon_read_frame (hop_partial h) ?strm = Inr (p, rest)" by simp
      have st2: "st2 = snd (dispatch lib sd (hop_ctx h) p st)" using serve_payload(1) [OF run, of lib sd "hop_ctx h" st] serve by simp
      show ?thesis
      proof (cases r)
        case None
        with out st2 dispatch [OF run] show ?thesis by simp
      next
        case (Some x)
        with serve have "fst (serve_connection lib sd (hop_partial h) (hop_ctx h) ?strm st) = Some x" by simp
        from serve_payload(2) [OF run this] obtain resp rp where
          "fst (dispatch lib sd (hop_ctx h) p st) = Some resp" "resp_to_vec sd resp = Inr rp" "daemon_frame rp = Inr x" by blast
        with Some out st2 dispatch [OF run, of resp] show ?thesis by auto
      qed
    qed
  next
    case False
    with assms(4) show ?thesis by (auto simp: daemon_side_def)
  qed
qed

lemma read_response_of_frame:
  assumes "daemon_frame rp = Inr bs" "read_response sd (take n bs, e) = Inr resp"
  shows "resp_from_slice sd rp = Inr resp"
proof -
  have bs: "bs = u32_to_be_bytes (word_of_nat (length rp)) @ rp" "length rp \<le> MAX_PAYLOAD_SIZE"
    using assms(1) by (auto simp: daemon_frame_def split: if_splits)
  then have len: "unat (word_of_nat (length rp) :: u32) = length rp"
    by (intro unat_length_u32) (simp add: MAX_PAYLOAD_SIZE_def)
  from assms(2) have n: "4 \<le> length (take n bs)"
    by (cases "4 \<le> length (take n bs)") (auto simp: read_response_def split: stream_end.splits)
  then have hd: "take 4 (take n bs) = u32_to_be_bytes (word_of_nat (length rp))"
    and tl: "drop 4 (take n bs) = take (n - 4) rp"
    using bs by (simp_all add: drop_take take_all_iff)
  have "read_full 4 late err (take n bs, e) = Inr (u32_to_be_bytes (word_of_nat (length rp)), take (n - 4) rp, e)" for late err
    using n hd tl by simp
  with assms(2) have "bindR (read_full (length rp) (RuntimeError ''Timeout reading body from vHSM'')
      (\<lambda>e. RuntimeError (''B'' @ pl_l @ pl_a @ ''d odczytu tre'' @ pl_s @ ''ci odpowiedzi z vHSM: '' @ e)) (take (n - 4) rp, e))
      (\<lambda>(b, _). map_err SerializationError (resp_from_slice sd b)) = Inr resp"
    by (simp add: read_response_def len del: read_full.simps)
  then show ?thesis by (auto simp: bindR_eq_Inr_iff split: if_splits stream_end.splits)
qed

lemma read_response_empty: "read_response sd (take n [], e) \<noteq> Inr resp"
  by (cases e) (simp_all add: read_response_def)

text \<open>The outcome of an exchange: the daemon is as before or has handled the request, and a response that the client
  accepts is the daemon's answer or its complaint about an unreadable request.\<close>

lemma send_request_outcome:
  assumes "serde_ok sd" "serde_framed sd" "cut_rejected sd h"
    and "send_request lib sd path h req st = (r, st1)"
  shows "st1 = st \<or> st1 = snd (handle_request lib (hop_ctx h) req st)"
    "r = Inr resp \<Longrightarrow> (\<exists>m. resp = Error 400 m) \<or> fst (handle_request lib (hop_ctx h) req st) = Some resp"
proof -
  have "(st1 = st \<or> st1 = snd (handle_request lib (hop_ctx h) req st))
    \<and> (r = Inr resp \<longrightarrow> (\<exists>m. resp = Error 400 m) \<or> fst (handle_request lib (hop_ctx h) req st) = Some resp)"
  proof (cases "req_to_vec sd req")
    case (Inl e)
    with assms(4) show ?thesis by (auto simp: send_request_def)
  next
    case (Inr b)
    let ?frame = "u32_to_be_bytes (word_of_nat (length b)) @ b"
    have cut: "snd (daemon_side lib sd h (take (min k n) ?frame, Closed) st) = st" if "n < length ?frame" for k n
      by (rule daemon_side_cut [OF assms(2) Inr assms(3)]) (use that in simp)
    have frame: "3 < length ?frame" "length ?frame - 1 < length ?frame" by simp_all
    consider "\<exists>e. r = Inl e" "st1 = st"
      | bs where "daemon_side lib sd h (?frame, Stalled) st = (bs, st1)" "r = read_response sd (take (hop_received h) bs, hop_end h)"
      using assms(4) cut [OF frame(1)] cut [OF frame(2)]
      by (auto simp: send_request_def Inr Let_def split: io_outcome.splits prod.splits)
    then show ?thesis
    proof cases
      case 1
      then show ?thesis by auto
    next
      case (2 bs)
      note full = daemon_side_full [OF assms(1,2) Inr 2(1)]
      show ?thesis
      proof (intro conjI impI)
        show "st1 = st \<or> st1 = snd (handle_request lib (hop_ctx h) req st)" using full by blast
        assume resp: "r = Inr resp"
        with 2(2) have read: "read_response sd (take (hop_received h) bs, hop_end h) = Inr resp" by simp
        then have "bs \<noteq> []" using read_response_empty by metis
        with full obtain resp' rp where rp: "resp_to_vec sd resp' = Inr rp" "daemon_frame rp = Inr bs"
          "(\<exists>m. resp' = Error 400 m) \<or> fst (handle_request lib (hop_ctx h) req st) = Some resp'" by blast
        from read_response_of_frame [OF rp(2) read] rp(1) assms(1) have "resp = resp'" by (simp add: serde_ok_def)
        with rp(3) show "(\<exists>m. resp = Error 400 m) \<or> fst (handle_request lib (hop_ctx h) req st) = Some resp" by simp
      qed
    qed
  qed
  then show "st1 = st \<or> st1 = snd (handle_request lib (hop_ctx h) req st)"
    "r = Inr resp \<Longrightarrow> (\<exists>m. resp = Error 400 m) \<or> fst (handle_request lib (hop_ctx h) req st) = Some resp"
    by blast+
qed

section \<open>Lemmas on calls\<close>

lemma same_keys_refl [simp]: "same_keys s s"
  by (simp add: same_keys_def)

lemma same_keys_trans: "same_keys s t \<Longrightarrow> same_keys t u \<Longrightarrow> same_keys s u"
  by (simp add: same_keys_def)

lemma active_key_cong: "keys_tbl d = keys_tbl d' \<Longrightarrow> active_key d = active_key d'"
  by (rule ext) (simp add: active_key_def)

lemma repo_ok_cong: "keys_tbl d = keys_tbl d' \<Longrightarrow> repo_ok d = repo_ok d'"
  by (simp add: repo_ok_iff)

lemma same_keysD:
  assumes "same_keys s t"
  shows "service_inv t = service_inv s" "secret_of env t = secret_of env s" "ks_cache t = ks_cache s" "ks_hsm t = ks_hsm s"
    "active_key (ks_db t) = active_key (ks_db s)" "repo_ok (ks_db t) = repo_ok (ks_db s)"
proof -
  have "keys_tbl (ks_db t) = keys_tbl (ks_db s)" "ks_hsm t = ks_hsm s" "ks_cache t = ks_cache s"
    using assms by (simp_all add: same_keys_def)
  moreover from this have "active_key (ks_db t) = active_key (ks_db s)" "repo_ok (ks_db t) = repo_ok (ks_db s)"
    by (simp_all only: active_key_cong [of "ks_db t"] repo_ok_cong [of "ks_db t"])
  moreover from calculation have "secret_of env t = secret_of env s" by (intro ext) (simp add: secret_of_def)
  ultimately show "service_inv t = service_inv s" "secret_of env t = secret_of env s" "ks_cache t = ks_cache s"
    "ks_hsm t = ks_hsm s" "active_key (ks_db t) = active_key (ks_db s)" "repo_ok (ks_db t) = repo_ok (ks_db s)"
    by (simp_all add: service_inv_def)
qed

lemma quietD: "quiet m \<Longrightarrow> m s = (r, t) \<Longrightarrow> same_keys s t"
  by (metis quiet_def snd_conv)

named_theorems quiets "calls that leave keys, cache and daemon alone"

lemma quiet_bindE [quiets]: "quiet m \<Longrightarrow> (\<And>x. quiet (f x)) \<Longrightarrow> quiet (bindE m f)"
  unfolding quiet_def
proof
  fix s assume m: "\<forall>s. same_keys s (snd (m s))" and f: "\<And>x. \<forall>s. same_keys s (snd (f x s))"
  obtain r t where run: "m s = (r, t)" by (cases "m s")
  then have st: "same_keys s t" using m by (metis snd_conv)
  show "same_keys s (snd (bindE m f s))"
  proof (cases r)
    case (Inl e)
    with run st show ?thesis by (simp add: bindE_def)
  next
    case (Inr x)
    have "same_keys t (snd (f x t))" using f by blast
    with Inr run st show ?thesis by (simp add: bindE_def same_keys_trans)
  qed
qed

lemma quiet_matchE [quiets]: "quiet m \<Longrightarrow> (\<And>x. quiet (f x)) \<Longrightarrow> (\<And>e. quiet (g e)) \<Longrightarrow> quiet (matchE m f g)"
  unfolding quiet_def
proof
  fix s assume m: "\<forall>s. same_keys s (snd (m s))" and f: "\<And>x. \<forall>s. same_keys s (snd (f x s))" "\<And>e. \<forall>s. same_keys s (snd (g e s))"
  have "same_keys s (snd (m s))" using m by blast
  with f show "same_keys s (snd (matchE m f g s))"
    by (cases rule: matchE_cases [of m s f g]) (simp_all, blast intro: same_keys_trans, blast intro: same_keys_trans)
qed

lemma quiet_if [quiets]: "quiet m \<Longrightarrow> quiet n \<Longrightarrow> quiet (if c then m else n)"
  by simp

lemma quiet_basic [quiets]:
  "quiet (returnE x)" "quiet (throwE e)" "quiet (liftE r)" "quiet (next_call f)" "quiet (now_v7 env)" "quiet (utc_now env)"
  "quiet (read_cache g)"
  by (simp_all add: quiet_def next_call_def now_v7_def utc_now_def read_cache_def same_keys_def)

lemma quiet_on_db [quiets]:
  assumes "\<And>e K. preserves (\<lambda>db. keys_tbl db = K) (m e)"
  shows "quiet (on_db env m)"
proof -
  have "keys_tbl (snd (m e db)) = keys_tbl db" for e db using preservesD [OF assms, of db] by simp
  then show ?thesis by (auto simp: quiet_def on_db_def same_keys_def split: prod.split) (metis snd_conv)
qed

lemma quiet_vhsm_call [quiets]:
  assumes "transport_ok env" "observing req"
  shows "quiet (vhsm_call env req)"
proof -
  have "ks_hsm (snd (vhsm_call env req s)) = ks_hsm s" for s
  proof -
    obtain r st1 where run: "send_request (sv_hsm env) (sv_serde env) (sv_socket_path env) (sv_hop env (ks_tick s)) req (ks_hsm s) = (r, st1)"
      by (cases "send_request (sv_hsm env) (sv_serde env) (sv_socket_path env) (sv_hop env (ks_tick s)) req (ks_hsm s)")
    have "st1 = ks_hsm s"
      using send_request_outcome(1) [OF _ _ _ run] assms by (auto simp: transport_ok_def observing_state)
    with run show ?thesis by (simp add: vhsm_call_def)
  qed
  then show ?thesis by (simp add: quiet_def same_keys_def) (simp add: vhsm_call_def split: prod.split)
qed

lemma vhsm_call_Inr:
  assumes "transport_ok env" "vhsm_call env req s = (Inr resp, t)" "\<And>m. resp \<noteq> Error 400 m"
  shows "fst (handle_request (sv_hsm env) (hop_ctx (sv_hop env (ks_tick s))) req (ks_hsm s)) = Some resp"
proof -
  from assms(2) have run: "send_request (sv_hsm env) (sv_serde env) (sv_socket_path env) (sv_hop env (ks_tick s)) req (ks_hsm s)
      = (Inr resp, ks_hsm t)"
    by (auto simp: vhsm_call_def split: prod.splits)
  show ?thesis using send_request_outcome(2) [OF _ _ _ run] assms(1,3) by (auto simp: transport_ok_def)
qed

lemma keys_pg_audit [preserve]: "preserves (\<lambda>db. keys_tbl db = K) (pg_audit_record lib e log)"
  unfolding pg_audit_record_def read_prev_hash_def latest_hash_def insert_chained_def insert_audit_def
  by (intro preserves_bindE preserves_map_errE preserves_query preserves_exec preserves_returnE) (auto split: if_splits)

lemma quiet_audit [quiets]:
  "quiet (audit_success env ctx action details)" "quiet (audit_failure env ctx action reason)"
  "quiet (audit_access_denied env ctx action reason)" "quiet (audit_validation_failure env ctx action reason)"
  unfolding audit_success_def audit_failure_def audit_access_denied_def audit_validation_failure_def record_success_def
    record_failure_def record_access_denied_def record_validation_failure_def record_internal_def
  by (intro quiets keys_pg_audit)+

lemma quiet_client [quiets]:
  assumes "transport_ok env"
  shows "quiet (client_encrypt env p)" "quiet (client_decrypt env c)" "quiet (client_status env)"
    "quiet (client_generate_credential env n)"
  unfolding client_encrypt_def client_decrypt_def client_status_def client_generate_credential_def
  by (rule quiet_bindE [OF quiet_vhsm_call [OF assms]], simp, rename_tac resp, case_tac resp, simp_all add: quiets)+

lemma quiet_service [quiets]:
  assumes "transport_ok env"
  shows "quiet (encrypt_private_key env p)" "quiet (decrypt_private_key env x)" "quiet (current_master_key_version env)"
    "quiet (service_generate_data_key env a)" "quiet (service_generate_credential env n)"
  unfolding encrypt_private_key_def decrypt_private_key_def current_master_key_version_def service_generate_data_key_def
    service_generate_credential_def try_fill_bytes_def
  using assms by (auto intro!: quiets split: prod.split)

lemma quiet_generate [quiets]:
  "quiet (generate_ed25519_keypair env)" "quiet (generate_x25519_keypair env)" "quiet (generate_symmetric_key env)"
  unfolding generate_ed25519_keypair_def generate_x25519_keypair_def generate_symmetric_key_def try_fill_bytes_def
  by (intro quiets)+

lemma keys_pg_get [preserve]:
  "preserves (\<lambda>db. keys_tbl db = K) (pg_get_active_key e service algo)"
  "preserves (\<lambda>db. keys_tbl db = K) (pg_get_key_by_version e service algo v)"
  "preserves (\<lambda>db. keys_tbl db = K) (pg_get_active_or_valid_deprecated_key e service algo t)"
  "preserves (\<lambda>db. keys_tbl db = K) (pg_get_all_active_keys e)"
  unfolding pg_get_active_key_def get_active_key_row_def pg_get_key_by_version_def get_key_row_by_version_def
    pg_get_active_or_valid_deprecated_key_def get_active_or_valid_deprecated_rows_def pg_get_all_active_keys_def
    get_all_active_key_rows_def
  by (intro preserves_bindE preserves_map_errE preserves_query preserves_liftE; simp)+

text \<open>Wrapping and unwrapping a private key.\<close>

lemma client_encrypt_Inr:
  assumes "transport_ok env" "client_encrypt env p s = (Inr c, t)"
  shows "\<exists>k. master_key (ks_hsm s) = Some k
    \<and> encrypt_bytes (core (sv_hsm env)) (draw (rnd (hop_ctx (sv_hop env (ks_tick s)))) 0 12) k p = Inr c"
proof -
  let ?ctx = "hop_ctx (sv_hop env (ks_tick s))"
  from assms(2) obtain resp u where call: "vhsm_call env (Encrypt ''master_key'' None p) s = (Inr resp, u)"
    "(case resp of Encrypted ciphertext _ \<Rightarrow> returnE ciphertext | Error _ message \<Rightarrow> throwE (vhsm_error message)
       | _ \<Rightarrow> throwE unexpected_response) u = (Inr c, t)"
    unfolding client_encrypt_def bindE_eq_Inr_iff by blast
  then obtain v where "vhsm_call env (Encrypt ''master_key'' None p) s = (Inr (Encrypted c v), u)" by (cases resp) auto
  from vhsm_call_Inr [OF assms(1) this]
  have "handle_request (sv_hsm env) ?ctx (Encrypt ''master_key'' None p) (ks_hsm s) = (Some (Encrypted c v), ks_hsm s)"
    using observing_state [of "Encrypt ''master_key'' None p" "sv_hsm env" ?ctx "ks_hsm s"] by (simp add: prod_eq_iff)
  then show ?thesis by (auto simp: handle_encrypt)
qed

lemma client_decrypt_Inr:
  assumes "transport_ok env" "client_decrypt env c s = (Inr p, t)"
  shows "\<exists>k. master_key (ks_hsm s) = Some k \<and> decrypt_bytes (core (sv_hsm env)) k c = Inr p"
proof -
  from assms(2) obtain resp u where call: "vhsm_call env (Decrypt ''master_key'' None c) s = (Inr resp, u)"
    "(case resp of Decrypted plaintext _ \<Rightarrow> returnE plaintext | Error _ message \<Rightarrow> throwE (vhsm_error message)
       | _ \<Rightarrow> throwE unexpected_response) u = (Inr p, t)"
    unfolding client_decrypt_def bindE_eq_Inr_iff by blast
  then obtain v where "vhsm_call env (Decrypt ''master_key'' None c) s = (Inr (Decrypted p v), u)" by (cases resp) auto
  from vhsm_call_Inr [OF assms(1) this] show ?thesis
    by (auto simp: handle_request_def reply_def decrypt_handler_def locked_error_def split: if_splits option.splits sum.splits)
qed

section \<open>The sealing contract\<close>

text \<open>What a client of the cryptographic service relies on: while the daemon holds the same master key, unwrapping
  returns what was wrapped.\<close>

locale key_sealing =
  fixes holds :: "'s \<Rightarrow> 'm \<Rightarrow> bool"
    and wrap :: "bytes \<Rightarrow> ('s, 'e, 'c) sm"
    and unwrap :: "'c \<Rightarrow> ('s, 'e, bytes) sm"
  assumes wrap_keeps: "holds s m \<Longrightarrow> wrap p s = (r, t) \<Longrightarrow> holds t m"
    and unwrap_keeps: "holds s m \<Longrightarrow> unwrap c s = (q, t) \<Longrightarrow> holds t m"
    and sealed: "holds s m \<Longrightarrow> wrap p s = (Inr c, t) \<Longrightarrow> holds u m \<Longrightarrow> unwrap c u = (Inr b, w) \<Longrightarrow> b = p"
begin

text \<open>Rewrapping: what is unwrapped and wrapped again still unwraps to the original.\<close>

lemma rewrapped:
  assumes "holds s m" "wrap p s = (Inr c, s1)" "holds u m" "unwrap c u = (Inr b, u1)" "wrap b u1 = (Inr c', u2)"
    and "holds v m" "unwrap c' v = (Inr b', v1)"
  shows "b' = p"
  using sealed [OF assms(1-4)] sealed [OF unwrap_keeps [OF assms(3,4)] assms(5-7)] by simp

end

definition master_held :: "svc_env \<Rightarrow> kms_state \<Rightarrow> bytes \<Rightarrow> bool" where
  "master_held env s k = (transport_ok env \<and> daemon_crypto_ok env \<and> vhsm_inv (ks_hsm s) \<and> master_key (ks_hsm s) = Some k)"

lemma encrypt_private_key_Inr:
  assumes "transport_ok env" "daemon_crypto_ok env" "vhsm_inv (ks_hsm s)" "encrypt_private_key env p s = (Inr x, t)"
  shows "\<exists>k. master_key (ks_hsm s) = Some k \<and> decrypt_bytes (core (sv_hsm env)) k (epk_ciphertext x) = Inr p"
proof -
  from assms(4) obtain c u where c: "client_encrypt env p s = (Inr c, u)" "epk_ciphertext x = c"
    by (auto simp: encrypt_private_key_def bindE_eq_Inr_iff)
  from client_encrypt_Inr [OF assms(1) c(1)] obtain k where k: "master_key (ks_hsm s) = Some k"
    "encrypt_bytes (core (sv_hsm env)) (draw (rnd (hop_ctx (sv_hop env (ks_tick s)))) 0 12) k p = Inr c" by blast
  have "decrypt_bytes (core (sv_hsm env)) k c = Inr p"
    using decrypt_encrypt_bytes [OF _ vhsm_inv_keyD(1) [OF assms(3) k(1)] _ k(2)] assms(2)
    by (simp add: daemon_crypto_ok_def entropy_ok_def)
  with k(1) c(2) show ?thesis by simp
qed

interpretation sealing: key_sealing "master_held env" "encrypt_private_key env" "decrypt_private_key env" for env
proof (unfold_locales, goal_cases)
  case (1 s m p r t)
  then have "same_keys s t" by (intro quietD [OF quiet_service(1)]) (auto simp: master_held_def)
  with 1 show ?case by (simp add: master_held_def same_keysD)
next
  case (2 s m c q t)
  then have "same_keys s t" by (intro quietD [OF quiet_service(2)]) (auto simp: master_held_def)
  with 2 show ?case by (simp add: master_held_def same_keysD)
next
  case (3 s m p c t u b w)
  from 3(1,2) encrypt_private_key_Inr [of env s p c t]
  have "decrypt_bytes (core (sv_hsm env)) m (epk_ciphertext c) = Inr p" by (auto simp: master_held_def)
  moreover from 3(3,4) client_decrypt_Inr [of env "epk_ciphertext c" u b w]
  have "decrypt_bytes (core (sv_hsm env)) m (epk_ciphertext c) = Inr b"
    by (auto simp: master_held_def decrypt_private_key_def)
  ultimately show ?case by simp
qed

end
