(* ===== verification/Key_Usecases.thy ===== *)
theory Key_Usecases
  imports Kms_Service
begin

text \<open>The use cases of the key service (\<^verbatim>\<open>kms-service/src/application/use_cases/\<close>), the bootstrap of keys
  (\<^verbatim>\<open>bootstrap.rs\<close>) and the background workers on keys (\<^verbatim>\<open>workers/cache_cleanup.rs\<close>, \<^verbatim>\<open>workers/expiration.rs\<close>), each
  as one run over the state of the service.  Versions are 32-bit and wrap, as in the release build.\<close>

section \<open>Shared steps\<close>

definition json_obj :: "(string \<times> json) list \<Rightarrow> json" where
  "json_obj kvs = JObj (btree_of kvs)"

definition json_u32 :: "u32 \<Rightarrow> json" where
  "json_u32 v = JNum (uint v)"

definition dec_int :: "int \<Rightarrow> string" where
  "dec_int i = (if i < 0 then ''-'' @ dec (nat (- i)) else dec (nat i))"

definition json_algorithm :: "KeyAlgorithm \<Rightarrow> json" where
  "json_algorithm a = JStr (algorithm_debug a)"

text \<open>\<^verbatim>\<open>match input.algorithm\<close>: the key generator for an algorithm, or the given complaint.\<close>

fun generated_pair :: "svc_env \<Rightarrow> string \<Rightarrow> KeyAlgorithm \<Rightarrow> RawKeyPair kms" where
  "generated_pair env unsupported Ed25519 = generate_ed25519_keypair env"
| "generated_pair env unsupported X25519 = generate_x25519_keypair env"
| "generated_pair env unsupported AES256GCM = generate_symmetric_key env"
| "generated_pair env unsupported HmacSha256 = generate_symmetric_key env"
| "generated_pair env unsupported EcdsaP256 = throwE (ValidationError unsupported)"

text \<open>Refusing a request: the denial is recorded, and the caller sees \<^verbatim>\<open>Unauthorized\<close>.\<close>

definition deny :: "svc_env \<Rightarrow> RequestContext \<Rightarrow> AuditAction \<Rightarrow> string \<Rightarrow> 'a kms" where
  "deny env ctx action reason =
     bindE (audit_access_denied env ctx action reason) (\<lambda>_. throwE Unauthorized)"

section \<open>Generating a key pair\<close>

record GenerateKeyPairInput =
  gi_caller_service :: service_id
  gi_service_id :: service_id
  gi_algorithm :: KeyAlgorithm
  gi_purpose :: KeyPurpose

definition may_generate :: "CompiledAcl \<Rightarrow> service_id \<Rightarrow> bool" where
  "may_generate acl caller =
     (authorize_control_action acl caller GenerateKeys \<or> authorize_control_action acl caller RotateOwnKeys
      \<or> authorize_control_action acl caller RotateAllKeys)"

definition generate_key_pair ::
  "svc_env \<Rightarrow> RequestContext \<Rightarrow> GenerateKeyPairInput \<Rightarrow> KeyPairEntity kms" where
  "generate_key_pair env ctx input =
     (if \<not> may_generate (sv_acl env) (gi_caller_service input) then
        deny env ctx GenerateKey ''ACL Policy Violation for GenerateKey''
      else
        bindE (on_db env (\<lambda>e. pg_get_active_key e (gi_service_id input) (gi_algorithm input))) (\<lambda>current_key.
        bindE (case current_key of
                 Some key \<Rightarrow>
                   bindE (on_db env (\<lambda>e. pg_deactivate_keys_for_service e (gi_service_id input) (gi_algorithm input)))
                     (\<lambda>_. returnE (kp_version key + 1))
               | None \<Rightarrow> returnE 1) (\<lambda>version.
        bindE (generated_pair env ''ECDSA_P256 is not supported for in-process key generation'' (gi_algorithm input)) (\<lambda>pair.
        bindE (encrypt_private_key env (rk_private_key_bytes pair)) (\<lambda>encrypted.
        bindE (now_v7 env) (\<lambda>key_id.
        bindE (utc_now env) (\<lambda>created_at.
          let entity = \<lparr>kp_id = key_id, kp_service_id = gi_service_id input, kp_algorithm = gi_algorithm input,
                kp_purpose = gi_purpose input, kp_public_key_pem = rk_public_key_pem pair,
                kp_encrypted_private_key = encrypted, kp_version = version, kp_status = Active,
                kp_created_at = created_at, kp_expires_at = None\<rparr> in
          bindE (on_db env (\<lambda>e. pg_save_key e (sv_dbg env) entity)) (\<lambda>_.
          bindE (audit_success env ctx GenerateKey (Some (json_obj
              [(''target_service'', JStr (gi_service_id input)), (''algorithm'', json_algorithm (gi_algorithm input)),
               (''key_id'', JStr (ad_uuid (sv_audit env) key_id)), (''version'', json_u32 version),
               (''purpose'', JStr (purpose_debug (gi_purpose input)))]))) (\<lambda>_.
            returnE entity)))))))))"

section \<open>Rotating a key\<close>

record RotateKeyInput =
  ri_service_id :: service_id
  ri_algorithm :: KeyAlgorithm
  ri_caller_service :: service_id
  ri_reason :: RotationReason
  ri_actor_id :: string

definition required_action :: "RotateKeyInput \<Rightarrow> ControlAction" where
  "required_action input = (if ri_service_id input = ri_caller_service input then RotateOwnKeys else RotateAllKeys)"

definition invalidate :: "RotateKeyInput \<Rightarrow> KeyCache \<Rightarrow> KeyCache" where
  "invalidate input =
     (if ri_reason input = CompromisedRotation then remove_all_for_service (ri_service_id input)
      else cache_remove (ri_service_id input) (ri_algorithm input))"

definition no_active_key :: "RotateKeyInput \<Rightarrow> AppError" where
  "no_active_key input = NotFound (''Cannot rotate key: No active key exists for service '' @ [CHR 0x27] @ ri_service_id input
     @ [CHR 0x27] @ '' with algorithm '' @ [CHR 0x27] @ algorithm_debug (ri_algorithm input) @ [CHR 0x27])"

definition rotate_key :: "svc_env \<Rightarrow> RequestContext \<Rightarrow> RotateKeyInput \<Rightarrow> KeyPairEntity kms" where
  "rotate_key env ctx input =
     (if \<not> authorize_control_action (sv_acl env) (ri_caller_service input) (required_action input) then
        deny env ctx KeyRotated ''ACL Policy Violation''
      else
        bindE (on_db env (\<lambda>e. pg_get_active_key e (ri_service_id input) (ri_algorithm input))) (\<lambda>found.
        bindE (liftE (ok_or (no_active_key input) found)) (\<lambda>current.
        bindE (generated_pair env ''ECDSA_P256 rotation is not supported by this service'' (ri_algorithm input)) (\<lambda>pair.
        bindE (encrypt_private_key env (rk_private_key_bytes pair)) (\<lambda>encrypted.
        bindE (now_v7 env) (\<lambda>key_id.
        bindE (utc_now env) (\<lambda>created_at.
          let new_entity = \<lparr>kp_id = key_id, kp_service_id = ri_service_id input, kp_algorithm = ri_algorithm input,
                kp_purpose = kp_purpose current, kp_public_key_pem = rk_public_key_pem pair,
                kp_encrypted_private_key = encrypted, kp_version = kp_version current + 1, kp_status = Active,
                kp_created_at = created_at, kp_expires_at = None\<rparr> in
          bindE (if ri_reason input = CompromisedRotation then returnE None
                 else bindE (utc_now env) (\<lambda>t. returnE (Some (t + sv_grace_period_minutes env * 60 * 1000000000)))) (\<lambda>deprecated_until.
          bindE (on_db env (\<lambda>e. pg_rotate_active_key e (ri_service_id input) (ri_algorithm input) new_entity deprecated_until)) (\<lambda>was_rotated.
            if \<not> was_rotated then
              throwE (Conflict ''Failed to rotate key atomically: concurrent modification or active-key race'')
            else
              bindE (on_cache (invalidate input)) (\<lambda>_.
              bindE (audit_success env ctx KeyRotated (Some (json_obj
                  [(''service_id'', JStr (ri_service_id input)), (''algorithm'', json_algorithm (ri_algorithm input)),
                   (''reason'', JStr (reason_debug (ri_reason input))), (''actor_id'', JStr (ri_actor_id input)),
                   (''new_version'', json_u32 (kp_version current + 1))]))) (\<lambda>_.
                returnE new_entity)))))))))))"

section \<open>Reading keys\<close>

record KeyInput =
  ki_caller_service :: service_id
  ki_target_service :: service_id
  ki_algorithm :: KeyAlgorithm

record KeyOutput =
  ko_service_id :: service_id
  ko_algorithm :: KeyAlgorithm
  ko_version :: u32
  ko_bytes :: bytes

definition cache_hit_details :: "KeyInput \<Rightarrow> json" where
  "cache_hit_details input = json_obj [(''cache_hit'', JBool True), (''target_service'', JStr (ki_target_service input)),
     (''algorithm'', json_algorithm (ki_algorithm input))]"

definition key_read_details :: "KeyInput \<Rightarrow> u32 \<Rightarrow> json" where
  "key_read_details input version = json_obj [(''target_service'', JStr (ki_target_service input)),
     (''algorithm'', json_algorithm (ki_algorithm input)), (''version'', json_u32 version)]"

definition preload_cache :: "svc_env \<Rightarrow> service_id \<Rightarrow> KeyAlgorithm \<Rightarrow> u32 \<Rightarrow> bytes \<Rightarrow> unit kms" where
  "preload_cache env target_service algorithm version value =
     (if should_preload_for (sv_acl env) target_service algorithm
      then on_cache (cache_insert target_service algorithm version value) else returnE ())"

definition get_private_key :: "svc_env \<Rightarrow> RequestContext \<Rightarrow> KeyInput \<Rightarrow> KeyOutput kms" where
  "get_private_key env ctx input =
     (if \<not> authorize_key_access (sv_acl env) (ki_caller_service input) (ki_target_service input) (ki_algorithm input) PrivateKey then
        deny env ctx GetPrivateKey ''ACL Policy Violation''
      else
        bindE (read_cache (with_key (ki_target_service input) (ki_algorithm input) Pair)) (\<lambda>hit.
          case hit of
            Some (cached_version, cached_bytes) \<Rightarrow>
              bindE (audit_success env ctx GetPrivateKey (Some (cache_hit_details input))) (\<lambda>_.
                returnE \<lparr>ko_service_id = ki_target_service input, ko_algorithm = ki_algorithm input,
                         ko_version = cached_version, ko_bytes = cached_bytes\<rparr>)
          | None \<Rightarrow>
              bindE (on_db env (\<lambda>e. pg_get_active_key e (ki_target_service input) (ki_algorithm input))) (\<lambda>found.
                case found of
                  None \<Rightarrow>
                    bindE (audit_validation_failure env ctx GetPrivateKey ''Key does not exist'') (\<lambda>_.
                      throwE (NotFound ''Key not found''))
                | Some key \<Rightarrow>
                    bindE (decrypt_private_key env (kp_encrypted_private_key key)) (\<lambda>decrypted.
                    bindE (preload_cache env (ki_target_service input) (ki_algorithm input) (kp_version key) decrypted) (\<lambda>_.
                    bindE (audit_success env ctx GetPrivateKey (Some (key_read_details input (kp_version key)))) (\<lambda>_.
                      returnE \<lparr>ko_service_id = kp_service_id key, ko_algorithm = kp_algorithm key,
                               ko_version = kp_version key, ko_bytes = decrypted\<rparr>))))))"

definition get_symmetric_key :: "svc_env \<Rightarrow> RequestContext \<Rightarrow> KeyInput \<Rightarrow> KeyOutput kms" where
  "get_symmetric_key env ctx input =
     (if \<not> authorize_key_access (sv_acl env) (ki_caller_service input) (ki_target_service input) (ki_algorithm input) SymmetricKey then
        deny env ctx GetSymmetricKey ''ACL Policy Violation for Symmetric Key''
      else
        bindE (read_cache (with_key (ki_target_service input) (ki_algorithm input) Pair)) (\<lambda>hit.
          case hit of
            Some (cached_version, cached_bytes) \<Rightarrow>
              bindE (audit_success env ctx GetSymmetricKey (Some (cache_hit_details input))) (\<lambda>_.
                returnE \<lparr>ko_service_id = ki_target_service input, ko_algorithm = ki_algorithm input,
                         ko_version = cached_version, ko_bytes = cached_bytes\<rparr>)
          | None \<Rightarrow>
              bindE (on_db env (\<lambda>e. pg_get_active_key e (ki_target_service input) (ki_algorithm input))) (\<lambda>found.
                case found of
                  None \<Rightarrow>
                    bindE (audit_validation_failure env ctx GetSymmetricKey ''Symmetric Key does not exist'') (\<lambda>_.
                      throwE (NotFound (''Brak aktywnego klucza symetrycznego dla '' @ ki_target_service input)))
                | Some key \<Rightarrow>
                    bindE (decrypt_private_key env (kp_encrypted_private_key key)) (\<lambda>decrypted.
                    bindE (preload_cache env (ki_target_service input) (ki_algorithm input) (kp_version key) decrypted) (\<lambda>_.
                    bindE (audit_success env ctx GetSymmetricKey (Some (key_read_details input (kp_version key)))) (\<lambda>_.
                      returnE \<lparr>ko_service_id = kp_service_id key, ko_algorithm = kp_algorithm key,
                               ko_version = kp_version key, ko_bytes = decrypted\<rparr>))))))"

definition get_public_key :: "svc_env \<Rightarrow> RequestContext \<Rightarrow> service_id \<Rightarrow> KeyAlgorithm \<Rightarrow> KeyPairEntity kms" where
  "get_public_key env ctx service_id algorithm =
     bindE (utc_now env) (\<lambda>t.
     bindE (on_db env (\<lambda>e. pg_get_active_or_valid_deprecated_key e service_id algorithm t)) (\<lambda>key.
       case key of
         Some k \<Rightarrow>
           bindE (audit_success env ctx GetPublicKey (Some (json_obj [(''service_id'', JStr service_id),
               (''algorithm'', json_algorithm algorithm), (''key_version'', json_u32 (kp_version k))]))) (\<lambda>_. returnE k)
       | None \<Rightarrow>
           bindE (audit_validation_failure env ctx GetPublicKey ''No active or valid deprecated public key found'') (\<lambda>_.
             throwE (NotFound (''No active or valid deprecated public key found for service '' @ [CHR 0x27] @ service_id
               @ [CHR 0x27] @ '' with algorithm '' @ [CHR 0x27] @ algorithm_debug algorithm @ [CHR 0x27])))))"

section \<open>Signing\<close>

record SignDataInput =
  si_caller_service :: service_id
  si_target_service :: service_id
  si_algorithm :: KeyAlgorithm
  si_payload :: bytes
  si_key_version :: "u32 option"

record SignDataOutput =
  so_service_id :: service_id
  so_algorithm :: KeyAlgorithm
  so_key_version :: u32
  so_signature_bytes :: bytes

text \<open>The key to sign with, when the cache has none.\<close>

definition load_signing_key :: "svc_env \<Rightarrow> RequestContext \<Rightarrow> SignDataInput \<Rightarrow> bytes kms" where
  "load_signing_key env ctx input =
     bindE (case si_key_version input of
              Some version \<Rightarrow> on_db env (\<lambda>e. pg_get_key_by_version e (si_target_service input) (si_algorithm input) version)
            | None \<Rightarrow> on_db env (\<lambda>e. pg_get_active_key e (si_target_service input) (si_algorithm input))) (\<lambda>found.
       case found of
         None \<Rightarrow>
           bindE (audit_validation_failure env ctx SignData ''Signing key not found'') (\<lambda>_.
             throwE (NotFound ''Signing key not found''))
       | Some key \<Rightarrow>
           matchE (decrypt_private_key env (kp_encrypted_private_key key))
             (\<lambda>bytes. bindE (preload_cache env (si_target_service input) (si_algorithm input) (kp_version key) bytes)
               (\<lambda>_. returnE bytes))
             (\<lambda>err. bindE (audit_failure env ctx SignData (app_error_display err)) (\<lambda>_. throwE err)))"

definition sign_data :: "svc_env \<Rightarrow> RequestContext \<Rightarrow> SignDataInput \<Rightarrow> SignDataOutput kms" where
  "sign_data env ctx input =
     (if si_algorithm input \<noteq> Ed25519 then
        bindE (audit_validation_failure env ctx SignData ''Only Ed25519 signing is supported'') (\<lambda>_.
          throwE (ValidationError ''Signing endpoint supports only Ed25519 keys''))
      else if \<not> authorize_key_access (sv_acl env) (si_caller_service input) (si_target_service input) (si_algorithm input) PrivateKey then
        deny env ctx SignData ''ACL Policy Violation''
      else
        bindE (read_cache (with_key (si_target_service input) (si_algorithm input) (\<lambda>_ b. b))) (\<lambda>hit.
        bindE (case hit of Some b \<Rightarrow> returnE b | None \<Rightarrow> load_signing_key env ctx input) (\<lambda>private_key_bytes.
          if length private_key_bytes < 32 then
            bindE (audit_failure env ctx SignData ''Invalid Ed25519 private key length'') (\<lambda>_.
              throwE (CryptoError ''Invalid Ed25519 private key length''))
          else
            let signature = sv_ed_sign env (take 32 private_key_bytes) (si_payload input) in
            bindE (case si_key_version input of
                     Some version \<Rightarrow> returnE version
                   | None \<Rightarrow>
                       bindE (on_db env (\<lambda>e. pg_get_active_key e (si_target_service input) (si_algorithm input))) (\<lambda>found.
                         returnE (case found of Some key \<Rightarrow> kp_version key | None \<Rightarrow> 0))) (\<lambda>output_version.
            bindE (audit_success env ctx SignData (Some (json_obj
                [(''target_service'', JStr (si_target_service input)), (''algorithm'', json_algorithm (si_algorithm input)),
                 (''key_version'', json_u32 output_version), (''payload_len'', JNum (int (length (si_payload input))))]))) (\<lambda>_.
              returnE \<lparr>so_service_id = si_target_service input, so_algorithm = si_algorithm input,
                       so_key_version = output_version, so_signature_bytes = signature\<rparr>)))))"

section \<open>Data keys and direct encryption\<close>

record GenerateDataKeyOutput =
  go_caller_service :: service_id
  go_algorithm :: KeyAlgorithm
  go_plaintext_dek :: bytes
  go_wrapped_dek :: bytes
  go_master_key_version :: int

definition generate_data_key_for ::
  "svc_env \<Rightarrow> RequestContext \<Rightarrow> service_id \<Rightarrow> KeyAlgorithm \<Rightarrow> GenerateDataKeyOutput kms" where
  "generate_data_key_for env ctx caller algorithm =
     (if \<not> authorize_key_access (sv_acl env) caller caller algorithm GenerateDataKeyAccess then
        deny env ctx GenerateDataKeyAction ''ACL Policy Violation for GenerateDataKey''
      else if algorithm \<noteq> AES256GCM then
        bindE (audit_validation_failure env ctx GenerateDataKeyAction ''Only AES256GCM is supported'') (\<lambda>_.
          throwE (ValidationError ''Only AES256GCM is supported for GenerateDataKey''))
      else
        bindE (service_generate_data_key env algorithm) (\<lambda>generated.
        bindE (audit_success env ctx GenerateDataKeyAction (Some (json_obj
            [(''target_service'', JStr caller), (''algorithm'', json_algorithm algorithm),
             (''master_key_version'', JNum (gk_master_key_version generated)),
             (''wrapped_len'', JNum (int (length (gk_wrapped generated))))]))) (\<lambda>_.
          returnE \<lparr>go_caller_service = caller, go_algorithm = gk_algorithm generated,
                   go_plaintext_dek = gk_plaintext generated, go_wrapped_dek = gk_wrapped generated,
                   go_master_key_version = gk_master_key_version generated\<rparr>)))"

definition encrypt_data :: "svc_env \<Rightarrow> RequestContext \<Rightarrow> bytes \<Rightarrow> EncryptedPrivateKey kms" where
  "encrypt_data env ctx plaintext =
     matchE (encrypt_private_key env plaintext)
       (\<lambda>data. bindE (audit_success env ctx EncryptData (Some (json_obj
             [(''plaintext_length'', JNum (int (length plaintext))), (''result'', JStr ''ok''),
              (''master_key_version'', JNum (epk_master_key_version data))]))) (\<lambda>_. returnE data))
       (\<lambda>err. bindE (audit_failure env ctx EncryptData (app_error_display err)) (\<lambda>_.
           throwE (CryptoError (app_error_display err))))"

definition decrypt_data :: "svc_env \<Rightarrow> RequestContext \<Rightarrow> EncryptedPrivateKey \<Rightarrow> bytes kms" where
  "decrypt_data env ctx encrypted =
     matchE (decrypt_private_key env encrypted)
       (\<lambda>data. bindE (audit_success env ctx DecryptData (Some (json_obj
             [(''ciphertext_length'', JNum (int (length (epk_ciphertext encrypted)))),
              (''master_key_version'', JNum (epk_master_key_version encrypted)), (''result'', JStr ''ok'')])))
           (\<lambda>_. returnE data))
       (\<lambda>err. bindE (audit_failure env ctx DecryptData (app_error_display err)) (\<lambda>_.
           throwE (CryptoError (app_error_display err))))"

section \<open>Rewrapping all keys\<close>

text \<open>The inner loop: every key of a batch is unwrapped and wrapped again.\<close>

fun rewrap_each ::
  "svc_env \<Rightarrow> int \<Rightarrow> KeyPairEntity list \<Rightarrow> (uuid \<times> EncryptedPrivateKey \<times> int) list kms" where
  "rewrap_each env current_version [] = returnE []"
| "rewrap_each env current_version (key # keys) =
     bindE (decrypt_private_key env (kp_encrypted_private_key key)) (\<lambda>decrypted.
     bindE (encrypt_private_key env decrypted) (\<lambda>reencrypted.
     bindE (rewrap_each env current_version keys) (\<lambda>rest.
       returnE ((kp_id key, reencrypted, current_version) # rest))))"

text \<open>One round of the outer loop: the number of keys it rewrapped, or \<^term>\<open>None\<close> when there was nothing to do.\<close>

definition rewrap_round :: "svc_env \<Rightarrow> int \<Rightarrow> nat \<Rightarrow> nat option kms" where
  "rewrap_round env current_version batch_size =
     bindE (on_db env (\<lambda>e. pg_get_keys_needing_rewrap e current_version batch_size)) (\<lambda>pending_keys.
       if pending_keys = [] then returnE None
       else
         bindE (rewrap_each env current_version pending_keys) (\<lambda>updated_keys.
         bindE (on_db env (\<lambda>e. pg_update_encrypted_keys_batch e updated_keys)) (\<lambda>_.
           returnE (Some (length updated_keys)))))"

text \<open>The outer loop has no bound, so a run that never ends is the value \<^term>\<open>None\<close>.\<close>

partial_function (option) rewrap_loop ::
  "svc_env \<Rightarrow> int \<Rightarrow> nat \<Rightarrow> nat \<Rightarrow> kms_state \<Rightarrow> ((AppError + nat) \<times> kms_state) option" where
  "rewrap_loop env current_version batch_size total_rewrapped s =
     (case rewrap_round env current_version batch_size s of
        (r, s1) \<Rightarrow>
          (case r of
             Inl e \<Rightarrow> Some (Inl e, s1)
           | Inr x \<Rightarrow>
               (case x of
                  None \<Rightarrow> Some (Inr total_rewrapped, s1)
                | Some n \<Rightarrow> rewrap_loop env current_version batch_size (total_rewrapped + n) s1)))"

declare rewrap_loop.simps [code]

definition rewrap_keys ::
  "svc_env \<Rightarrow> int \<Rightarrow> nat \<Rightarrow> kms_state \<Rightarrow> ((AppError + nat) \<times> kms_state) option" where
  "rewrap_keys env target_master_version batch_size s =
     (case current_master_key_version env s of
        (Inl e, s1) \<Rightarrow> Some (Inl e, s1)
      | (Inr current_version, s1) \<Rightarrow>
          if current_version \<noteq> target_master_version then
            Some (Inl (ValidationError (''Target master key version '' @ dec_int target_master_version
              @ '' does not match KMS active version '' @ dec_int current_version)), s1)
          else rewrap_loop env current_version batch_size 0 s1)"

end
