(* ===== verification/Key_Workers.thy ===== *)
theory Key_Workers
  imports Key_Usecases
begin

text \<open>What runs besides requests: waiting for the vHSM and the bootstrap of keys at start-up
  (\<^verbatim>\<open>kms-service/src/bootstrap.rs\<close>), and one round of each background worker (\<^verbatim>\<open>workers/\<close>).\<close>

section \<open>Start-up\<close>

definition poll_unsealed :: "serde_hsm \<Rightarrow> transport \<Rightarrow> string \<Rightarrow> bool" where
  "poll_unsealed sd tr socket_path =
     (case send_hsm_request sd tr socket_path (Encrypt ''master_key'' None (as_bytes ''healthcheck'')) of
        Inr (Encrypted _ _) \<Rightarrow> True
      | _ \<Rightarrow> False)"

text \<open>The wait polls with an encryption request; \<^verbatim>\<open>tr i\<close> is what the \<^verbatim>\<open>i\<close>-th poll meets.  The result is the number
  of the poll that succeeded.\<close>

partial_function (option) wait_for_vhsm_unsealed :: "serde_hsm \<Rightarrow> (nat \<Rightarrow> transport) \<Rightarrow> string \<Rightarrow> nat \<Rightarrow> nat option" where
  "wait_for_vhsm_unsealed sd tr socket_path i =
     (if poll_unsealed sd (tr i) socket_path then Some i
      else wait_for_vhsm_unsealed sd tr socket_path (Suc i))"

fun bootstrap_pair :: "svc_env \<Rightarrow> KeyAlgorithm \<Rightarrow> (RawKeyPair \<times> KeyPurpose) kms" where
  "bootstrap_pair env Ed25519 = bindE (generate_ed25519_keypair env) (\<lambda>p. returnE (p, Signing))"
| "bootstrap_pair env X25519 = bindE (generate_x25519_keypair env) (\<lambda>p. returnE (p, Encryption))"
| "bootstrap_pair env AES256GCM = bindE (generate_symmetric_key env) (\<lambda>p. returnE (p, Encryption))"
| "bootstrap_pair env HmacSha256 = bindE (generate_symmetric_key env) (\<lambda>p. returnE (p, Authentication))"
| "bootstrap_pair env EcdsaP256 =
     throwE (ValidationError ''ECDSA_P256 is not supported for bootstrap-generated service keys'')"

text \<open>The key of a rule: from the map of known keys, or new.\<close>

definition bootstrap_key :: "svc_env \<Rightarrow> slot \<Rightarrow> (slot \<rightharpoonup> KeyPairEntity) \<Rightarrow> (KeyPairEntity \<times> (slot \<rightharpoonup> KeyPairEntity)) kms" where
  "bootstrap_key env x key_map =
     (case key_map x of
        Some key \<Rightarrow> returnE (key, key_map)
      | None \<Rightarrow>
          bindE (bootstrap_pair env (snd x)) (\<lambda>(generated_key, purpose).
          bindE (encrypt_private_key env (rk_private_key_bytes generated_key)) (\<lambda>encrypted.
          bindE (now_v7 env) (\<lambda>key_id.
          bindE (utc_now env) (\<lambda>created_at.
            let new_key = \<lparr>kp_id = key_id, kp_service_id = fst x, kp_algorithm = snd x, kp_purpose = purpose,
                  kp_public_key_pem = rk_public_key_pem generated_key, kp_encrypted_private_key = encrypted, kp_version = 1,
                  kp_status = Active, kp_created_at = created_at, kp_expires_at = None\<rparr> in
            bindE (on_db env (\<lambda>e. pg_save_key e (sv_dbg env) new_key)) (\<lambda>_.
              returnE (new_key, key_map(x \<mapsto> new_key))))))))"

fun bootstrap_rules :: "svc_env \<Rightarrow> AccessRule list \<Rightarrow> (slot \<rightharpoonup> KeyPairEntity) \<Rightarrow> unit kms" where
  "bootstrap_rules env [] key_map = returnE ()"
| "bootstrap_rules env (rule # rules) key_map =
     (let x = (rule_target_service rule, rule_algorithm rule) in
      bindE (bootstrap_key env x key_map) (\<lambda>(key, key_map').
      bindE (if rule_preload rule then
               bindE (decrypt_private_key env (kp_encrypted_private_key key)) (\<lambda>private_key.
                 on_cache (cache_insert (fst x) (snd x) (kp_version key) private_key))
             else returnE ()) (\<lambda>_.
        bootstrap_rules env rules key_map')))"

definition key_map_of :: "KeyPairEntity list \<Rightarrow> slot \<rightharpoonup> KeyPairEntity" where
  "key_map_of keys = fold (\<lambda>k m. m((kp_service_id k, kp_algorithm k) \<mapsto> k)) keys (\<lambda>_. None)"

definition bootstrap_keys :: "svc_env \<Rightarrow> AclSettings \<Rightarrow> unit kms" where
  "bootstrap_keys env acl_settings =
     bindE (on_db env pg_get_all_active_keys) (\<lambda>active_keys.
       bootstrap_rules env (concat (map (\<lambda>(_, cfg). cfg_allowed_access cfg) (acl_services acl_settings)))
         (key_map_of active_keys))"

section \<open>Workers\<close>

text \<open>One round of the cache cleanup; a failing lookup is ignored.\<close>

fun cleanup_each :: "svc_env \<Rightarrow> timestamp \<Rightarrow> KeyCacheKey list \<Rightarrow> unit kms" where
  "cleanup_each env t [] = returnE ()"
| "cleanup_each env t (k # ks) =
     matchE (on_db env (\<lambda>e. pg_get_active_or_valid_deprecated_key e (kck_target_service k) (kck_algorithm k) t))
       (\<lambda>found. if found = None
          then bindE (on_cache (remove_all_for_service (kck_target_service k))) (\<lambda>_. cleanup_each env t ks)
          else cleanup_each env t ks)
       (\<lambda>_. cleanup_each env t ks)"

definition cache_cleanup_round :: "svc_env \<Rightarrow> unit kms" where
  "cache_cleanup_round env =
     bindE (read_cache keys_snapshot) (\<lambda>ks. bindE (utc_now env) (\<lambda>t. cleanup_each env t ks))"

definition expired_log :: "svc_env \<Rightarrow> uuid \<Rightarrow> timestamp \<Rightarrow> KeyPairEntity \<Rightarrow> AuditLog" where
  "expired_log env new_id t key = \<lparr>al_id = new_id, al_caller_service = kp_service_id key, al_target_service = kp_service_id key,
     al_action = KeyExpired, al_algorithm = kp_algorithm key, al_status = Success,
     al_reason = sanitize_reason (Some ''Deprecated period expired; key expired automatically''),
     al_request_id = None, al_operation_id = None, al_target_id = Some (ad_uuid (sv_audit env) (kp_id key)),
     al_metadata = Some ''key_expired'', al_timestamp = t\<rparr>"

fun expire_each :: "svc_env \<Rightarrow> KeyPairEntity list \<Rightarrow> unit kms" where
  "expire_each env [] = returnE ()"
| "expire_each env (key # keys) =
     bindE (on_db env (\<lambda>e. pg_update_key_status e (kp_id key) Expired None)) (\<lambda>_.
     bindE (now_v7 env) (\<lambda>new_id.
     bindE (utc_now env) (\<lambda>t.
     bindE (on_db env (\<lambda>e. pg_audit_record (sv_audit env) e (expired_log env new_id t key))) (\<lambda>_.
       expire_each env keys))))"

definition process_expirations :: "svc_env \<Rightarrow> unit kms" where
  "process_expirations env =
     bindE (utc_now env) (\<lambda>t.
     bindE (on_db env (\<lambda>e. pg_get_deprecated_keys_expired e t)) (\<lambda>expired. expire_each env expired))"

text \<open>The reconciliation worker only reports: the stale rows it reads, oldest first, at most 100.\<close>

definition stale_provisioning :: "timestamp \<Rightarrow> (kms_db, sqlx_error, uuid list) sm" where
  "stale_provisioning t = query (\<lambda>db. take 100 (map pr_id (order_by (\<lambda>a b. pr_created_at a \<le> pr_created_at b)
     (filter (\<lambda>r. pr_status r \<in> {''PENDING'', ''PROVISIONING'', ''FAILED'', ''REVOKING''}
        \<and> pr_created_at r < t - 5 * 60 * 1000000000) (provisioned_tbl db)))))"

definition reconcile_stale_provisioning :: "svc_env \<Rightarrow> uuid list kms" where
  "reconcile_stale_provisioning env =
     bindE (utc_now env) (\<lambda>t. on_db env (\<lambda>e. map_errE (db_error e) (stale_provisioning t)))"

end
