(* ===== verification/Key_Lifecycle.thy ===== *)
theory Key_Lifecycle
  imports Key_Workers
begin

text \<open>The life of a key across database, cache and vHSM.  The abstract view of the service is the map from slots to
  the version and private key they hold (\<^const>\<open>secret_of\<close>); the cache is coherent when everything in it is what that map
  has.\<close>

section \<open>Definitions used by the properties\<close>

definition coherent :: "svc_env \<Rightarrow> kms_state \<Rightarrow> bool" where
  "coherent env s = (cached (ks_cache s) \<subseteq>\<^sub>m secret_of env s)"

text \<open>The private key that the generator for an algorithm yields in call \<^verbatim>\<open>i\<close>.\<close>

fun fresh_private :: "svc_env \<Rightarrow> KeyAlgorithm \<Rightarrow> nat \<Rightarrow> bytes option" where
  "fresh_private env Ed25519 i = Some (sv_signing_key env i)"
| "fresh_private env X25519 i = Some (sv_static_secret env i)"
| "fresh_private env AES256GCM i = (case sv_random env i of Inr b \<Rightarrow> Some b | Inl _ \<Rightarrow> None)"
| "fresh_private env HmacSha256 i = (case sv_random env i of Inr b \<Rightarrow> Some b | Inl _ \<Rightarrow> None)"
| "fresh_private env EcdsaP256 i = None"

definition env_ok :: "svc_env \<Rightarrow> bool" where
  "env_ok env = (transport_ok env \<and> daemon_crypto_ok env)"

section \<open>Lemmas\<close>

lemma on_db_run:
  assumes "on_db env m s = (r, t)"
  obtains db where "m (sv_db env (ks_tick s)) (ks_db s) = (r, db)" "ks_db t = db" "ks_cache t = ks_cache s" "ks_hsm t = ks_hsm s"
  using assms by (auto simp: on_db_def split: prod.splits)

lemma map_key_row_slot:
  assumes "map_key_row row = Inr k"
  shows "kp_service_id k = kr_service_id row" "algorithm_debug (kp_algorithm k) = kr_algorithm row"
  using assms by (auto simp: map_key_row_def bindR_eq_Inr_iff algorithm_of_row_def split: if_splits)

lemma get_active_slot:
  assumes "pg_get_active_key e (fst x) (snd x) db = (Inr (Some k), db')"
  shows "(kp_service_id k, kp_algorithm k) = x" "active_key db x = Some (material k)"
proof -
  from get_active_key_cases [OF assms] have row: "map_optional_row (active_in (slot_key x) (keys_tbl db)) = Inr (Some k)"
    by simp
  then obtain r where r: "active_in (slot_key x) (keys_tbl db) = Some r" "map_key_row r = Inr k"
    by (cases "active_in (slot_key x) (keys_tbl db)") (auto simp: bindR_eq_Inr_iff)
  from r(1) have "key_slot r = slot_key x" unfolding active_in_def find_Some_iff by auto
  with map_key_row_slot [OF r(2)] show "(kp_service_id k, kp_algorithm k) = x"
    by (cases x) (auto simp: key_slot_def slot_key_def simp flip: algorithm_debug_inject)
  show "active_key db x = Some (material k)" using map_optional_row_view [OF row] by simp
qed

lemma get_active_Inr:
  assumes "on_db env (\<lambda>e. pg_get_active_key e service algo) s = (Inr found, t)"
  shows "same_keys s t" "found = None \<Longrightarrow> repo_ok (ks_db s) \<Longrightarrow> active_key (ks_db s) (service, algo) = None"
    "found = Some k \<Longrightarrow> kp_service_id k = service \<and> kp_algorithm k = algo \<and> active_key (ks_db s) (service, algo) = Some (material k)"
proof -
  show "same_keys s t" using assms by (rule quietD [OF quiet_on_db [OF keys_pg_get(1)]])
  from assms obtain db where run: "pg_get_active_key (sv_db env (ks_tick s)) service algo (ks_db s) = (Inr found, db)"
    by (rule on_db_run)
  show "active_key (ks_db s) (service, algo) = None" if "found = None" "repo_ok (ks_db s)"
    using repo.get_result [of "ks_db s" _ "(service, algo)" found db] run that by fastforce
  show "kp_service_id k = service \<and> kp_algorithm k = algo \<and> active_key (ks_db s) (service, algo) = Some (material k)"
    if "found = Some k"
    using get_active_slot [of _ "(service, algo)" "ks_db s" k db] run that by simp
qed

lemma secret_of_active:
  assumes "active_key (ks_db s) x = Some (material k)" "master_key (ks_hsm s) = Some m"
    and "decrypt_bytes (core (sv_hsm env)) m (epk_ciphertext (kp_encrypted_private_key k)) = Inr b"
  shows "secret_of env s x = Some (kp_version k, b)"
  using assms by (simp add: secret_of_def material_def unwrapped_def)

lemma secret_of_update:
  assumes "active_key (ks_db t) = (active_key (ks_db s))(x \<mapsto> material k)" "ks_hsm t = ks_hsm s" "master_key (ks_hsm s) = Some m"
    and "decrypt_bytes (core (sv_hsm env)) m (epk_ciphertext (kp_encrypted_private_key k)) = Inr b"
  shows "secret_of env t = (secret_of env s)(x \<mapsto> (kp_version k, b))"
proof
  fix y
  show "secret_of env t y = ((secret_of env s)(x \<mapsto> (kp_version k, b))) y"
    using assms by (cases "y = x") (simp_all add: secret_of_def material_def unwrapped_def)
qed

lemma quiet_generated_pair [quiets]: "quiet (generated_pair env msg algo)"
  by (cases algo) (simp_all add: quiets)

lemma generated_pair_Inr:
  assumes "generated_pair env msg algo s = (Inr pair, t)"
  shows "fresh_private env algo (ks_tick s) = Some (rk_private_key_bytes pair)" "algo \<noteq> EcdsaP256"
proof -
  show "algo \<noteq> EcdsaP256" using assms by auto
  then show "fresh_private env algo (ks_tick s) = Some (rk_private_key_bytes pair)"
    using assms by (cases algo) (auto simp: generate_ed25519_keypair_def generate_x25519_keypair_def
      generate_symmetric_key_def try_fill_bytes_def bindE_eq_Inr_iff next_call_def)
qed

lemma decrypt_private_key_Inr:
  assumes "transport_ok env" "decrypt_private_key env x s = (Inr b, t)"
  shows "same_keys s t" "\<exists>m. master_key (ks_hsm s) = Some m \<and> decrypt_bytes (core (sv_hsm env)) m (epk_ciphertext x) = Inr b"
  using quietD [OF quiet_service(2) [OF assms(1)] assms(2)] client_decrypt_Inr [OF assms(1)] assms(2)
  by (auto simp: decrypt_private_key_def)

lemma service_inv_parts: "service_inv s \<Longrightarrow> repo_ok (ks_db s)" "service_inv s \<Longrightarrow> vhsm_inv (ks_hsm s)" "service_inv s \<Longrightarrow> cache_ok (ks_cache s)"
  by (simp_all add: service_inv_def)

subsection \<open>Storing a new key\<close>

text \<open>Generating and wrapping a key pair, then taking an id and the time, touches nothing; the wrapped key unwraps to the
  generated one.\<close>

definition wrapped_pair :: "svc_env \<Rightarrow> string \<Rightarrow> KeyAlgorithm \<Rightarrow> (RawKeyPair \<times> EncryptedPrivateKey \<times> uuid \<times> timestamp) kms" where
  "wrapped_pair env msg algo =
     bindE (generated_pair env msg algo) (\<lambda>pair.
     bindE (encrypt_private_key env (rk_private_key_bytes pair)) (\<lambda>encrypted.
     bindE (now_v7 env) (\<lambda>key_id. bindE (utc_now env) (\<lambda>created_at.
       returnE (pair, encrypted, key_id, created_at)))))"

lemma wrapped_pair_Inr:
  assumes "env_ok env" "vhsm_inv (ks_hsm s)" "wrapped_pair env msg algo s = (Inr (pair, encrypted, key_id, created_at), t)"
  shows "same_keys s t" "fresh_private env algo (ks_tick s) = Some (rk_private_key_bytes pair)" "algo \<noteq> EcdsaP256"
    "\<exists>m. master_key (ks_hsm s) = Some m \<and> decrypt_bytes (core (sv_hsm env)) m (epk_ciphertext encrypted) = Inr (rk_private_key_bytes pair)"
proof -
  have q: "quiet (wrapped_pair env msg algo)"
    unfolding wrapped_pair_def using assms(1) by (intro quiets) (simp_all add: env_ok_def)
  then show "same_keys s t" using assms(3) by (rule quietD)
  from assms(3) obtain s1 s2 where run: "generated_pair env msg algo s = (Inr pair, s1)"
    "encrypt_private_key env (rk_private_key_bytes pair) s1 = (Inr encrypted, s2)"
    by (auto simp: wrapped_pair_def bindE_eq_Inr_iff)
  from generated_pair_Inr [OF run(1)]
  show "fresh_private env algo (ks_tick s) = Some (rk_private_key_bytes pair)" "algo \<noteq> EcdsaP256" by simp_all
  have "ks_hsm s1 = ks_hsm s" using quietD [OF quiet_generated_pair run(1)] by (rule same_keysD)
  with encrypt_private_key_Inr [OF _ _ _ run(2)] assms(1,2)
  show "\<exists>m. master_key (ks_hsm s) = Some m \<and> decrypt_bytes (core (sv_hsm env)) m (epk_ciphertext encrypted) = Inr (rk_private_key_bytes pair)"
    by (simp add: env_ok_def)
qed

text \<open>Saving an entity whose wrapped key unwraps to \<^verbatim>\<open>b\<close> makes \<^verbatim>\<open>b\<close> the secret of its slot.\<close>

lemma saved_secret:
  assumes "service_inv s" "storable x k" "on_db env (\<lambda>e. pg_save_key e dbg k) s = (Inr u, t)"
    and "master_key (ks_hsm s) = Some m" "decrypt_bytes (core (sv_hsm env)) m (epk_ciphertext (kp_encrypted_private_key k)) = Inr b"
  shows "secret_of env t = (secret_of env s)(x \<mapsto> (kp_version k, b))" "service_inv t" "ks_cache t = ks_cache s" "ks_hsm t = ks_hsm s"
proof -
  from assms(3) obtain db where run: "pg_save_key (sv_db env (ks_tick s)) dbg k (ks_db s) = (Inr u, db)"
    and t: "ks_db t = db" "ks_cache t = ks_cache s" "ks_hsm t = ks_hsm s" by (rule on_db_run)
  have "repo_ok db \<and> active_key db = (active_key (ks_db s))(x \<mapsto> material k)"
    using repo.save_ok [OF service_inv_parts(1) [OF assms(1)] assms(2)] run by simp
  with secret_of_update [of t s x k m env b] assms t
  show "secret_of env t = (secret_of env s)(x \<mapsto> (kp_version k, b))" "service_inv t" "ks_cache t = ks_cache s" "ks_hsm t = ks_hsm s"
    by (simp_all add: service_inv_def)
qed

lemma rotated_secret:
  assumes "service_inv s" "storable x k" "on_db env (\<lambda>e. pg_rotate_active_key e (fst x) (snd x) k du) s = (Inr r, t)"
    and "master_key (ks_hsm s) = Some m" "decrypt_bytes (core (sv_hsm env)) m (epk_ciphertext (kp_encrypted_private_key k)) = Inr b"
  shows "r" "secret_of env t = (secret_of env s)(x \<mapsto> (kp_version k, b))" "service_inv t" "ks_cache t = ks_cache s" "ks_hsm t = ks_hsm s"
proof -
  from assms(3) obtain db where run: "pg_rotate_active_key (sv_db env (ks_tick s)) (fst x) (snd x) k du (ks_db s) = (Inr r, db)"
    and t: "ks_db t = db" "ks_cache t = ks_cache s" "ks_hsm t = ks_hsm s" by (rule on_db_run)
  have "r \<and> repo_ok db \<and> active_key db = (active_key (ks_db s))(x \<mapsto> material k)"
    using repo.rotate_ok [OF service_inv_parts(1) [OF assms(1)] assms(2) run] .
  with secret_of_update [of t s x k m env b] assms t
  show "r" "secret_of env t = (secret_of env s)(x \<mapsto> (kp_version k, b))" "service_inv t" "ks_cache t = ks_cache s" "ks_hsm t = ks_hsm s"
    by (simp_all add: service_inv_def)
qed

subsection \<open>Generating\<close>

definition retire_current :: "svc_env \<Rightarrow> service_id \<Rightarrow> KeyAlgorithm \<Rightarrow> u32 kms" where
  "retire_current env service algo =
     bindE (on_db env (\<lambda>e. pg_get_active_key e service algo)) (\<lambda>current_key.
       case current_key of
         Some key \<Rightarrow> bindE (on_db env (\<lambda>e. pg_deactivate_keys_for_service e service algo)) (\<lambda>_. returnE (kp_version key + 1))
       | None \<Rightarrow> returnE 1)"

lemma retire_current_Inr:
  assumes "service_inv s" "retire_current env service algo s = (Inr v, t)"
  shows "service_inv t" "ks_cache t = ks_cache s" "ks_hsm t = ks_hsm s" "secret_of env t = (secret_of env s)((service, algo) := None)"
    "v = (case active_key (ks_db s) (service, algo) of None \<Rightarrow> 1 | Some mat \<Rightarrow> fst mat + 1)"
proof -
  from assms(2) obtain found s1 where get: "on_db env (\<lambda>e. pg_get_active_key e service algo) s = (Inr found, s1)"
    and rest: "(case found of Some key \<Rightarrow> bindE (on_db env (\<lambda>e. pg_deactivate_keys_for_service e service algo)) (\<lambda>_. returnE (kp_version key + 1))
       | None \<Rightarrow> returnE 1) s1 = (Inr v, t)"
    by (auto simp: retire_current_def bindE_eq_Inr_iff)
  note g = get_active_Inr [OF get] and same = same_keysD [OF get_active_Inr(1) [OF get]]
  have inv1: "service_inv s1" using assms(1) same(1) by simp
  have "service_inv t \<and> ks_cache t = ks_cache s \<and> ks_hsm t = ks_hsm s
     \<and> active_key (ks_db t) = (active_key (ks_db s))((service, algo) := None)
     \<and> v = (case active_key (ks_db s) (service, algo) of None \<Rightarrow> 1 | Some mat \<Rightarrow> fst mat + 1)"
  proof (cases found)
    case None
    with rest g(2) service_inv_parts(1) [OF assms(1)] inv1 same show ?thesis by auto
  next
    case (Some k)
    with rest obtain u where d: "on_db env (\<lambda>e. pg_deactivate_keys_for_service e service algo) s1 = (Inr u, t)"
      and v: "v = kp_version k + 1" by (auto simp: bindE_eq_Inr_iff)
    from d obtain db where run: "pg_deactivate_keys_for_service (sv_db env (ks_tick s1)) service algo (ks_db s1) = (Inr u, db)"
      and t: "ks_db t = db" "ks_cache t = ks_cache s1" "ks_hsm t = ks_hsm s1" by (rule on_db_run)
    have "repo_ok db \<and> active_key db = (active_key (ks_db s1))((service, algo) := None)"
      using repo.retire_ok [OF service_inv_parts(1) [OF inv1], of _ "(service, algo)"] run by simp
    with t v same inv1 g(3) [OF Some] show ?thesis by (simp add: service_inv_def material_def)
  qed
  then show "service_inv t" "ks_cache t = ks_cache s" "ks_hsm t = ks_hsm s"
    "secret_of env t = (secret_of env s)((service, algo) := None)"
    "v = (case active_key (ks_db s) (service, algo) of None \<Rightarrow> 1 | Some mat \<Rightarrow> fst mat + 1)"
    by (auto simp: secret_of_def)
qed

text \<open>The phases of the use case.\<close>

lemma generate_key_pair_Inr:
  assumes "env_ok env" "service_inv s" "generate_key_pair env ctx input s = (Inr e, t)"
  defines "x \<equiv> (gi_service_id input, gi_algorithm input)"
  shows "service_inv t" "ks_cache t = ks_cache s"
    "kp_version e = (case active_key (ks_db s) x of None \<Rightarrow> 1 | Some mat \<Rightarrow> fst mat + 1)"
    "\<exists>i b. fresh_private env (gi_algorithm input) i = Some b \<and> secret_of env t = (secret_of env s)(x \<mapsto> (kp_version e, b))"
proof -
  from assms(3) have "may_generate (sv_acl env) (gi_caller_service input)"
    by (cases "may_generate (sv_acl env) (gi_caller_service input)")
       (auto simp: generate_key_pair_def deny_def bindE_eq_Inr_iff)
  with assms(3) obtain v s1 pair encrypted key_id created_at s2 u s3 u' where
    retire: "retire_current env (gi_service_id input) (gi_algorithm input) s = (Inr v, s1)"
    and wrap: "wrapped_pair env ''ECDSA_P256 is not supported for in-process key generation'' (gi_algorithm input) s1
        = (Inr (pair, encrypted, key_id, created_at), s2)"
    and e: "e = \<lparr>kp_id = key_id, kp_service_id = gi_service_id input, kp_algorithm = gi_algorithm input,
                kp_purpose = gi_purpose input, kp_public_key_pem = rk_public_key_pem pair,
                kp_encrypted_private_key = encrypted, kp_version = v, kp_status = Active,
                kp_created_at = created_at, kp_expires_at = None\<rparr>"
    and save: "on_db env (\<lambda>d. pg_save_key d (sv_dbg env) e) s2 = (Inr u, s3)"
    and audit: "audit_success env ctx GenerateKey (Some (json_obj
              [(''target_service'', JStr (gi_service_id input)), (''algorithm'', json_algorithm (gi_algorithm input)),
               (''key_id'', JStr (ad_uuid (sv_audit env) key_id)), (''version'', json_u32 v),
               (''purpose'', JStr (purpose_debug (gi_purpose input)))])) s3 = (Inr u', t)"
    unfolding generate_key_pair_def retire_current_def wrapped_pair_def
    by (auto simp: bindE_eq_Inr_iff Let_def)
  note r = retire_current_Inr [OF assms(2) retire]
  note w = wrapped_pair_Inr [OF assms(1) service_inv_parts(2) [OF r(1)] wrap]
  note s2 = same_keysD [OF w(1)]
  from w(4) obtain m where m: "master_key (ks_hsm s1) = Some m"
    "decrypt_bytes (core (sv_hsm env)) m (epk_ciphertext encrypted) = Inr (rk_private_key_bytes pair)" by blast
  have st: "storable x e" using w(3) by (simp add: e x_def storable_def)
  have "service_inv s2" using r(1) s2(1) by simp
  note sv = saved_secret [OF this st save, of m "rk_private_key_bytes pair"]
  have q: "same_keys s3 t" using audit by (rule quietD [OF quiet_audit(1)])
  note fin = same_keysD [OF q]
  show "service_inv t" "ks_cache t = ks_cache s" using sv m s2 r fin by (simp_all add: e)
  show "kp_version e = (case active_key (ks_db s) x of None \<Rightarrow> 1 | Some mat \<Rightarrow> fst mat + 1)" using r(5) by (simp add: e x_def)
  have "secret_of env t = (secret_of env s)(x \<mapsto> (kp_version e, rk_private_key_bytes pair))"
    using sv(1) m s2 r(4) fin(2) by (simp add: e x_def)
  with w(2) show "\<exists>i b. fresh_private env (gi_algorithm input) i = Some b \<and> secret_of env t = (secret_of env s)(x \<mapsto> (kp_version e, b))"
    by blast
qed

subsection \<open>Rotating\<close>

lemma rotate_key_Inr:
  assumes "env_ok env" "service_inv s" "rotate_key env ctx input s = (Inr e, t)"
  defines "x \<equiv> (ri_service_id input, ri_algorithm input)"
  shows "service_inv t" "ks_cache t = invalidate input (ks_cache s)"
    "\<exists>mat. active_key (ks_db s) x = Some mat \<and> kp_version e = fst mat + 1"
    "\<exists>i b. fresh_private env (ri_algorithm input) i = Some b \<and> secret_of env t = (secret_of env s)(x \<mapsto> (kp_version e, b))"
proof -
  from assms(3) have "authorize_control_action (sv_acl env) (ri_caller_service input) (required_action input)"
    by (cases "authorize_control_action (sv_acl env) (ri_caller_service input) (required_action input)")
       (auto simp: rotate_key_def deny_def bindE_eq_Inr_iff)
  with assms(3) obtain k s1 pair encrypted key_id created_at s2 du s3 was s4 s5 u where
    get: "on_db env (\<lambda>d. pg_get_active_key d (ri_service_id input) (ri_algorithm input)) s = (Inr (Some k), s1)"
    and wrap: "wrapped_pair env ''ECDSA_P256 rotation is not supported by this service'' (ri_algorithm input) s1
        = (Inr (pair, encrypted, key_id, created_at), s2)"
    and e: "e = \<lparr>kp_id = key_id, kp_service_id = ri_service_id input, kp_algorithm = ri_algorithm input,
                kp_purpose = kp_purpose k, kp_public_key_pem = rk_public_key_pem pair,
                kp_encrypted_private_key = encrypted, kp_version = kp_version k + 1, kp_status = Active,
                kp_created_at = created_at, kp_expires_at = None\<rparr>"
    and until: "(if ri_reason input = CompromisedRotation then returnE None
                 else bindE (utc_now env) (\<lambda>t. returnE (Some (t + sv_grace_period_minutes env * 60 * 1000000000)))) s2
        = ((Inr du :: AppError + timestamp option), s3)"
    and rot: "on_db env (\<lambda>d. pg_rotate_active_key d (ri_service_id input) (ri_algorithm input) e du) s3 = (Inr was, s4)"
    and s5: "s5 = s4\<lparr>ks_cache := invalidate input (ks_cache s4)\<rparr>"
    and audit: "audit_success env ctx KeyRotated (Some (json_obj
                  [(''service_id'', JStr (ri_service_id input)), (''algorithm'', json_algorithm (ri_algorithm input)),
                   (''reason'', JStr (reason_debug (ri_reason input))), (''actor_id'', JStr (ri_actor_id input)),
                   (''new_version'', json_u32 (kp_version k + 1))])) s5 = (Inr u, t)"
    unfolding rotate_key_def wrapped_pair_def
    by (auto simp: bindE_eq_Inr_iff Let_def on_cache_def simp del: if_split split: if_split_asm)
  note g = same_keysD [OF get_active_Inr(1) [OF get]] and k = get_active_Inr(3) [OF get refl]
  have inv1: "service_inv s1" using assms(2) g(1) by simp
  note w = wrapped_pair_Inr [OF assms(1) service_inv_parts(2) [OF inv1] wrap]
  note s2 = same_keysD [OF w(1)]
  have "quiet (if ri_reason input = CompromisedRotation then returnE None
                 else bindE (utc_now env) (\<lambda>t. returnE (Some (t + sv_grace_period_minutes env * 60 * 1000000000))))"
    by (simp add: quiets)
  note s3 = same_keysD [OF quietD [OF this until]]
  from w(4) obtain m where m: "master_key (ks_hsm s3) = Some m"
    "decrypt_bytes (core (sv_hsm env)) m (epk_ciphertext (kp_encrypted_private_key e)) = Inr (rk_private_key_bytes pair)"
    using s2 s3 by (auto simp: e)
  have st: "storable x e" using w(3) by (simp add: e x_def storable_def)
  have "service_inv s3" using inv1 s2(1) s3(1) by simp
  note rs = rotated_secret [OF this st, of env du was s4 m "rk_private_key_bytes pair", unfolded x_def fst_conv snd_conv, OF rot m]
  note fin = same_keysD [OF quietD [OF quiet_audit(1) audit]]
  have "cache_ok (invalidate input (ks_cache s4))"
    using service_inv_parts(3) [OF rs(3)] key_cache.inv_drop [of "ks_cache s4" "(ri_service_id input, ri_algorithm input)"]
      key_cache.inv_drop_owner [of "ks_cache s4" "ri_service_id input"]
    by (simp add: invalidate_def)
  then have "service_inv s5" using rs(3) by (simp add: s5 service_inv_def)
  then show "service_inv t" using fin(1) by simp
  show "ks_cache t = invalidate input (ks_cache s)" using fin(3) rs(4) s3(3) s2(3) g(3) by (simp add: s5)
  show "\<exists>mat. active_key (ks_db s) x = Some mat \<and> kp_version e = fst mat + 1" using k by (simp add: e x_def material_def)
  have "secret_of env s5 = secret_of env s4" by (rule ext) (simp add: s5 secret_of_def)
  with rs(2) fin(2) s3(2) s2(2) g(2) have "secret_of env t = (secret_of env s)(x \<mapsto> (kp_version e, rk_private_key_bytes pair))"
    by (simp add: x_def)
  with w(2) show "\<exists>i b. fresh_private env (ri_algorithm input) i = Some b \<and> secret_of env t = (secret_of env s)(x \<mapsto> (kp_version e, b))"
    by blast
qed

lemma coherent_rotate:
  assumes "env_ok env" "service_inv s" "coherent env s" "rotate_key env ctx input s = (Inr e, t)"
  shows "coherent env t"
proof -
  note r = rotate_key_Inr [OF assms(1,2,4)]
  from r(4) obtain b where "secret_of env t = (secret_of env s)((ri_service_id input, ri_algorithm input) \<mapsto> (kp_version e, b))"
    by blast
  then show ?thesis
    using assms(3) r(2) key_cache.agree_drop [of "ks_cache s" "secret_of env s" "(ri_service_id input, ri_algorithm input)"]
      key_cache.agree_drop_owner [of "ks_cache s" "secret_of env s" "(ri_service_id input, ri_algorithm input)" "ri_service_id input"]
    by (simp add: coherent_def invalidate_def)
qed

subsection \<open>Reading\<close>

text \<open>Both use cases that return a private key, with the messages that tell them apart.\<close>

definition read_key ::
  "svc_env \<Rightarrow> RequestContext \<Rightarrow> KeyInput \<Rightarrow> KeyAccessLevel \<Rightarrow> AuditAction \<Rightarrow> string \<Rightarrow> string \<Rightarrow> AppError \<Rightarrow> KeyOutput kms" where
  "read_key env ctx input level action denied missing not_found =
     (if \<not> authorize_key_access (sv_acl env) (ki_caller_service input) (ki_target_service input) (ki_algorithm input) level then
        deny env ctx action denied
      else
        bindE (read_cache (with_key (ki_target_service input) (ki_algorithm input) Pair)) (\<lambda>hit.
          case hit of
            Some (cached_version, cached_bytes) \<Rightarrow>
              bindE (audit_success env ctx action (Some (cache_hit_details input))) (\<lambda>_.
                returnE \<lparr>ko_service_id = ki_target_service input, ko_algorithm = ki_algorithm input,
                         ko_version = cached_version, ko_bytes = cached_bytes\<rparr>)
          | None \<Rightarrow>
              bindE (on_db env (\<lambda>e. pg_get_active_key e (ki_target_service input) (ki_algorithm input))) (\<lambda>found.
                case found of
                  None \<Rightarrow> bindE (audit_validation_failure env ctx action missing) (\<lambda>_. throwE not_found)
                | Some key \<Rightarrow>
                    bindE (decrypt_private_key env (kp_encrypted_private_key key)) (\<lambda>decrypted.
                    bindE (preload_cache env (ki_target_service input) (ki_algorithm input) (kp_version key) decrypted) (\<lambda>_.
                    bindE (audit_success env ctx action (Some (key_read_details input (kp_version key)))) (\<lambda>_.
                      returnE \<lparr>ko_service_id = kp_service_id key, ko_algorithm = kp_algorithm key,
                               ko_version = kp_version key, ko_bytes = decrypted\<rparr>))))))"

lemma read_key_instances:
  "get_private_key env ctx input = read_key env ctx input PrivateKey GetPrivateKey ''ACL Policy Violation'' ''Key does not exist''
     (NotFound ''Key not found'')"
  "get_symmetric_key env ctx input = read_key env ctx input SymmetricKey GetSymmetricKey ''ACL Policy Violation for Symmetric Key''
     ''Symmetric Key does not exist'' (NotFound (''Brak aktywnego klucza symetrycznego dla '' @ ki_target_service input))"
  by (simp_all add: get_private_key_def get_symmetric_key_def read_key_def)

text \<open>A state that satisfies the invariant, whose cache is coherent and whose slots hold \<^verbatim>\<open>sec\<close>.\<close>

definition good :: "svc_env \<Rightarrow> (slot \<rightharpoonup> u32 \<times> bytes) \<Rightarrow> kms_state \<Rightarrow> bool" where
  "good env sec s = (service_inv s \<and> coherent env s \<and> secret_of env s = sec)"

lemma good_same: "same_keys s t \<Longrightarrow> good env sec t = good env sec s"
  by (simp add: good_def coherent_def same_keysD)

lemma outcome_quiet: "quiet m \<Longrightarrow> outcome (good env sec) m (\<lambda>_. good env sec)"
  by (auto simp: outcome_def dest: quietD good_same)

lemma quiet_deny [quiets]: "quiet (deny env ctx action reason)"
  unfolding deny_def by (intro quiets)

lemma outcome_get_active:
  "outcome (good env sec) (on_db env (\<lambda>e. pg_get_active_key e service algo))
     (\<lambda>r t. good env sec t \<and> (\<forall>k. r = Inr (Some k) \<longrightarrow> active_key (ks_db t) (service, algo) = Some (material k)
        \<and> kp_service_id k = service \<and> kp_algorithm k = algo))"
proof -
  have "active_key (ks_db t) (service, algo) = Some (material k) \<and> kp_service_id k = service \<and> kp_algorithm k = algo"
    if "on_db env (\<lambda>e. pg_get_active_key e service algo) s = (Inr (Some k), t)" for s t k
    using get_active_Inr(3) [OF that refl] same_keysD(5) [OF get_active_Inr(1) [OF that]] by simp
  then show ?thesis
    using outcomeD [OF outcome_quiet [OF quiet_on_db [OF keys_pg_get(1)]]] by (fastforce simp: outcome_def)
qed

lemma outcome_decrypt:
  assumes "transport_ok env"
  shows "outcome (\<lambda>s. good env sec s \<and> active_key (ks_db s) x = Some (material k)) (decrypt_private_key env (kp_encrypted_private_key k))
     (\<lambda>r t. good env sec t \<and> (\<forall>b. r = Inr b \<longrightarrow> sec x = Some (kp_version k, b)))"
proof -
  have "sec x = Some (kp_version k, b)"
    if "good env sec s" "active_key (ks_db s) x = Some (material k)" "decrypt_private_key env (kp_encrypted_private_key k) s = (Inr b, t)" for s t b
    using decrypt_private_key_Inr(2) [OF assms that(3)] secret_of_active [OF that(2)] that(1) by (auto simp: good_def)
  then show ?thesis
    using outcomeD [OF outcome_quiet [OF quiet_service(2) [OF assms]]] by (fastforce simp: outcome_def)
qed

lemma secret_of_cache [simp]: "secret_of env (s\<lparr>ks_cache := c\<rparr>) = secret_of env s"
  by (rule ext) (simp add: secret_of_def)

lemma outcome_preload:
  assumes "sec (target, algo) = Some (v, b)"
  shows "outcome (good env sec) (preload_cache env target algo v b) (\<lambda>_. good env sec)"
proof -
  have "good env sec (s\<lparr>ks_cache := cache_insert target algo v b (ks_cache s)\<rparr>)" if "good env sec s" for s
    using that assms key_cache.agree_put [of "ks_cache s" sec "(target, algo)" "(v, b)"]
      key_cache.inv_put [of "ks_cache s" "(target, algo)" "(v, b)"]
    by (auto simp: good_def coherent_def service_inv_def)
  then show ?thesis by (auto simp: preload_cache_def on_cache_def outcome_def)
qed

text \<open>What a key that was read tells about the slot.\<close>

definition read_post :: "svc_env \<Rightarrow> (slot \<rightharpoonup> u32 \<times> bytes) \<Rightarrow> KeyInput \<Rightarrow> AppError + KeyOutput \<Rightarrow> kms_state \<Rightarrow> bool" where
  "read_post env sec input r t = (good env sec t \<and> (\<forall>out. r = Inr out \<longrightarrow>
     sec (ki_target_service input, ki_algorithm input) = Some (ko_version out, ko_bytes out)
     \<and> ko_service_id out = ki_target_service input \<and> ko_algorithm out = ki_algorithm input))"

lemma outcome_audited:
  assumes "quiet m" "\<And>t. good env sec t \<Longrightarrow> Q r t" "\<And>e t. good env sec t \<Longrightarrow> Q (Inl e) t"
  shows "outcome (good env sec) (bindE m (\<lambda>_. liftE r)) Q"
  by (rule outcome_bindE [OF outcome_quiet [OF assms(1)]]) (use assms(2,3) in \<open>auto intro: outcome_liftE\<close>)

lemma returnE_liftE: "returnE x = liftE (Inr x)" "throwE e = liftE (Inl e)"
  by (simp_all add: returnE_def throwE_def liftE_def)

lemma outcome_read_fetched:
  assumes "transport_ok env" "kp_service_id k = ki_target_service input" "kp_algorithm k = ki_algorithm input"
  shows "outcome (\<lambda>s. good env sec s \<and> active_key (ks_db s) (ki_target_service input, ki_algorithm input) = Some (material k))
    (bindE (decrypt_private_key env (kp_encrypted_private_key k)) (\<lambda>decrypted.
     bindE (preload_cache env (ki_target_service input) (ki_algorithm input) (kp_version k) decrypted) (\<lambda>_.
     bindE (audit_success env ctx action (Some (key_read_details input (kp_version k)))) (\<lambda>_.
       returnE \<lparr>ko_service_id = kp_service_id k, ko_algorithm = kp_algorithm k, ko_version = kp_version k, ko_bytes = decrypted\<rparr>))))
    (read_post env sec input)"
proof (rule outcome_bindE [OF outcome_decrypt [OF assms(1), where x = "(ki_target_service input, ki_algorithm input)" and k = k]], goal_cases)
  case (1 b)
  have "outcome (good env sec)
     (bindE (preload_cache env (ki_target_service input) (ki_algorithm input) (kp_version k) b) (\<lambda>_.
      bindE (audit_success env ctx action (Some (key_read_details input (kp_version k)))) (\<lambda>_.
       returnE \<lparr>ko_service_id = kp_service_id k, ko_algorithm = kp_algorithm k, ko_version = kp_version k, ko_bytes = b\<rparr>)))
     (read_post env sec input)"
    if sec: "sec (ki_target_service input, ki_algorithm input) = Some (kp_version k, b)"
    unfolding returnE_liftE
    by (rule outcome_bindE [OF outcome_preload [where sec = sec, OF sec]], rule outcome_audited [OF quiet_audit(1)])
       (simp_all add: read_post_def sec assms(2,3))
  note step = this
  show ?case
    by (rule outcome_given [where A = "sec (ki_target_service input, ki_algorithm input) = Some (kp_version k, b)"], erule step) auto
qed (simp add: read_post_def)

lemma outcome_read_key:
  assumes "transport_ok env"
  shows "outcome (good env sec) (read_key env ctx input level action denied missing not_found) (read_post env sec input)"
  unfolding read_key_def
proof (rule outcome_if, goal_cases)
  case 1
  show ?case unfolding deny_def returnE_liftE by (rule outcome_audited [OF quiet_audit(3)]) (simp_all add: read_post_def)
next
  case 2
  have hit: "outcome (good env sec) (read_cache (with_key (ki_target_service input) (ki_algorithm input) Pair))
      (\<lambda>r t. good env sec t \<and> (\<forall>vb. r = Inr (Some vb) \<longrightarrow> sec (ki_target_service input, ki_algorithm input) = Some vb))"
    by (auto simp: outcome_def read_cache_def good_def coherent_def with_key_cached map_le_def dom_def)
  show ?case
  proof (rule outcome_bindE [OF hit], goal_cases)
    case (1 h)
    have "outcome (good env sec) (case h of
            Some (cached_version, cached_bytes) \<Rightarrow>
              bindE (audit_success env ctx action (Some (cache_hit_details input))) (\<lambda>_.
                returnE \<lparr>ko_service_id = ki_target_service input, ko_algorithm = ki_algorithm input,
                         ko_version = cached_version, ko_bytes = cached_bytes\<rparr>)
          | None \<Rightarrow>
              bindE (on_db env (\<lambda>e. pg_get_active_key e (ki_target_service input) (ki_algorithm input))) (\<lambda>found.
                case found of
                  None \<Rightarrow> bindE (audit_validation_failure env ctx action missing) (\<lambda>_. throwE not_found)
                | Some key \<Rightarrow>
                    bindE (decrypt_private_key env (kp_encrypted_private_key key)) (\<lambda>decrypted.
                    bindE (preload_cache env (ki_target_service input) (ki_algorithm input) (kp_version key) decrypted) (\<lambda>_.
                    bindE (audit_success env ctx action (Some (key_read_details input (kp_version key)))) (\<lambda>_.
                      returnE \<lparr>ko_service_id = kp_service_id key, ko_algorithm = kp_algorithm key,
                               ko_version = kp_version key, ko_bytes = decrypted\<rparr>))))) (read_post env sec input)"
      if h: "\<And>vb. h = Some vb \<Longrightarrow> sec (ki_target_service input, ki_algorithm input) = Some vb"
    proof (cases h)
      case (Some vb)
      obtain v b where vb: "vb = (v, b)" by (cases vb)
      show ?thesis
        unfolding Some vb option.case prod.case returnE_liftE
        by (rule outcome_audited [OF quiet_audit(1)]) (use h Some vb in \<open>simp_all add: read_post_def\<close>)
    next
      case None
      show ?thesis
        unfolding None option.case
      proof (rule outcome_bindE [OF outcome_get_active], goal_cases)
        case (1 found)
        show ?case
        proof (cases found)
          case None
          have "outcome (good env sec) (bindE (audit_validation_failure env ctx action missing) (\<lambda>_. throwE not_found)) (read_post env sec input)"
            unfolding returnE_liftE by (rule outcome_audited [OF quiet_audit(4)]) (simp_all add: read_post_def)
          then show ?thesis unfolding None option.case by (rule outcome_weaken) simp_all
        next
          case (Some k)
          show ?thesis
            unfolding Some option.case
            by (rule outcome_given [OF outcome_read_fetched [OF assms], where A = "kp_service_id k = ki_target_service input
                \<and> kp_algorithm k = ki_algorithm input"]) auto
        qed
      qed (simp add: read_post_def)
    qed
    note step = this
    show ?case by (rule outcome_given [where A = "\<forall>vb. h = Some vb \<longrightarrow> sec (ki_target_service input, ki_algorithm input) = Some vb"], rule step) auto
  qed (simp add: read_post_def)
qed

subsection \<open>All outcomes of a rotation\<close>

text \<open>The daemon can unwrap \<^verbatim>\<open>c\<close> to \<^verbatim>\<open>b\<close>.\<close>

definition unwraps :: "svc_env \<Rightarrow> bytes \<Rightarrow> bytes \<Rightarrow> kms_state \<Rightarrow> bool" where
  "unwraps env c b s = (\<exists>m. master_key (ks_hsm s) = Some m \<and> decrypt_bytes (core (sv_hsm env)) m c = Inr b)"

lemma outcome_quiet_unwraps:
  "quiet m \<Longrightarrow> outcome (\<lambda>s. good env sec s \<and> unwraps env c b s) m (\<lambda>_ s. good env sec s \<and> unwraps env c b s)"
  by (auto simp: outcome_def unwraps_def dest!: quietD dest: good_same same_keysD(4))

lemma outcome_encrypt:
  assumes "env_ok env"
  shows "outcome (good env sec) (encrypt_private_key env b)
    (\<lambda>r t. good env sec t \<and> (\<forall>x. r = Inr x \<longrightarrow> unwraps env (epk_ciphertext x) b t))"
proof -
  have t: "transport_ok env" "daemon_crypto_ok env" using assms by (simp_all add: env_ok_def)
  have "unwraps env (epk_ciphertext x) b u" if "good env sec s" "encrypt_private_key env b s = (Inr x, u)" for s u x
    using encrypt_private_key_Inr [OF t _ that(2)] that(1) same_keysD(4) [OF quietD [OF quiet_service(1) [OF t(1)] that(2)]]
    by (auto simp: good_def service_inv_def unwraps_def)
  then show ?thesis
    using outcomeD [OF outcome_quiet [OF quiet_service(1) [OF t(1)]]] by (fastforce simp: outcome_def)
qed

definition rotated_to :: "svc_env \<Rightarrow> (slot \<rightharpoonup> u32 \<times> bytes) \<Rightarrow> slot \<Rightarrow> kms_state \<Rightarrow> bool" where
  "rotated_to env sec x t = (good env sec t \<or> (\<exists>vb. good env (sec(x \<mapsto> vb)) t))"

lemma rotated_to_same: "same_keys s t \<Longrightarrow> rotated_to env sec x t = rotated_to env sec x s"
  by (simp add: rotated_to_def good_same)

lemma outcome_rotate_stored:
  assumes "storable x k" "x = (ri_service_id input, ri_algorithm input)"
  shows "outcome (\<lambda>s. good env sec s \<and> unwraps env (epk_ciphertext (kp_encrypted_private_key k)) b s)
    (bindE (on_db env (\<lambda>e. pg_rotate_active_key e (ri_service_id input) (ri_algorithm input) k du)) (\<lambda>was_rotated.
       if \<not> was_rotated then throwE err
       else bindE (on_cache (invalidate input)) (\<lambda>_. bindE (audit_success env ctx KeyRotated details) (\<lambda>_. returnE k))))
    (\<lambda>_. rotated_to env sec x)"
proof (rule outcome_bindE [where R = "\<lambda>r t. case r of Inl _ \<Rightarrow> good env sec t
      | Inr w \<Rightarrow> w \<and> service_inv t \<and> cached (ks_cache t) \<subseteq>\<^sub>m sec \<and> secret_of env t = sec(x \<mapsto> (kp_version k, b))"], goal_cases)
  case 1
  show ?case
    unfolding outcome_def
  proof (intro allI impI)
    fix s r t
    assume s: "good env sec s \<and> unwraps env (epk_ciphertext (kp_encrypted_private_key k)) b s"
      and run: "on_db env (\<lambda>e. pg_rotate_active_key e (ri_service_id input) (ri_algorithm input) k du) s = (r, t)"
    show "case r of Inl _ \<Rightarrow> good env sec t
      | Inr w \<Rightarrow> w \<and> service_inv t \<and> cached (ks_cache t) \<subseteq>\<^sub>m sec \<and> secret_of env t = sec(x \<mapsto> (kp_version k, b))"
    proof (cases r)
      case (Inl e)
      from run obtain db where "pg_rotate_active_key (sv_db env (ks_tick s)) (ri_service_id input) (ri_algorithm input) k du (ks_db s) = (Inl e, db)"
        "ks_db t = db" "ks_cache t = ks_cache s" "ks_hsm t = ks_hsm s" unfolding Inl by (rule on_db_run)
      moreover have "repo_ok (ks_db s)" using s by (simp add: good_def service_inv_def)
      ultimately have "repo_ok (ks_db t) \<and> active_key (ks_db t) = active_key (ks_db s)"
        using repo.rotate_failed [of "ks_db s" _ x k] assms(2) by fastforce
      moreover from this \<open>ks_hsm t = ks_hsm s\<close> have "secret_of env t = secret_of env s"
        by (intro ext) (simp add: secret_of_def)
      ultimately show ?thesis
        using s Inl \<open>ks_cache t = ks_cache s\<close> \<open>ks_hsm t = ks_hsm s\<close> by (auto simp: good_def service_inv_def coherent_def)
    next
      case (Inr w)
      from s obtain m where m: "master_key (ks_hsm s) = Some m"
        "decrypt_bytes (core (sv_hsm env)) m (epk_ciphertext (kp_encrypted_private_key k)) = Inr b"
        by (auto simp: unwraps_def)
      have "service_inv s" "secret_of env s = sec" "cached (ks_cache s) \<subseteq>\<^sub>m sec"
        using s by (auto simp: good_def coherent_def)
      with rotated_secret [OF _ assms(1) _ m, of du w t] run Inr assms(2) show ?thesis by simp
    qed
  qed
next
  case (2 w)
  show ?case
    unfolding outcome_def
  proof (intro allI impI)
    fix s r t
    assume s: "case Inr w of Inl _ \<Rightarrow> good env sec s
      | Inr w \<Rightarrow> w \<and> service_inv s \<and> cached (ks_cache s) \<subseteq>\<^sub>m sec \<and> secret_of env s = sec(x \<mapsto> (kp_version k, b))"
      and run: "(if \<not> w then throwE err
       else bindE (on_cache (invalidate input)) (\<lambda>_. bindE (audit_success env ctx KeyRotated details) (\<lambda>_. returnE k))) s = (r, t)"
    let ?s = "s\<lparr>ks_cache := invalidate input (ks_cache s)\<rparr>"
    have inv: "cache_ok (invalidate input (ks_cache s))"
      using s key_cache.inv_drop [of "ks_cache s" x] key_cache.inv_drop_owner [of "ks_cache s" "fst x"]
      by (simp add: invalidate_def service_inv_def assms(2))
    have "cached (invalidate input (ks_cache s)) \<subseteq>\<^sub>m sec(x \<mapsto> (kp_version k, b))"
      using s key_cache.agree_drop [of "ks_cache s" sec x] key_cache.agree_drop_owner [of "ks_cache s" sec x "fst x"]
      by (simp add: invalidate_def assms(2))
    with s inv have g: "good env (sec(x \<mapsto> (kp_version k, b))) ?s" by (simp add: good_def coherent_def service_inv_def)
    have q: "quiet (bindE (audit_success env ctx KeyRotated details) (\<lambda>_. returnE k))" by (intro quiets)
    have "bindE (audit_success env ctx KeyRotated details) (\<lambda>_. returnE k) ?s = (r, t)"
      using run s by (simp add: on_cache_def bindE_def)
    from good_same [OF quietD [OF q this]] g show "rotated_to env sec x t"
      unfolding rotated_to_def by blast
  qed
qed (simp add: rotated_to_def)

lemma outcome_rotate_key:
  assumes "env_ok env"
  shows "outcome (good env sec) (rotate_key env ctx input) (\<lambda>_. rotated_to env sec (ri_service_id input, ri_algorithm input))"
  unfolding rotate_key_def
proof (rule outcome_if, goal_cases)
  case 1
  show ?case unfolding deny_def returnE_liftE by (rule outcome_audited [OF quiet_audit(3)]) (simp_all add: rotated_to_def)
next
  case 2
  let ?x = "(ri_service_id input, ri_algorithm input)"
  show ?case
  proof (rule outcome_bindE [OF outcome_quiet [OF quiet_on_db [OF keys_pg_get(1)]]], goal_cases)
    case (1 found)
    show ?case
    proof (rule outcome_bindE [OF outcome_quiet [OF quiet_basic(3)]], goal_cases)
      case (1 current)
      show ?case
      proof (cases "ri_algorithm input = EcdsaP256")
        case True
        then show ?thesis by (auto simp: outcome_def bindE_def rotated_to_def)
      next
        case alg: False
        show ?thesis
        proof (rule outcome_bindE [OF outcome_quiet [OF quiet_generated_pair]], goal_cases)
          case (1 pair)
          show ?case
          proof (rule outcome_bindE [OF outcome_encrypt [OF assms]], goal_cases)
            case (1 encrypted)
            let ?P = "\<lambda>s. good env sec s \<and> unwraps env (epk_ciphertext encrypted) (rk_private_key_bytes pair) s"
            have "outcome ?P (bindE (now_v7 env) (\<lambda>key_id. bindE (utc_now env) (\<lambda>created_at.
                let new_entity = \<lparr>kp_id = key_id, kp_service_id = ri_service_id input, kp_algorithm = ri_algorithm input,
                kp_purpose = kp_purpose current, kp_public_key_pem = rk_public_key_pem pair,
                kp_encrypted_private_key = encrypted, kp_version = kp_version current + 1, kp_status = Active,
                kp_created_at = created_at, kp_expires_at = None\<rparr> in
              bindE (if ri_reason input = CompromisedRotation then returnE None
                 else bindE (utc_now env) (\<lambda>t. returnE (Some (t + sv_grace_period_minutes env * 60 * 1000000000)))) (\<lambda>deprecated_until.
              bindE (on_db env (\<lambda>e. pg_rotate_active_key e (ri_service_id input) (ri_algorithm input) new_entity deprecated_until)) (\<lambda>was_rotated.
                if \<not> was_rotated then
                  throwE (Conflict ''Failed to rotate key atomically: concurrent modification or active-key race'')
                else
                  bindE (on_cache (invalidate input)) (\<lambda>_.
                  bindE (audit_success env ctx KeyRotated (Some (json_obj
                    [(''service_id'', JStr (ri_service_id input)), (''algorithm'', json_algorithm (ri_algorithm input)),
                     (''reason'', JStr (reason_debug (ri_reason input))), (''actor_id'', JStr (ri_actor_id input)),
                     (''new_version'', json_u32 (kp_version current + 1))]))) (\<lambda>_.
                    returnE new_entity))))))) (\<lambda>_. rotated_to env sec ?x)"
              unfolding Let_def
              by (intro outcome_bindE [where P = ?P and R = "\<lambda>_. ?P"] outcome_quiet_unwraps quiet_basic quiet_bindE
                  outcome_weaken [OF outcome_rotate_stored [where x = ?x and input = input]])
                 (use alg in \<open>auto simp: storable_def rotated_to_def intro!: quiets\<close>)
            then show ?case by (rule outcome_weaken) auto
          qed (simp add: rotated_to_def)
        qed (simp add: rotated_to_def)
      qed
    qed (simp add: rotated_to_def)
  qed (simp add: rotated_to_def)
qed

end
