(* ===== verification/Key_Theorems.thy ===== *)
theory Key_Theorems
  imports Key_Lifecycle "HOL-Library.Code_Target_Nat"
begin

text \<open>The requests and workers of the key service as one step relation, its invariant, and the properties of the key
  service: which key a caller gets, what a rotation changes, and what the rewrap and start-up loops do.\<close>

section \<open>Runs of the service\<close>

text \<open>The requests and rounds that leave the cache coherent.  Each may succeed or fail at any point; the daemon's state
  is changed by none of them.\<close>

inductive service_step :: "svc_env \<Rightarrow> kms_state \<Rightarrow> kms_state \<Rightarrow> bool" for env :: svc_env where
  step_rotate: "service_step env s (snd (rotate_key env ctx ri s))"
| step_get_private: "service_step env s (snd (get_private_key env ctx ki s))"
| step_get_symmetric: "service_step env s (snd (get_symmetric_key env ctx ki s))"
| step_get_public: "service_step env s (snd (get_public_key env ctx service algo s))"
| step_sign: "si_key_version si = None \<Longrightarrow> service_step env s (snd (sign_data env ctx si s))"
| step_data_key: "service_step env s (snd (generate_data_key_for env ctx caller algo s))"
| step_encrypt: "service_step env s (snd (encrypt_data env ctx plaintext s))"
| step_decrypt: "service_step env s (snd (decrypt_data env ctx encrypted s))"
| step_cleanup: "service_step env s (snd (cache_cleanup_round env s))"
| step_expire: "service_step env s (snd (process_expirations env s))"
| step_rewrap: "service_step env s (snd (rewrap_round env version batch_size s))"

text \<open>The service as it starts: the tables are well formed and nothing is cached.\<close>

definition service_init :: "kms_state \<Rightarrow> bool" where
  "service_init s = (service_inv s \<and> ks_cache s = cache_new)"

section \<open>A sample service\<close>

text \<open>A serialiser of short wrap and unwrap requests, a connection that works, and a service that owns one Ed25519 key.\<close>

definition sample_req_to_vec :: "HsmRequest \<Rightarrow> string + bytes" where
  "sample_req_to_vec r =
     (case r of
        Status \<Rightarrow> Inr [2, 0]
      | Encrypt k v p \<Rightarrow> if k = ''master_key'' \<and> v = None \<and> length p < 200 then Inr (3 # word_of_nat (length p) # p) else Inl ''unsupported''
      | Decrypt k v p \<Rightarrow> if k = ''master_key'' \<and> v = None \<and> length p < 200 then Inr (4 # word_of_nat (length p) # p) else Inl ''unsupported''
      | _ \<Rightarrow> Inl ''unsupported'')"

definition sample_req_from_slice :: "bytes \<Rightarrow> string + HsmRequest" where
  "sample_req_from_slice b =
     (case b of
        t # n # p \<Rightarrow>
          if unat n \<noteq> length p then Inl ''malformed''
          else if t = 2 \<and> p = [] then Inr Status
          else if t = 3 then Inr (Encrypt ''master_key'' None p)
          else if t = 4 then Inr (Decrypt ''master_key'' None p) else Inl ''malformed''
      | _ \<Rightarrow> Inl ''malformed'')"

definition sample_resp_to_vec :: "HsmResponse \<Rightarrow> string + bytes" where
  "sample_resp_to_vec r =
     (case r of StatusInfo b v \<Rightarrow> if b \<and> v = 1 then Inr [4] else Inl ''unsupported''
      | Encrypted c v \<Rightarrow> if v = 1 then Inr (5 # c) else Inl ''unsupported''
      | Decrypted p v \<Rightarrow> if v = 1 then Inr (6 # p) else Inl ''unsupported'' | _ \<Rightarrow> Inl ''unsupported'')"

definition sample_resp_from_slice :: "bytes \<Rightarrow> string + HsmResponse" where
  "sample_resp_from_slice b =
     (case b of t # p \<Rightarrow> if t = 4 \<and> p = [] then Inr (StatusInfo True 1) else if t = 5 then Inr (Encrypted p 1) else if t = 6 then Inr (Decrypted p 1) else Inl ''malformed''
      | _ \<Rightarrow> Inl ''malformed'')"

definition sample_hop :: hop where
  "sample_hop = \<lparr>hop_connect = Done, hop_header = Done, hop_payload = Done, hop_sent = 0, hop_served = True,
     hop_ctx = sample_ctx, hop_partial = \<lambda>_ _. [], hop_received = 1000, hop_end = Closed\<rparr>"

definition sample_acl :: CompiledAcl where
  "sample_acl = \<lparr>acl_access = {\<lparr>ark_caller = ''svc'', ark_target = ''svc'', ark_algorithm = Ed25519, ark_access_level = PrivateKey\<rparr>},
     acl_preload = {\<lparr>pk_target = ''svc'', pk_algorithm = Ed25519\<rparr>},
     acl_actions = [''svc'' \<mapsto> {RotateOwnKeys}]\<rparr>"

definition sample_svc :: svc_env where
  "sample_svc = \<lparr>sv_hsm = sample_hsm,
     sv_serde = \<lparr>req_to_vec = sample_req_to_vec, req_from_slice = sample_req_from_slice,
       resp_to_vec = sample_resp_to_vec, resp_from_slice = sample_resp_from_slice\<rparr>,
     sv_socket_path = [], sv_hop = \<lambda>_. sample_hop, sv_db = \<lambda>_. sample_env,
     sv_audit = sample_audit_lib\<lparr>ad_json := \<lambda>_. []\<rparr>, sv_dbg = \<lambda>_. [], sv_uuid = \<lambda>i. 100 + i, sv_now = \<lambda>i. int i,
     sv_random = \<lambda>i. Inr (replicate 32 (word_of_nat i)), sv_signing_key = \<lambda>i. replicate 32 (word_of_nat i),
     sv_ed_public = \<lambda>b. b, sv_ed_pem = \<lambda>b. Inr ''pem'', sv_ed_sign = \<lambda>k m. k @ m,
     sv_static_secret = \<lambda>i. replicate 32 (word_of_nat i), sv_x_public = \<lambda>b. b, sv_pem_encode = \<lambda>_ _. ''pem'',
     sv_acl = sample_acl, sv_grace_period_minutes = 30\<rparr>"

definition sample_wrapped :: bytes where
  "sample_wrapped = replicate 12 9 @ replicate 32 8 @ replicate 32 1"

definition sample_kms :: kms_state where
  "sample_kms = \<lparr>ks_db = empty_db\<lparr>keys_tbl := [stored_row sample_env (sample_key 1 1 sample_wrapped)]\<rparr>,
     ks_cache = cache_new, ks_hsm = sample_state, ks_tick = 0\<rparr>"

definition sample_read :: KeyInput where
  "sample_read = \<lparr>ki_caller_service = ''svc'', ki_target_service = ''svc'', ki_algorithm = Ed25519\<rparr>"

definition sample_rotation :: RotateKeyInput where
  "sample_rotation = \<lparr>ri_service_id = ''svc'', ri_algorithm = Ed25519, ri_caller_service = ''svc'', ri_reason = ScheduledRotation, ri_actor_id = ''ops''\<rparr>"

section \<open>Lemmas\<close>

subsection \<open>Requests that only observe\<close>

lemma quiet_observers [quiets]:
  "quiet (get_public_key env ctx service algo)"
  "transport_ok env \<Longrightarrow> quiet (generate_data_key_for env ctx caller algo)"
  "transport_ok env \<Longrightarrow> quiet (encrypt_data env ctx plaintext)"
  "transport_ok env \<Longrightarrow> quiet (decrypt_data env ctx encrypted)"
proof -
  have "quiet (case key of
         Some k \<Rightarrow>
           bindE (audit_success env ctx GetPublicKey (Some (json_obj [(''service_id'', JStr service),
               (''algorithm'', json_algorithm algo), (''key_version'', json_u32 (kp_version k))]))) (\<lambda>_. returnE k)
       | None \<Rightarrow> bindE (audit_validation_failure env ctx GetPublicKey reason) (\<lambda>_. throwE err))" for key reason err
    by (cases key) (simp_all add: quiets)
  then show "quiet (get_public_key env ctx service algo)"
    unfolding get_public_key_def by (intro quiet_bindE quiet_basic quiet_on_db keys_pg_get)
qed (unfold generate_data_key_for_def encrypt_data_def decrypt_data_def, (intro quiets; assumption?)+)

subsection \<open>Signing with the active key\<close>

lemma outcome_load_signing_key:
  assumes "transport_ok env" "si_key_version input = None"
  shows "outcome (good env sec) (load_signing_key env ctx input) (\<lambda>r t. good env sec t
    \<and> (\<forall>b. r = Inr b \<longrightarrow> (\<exists>v. sec (si_target_service input, si_algorithm input) = Some (v, b))))"
  unfolding load_signing_key_def assms(2) option.case
proof (rule outcome_bindE [OF outcome_get_active], goal_cases)
  case (1 found)
  let ?x = "(si_target_service input, si_algorithm input)"
  show ?case
  proof (cases found)
    case None
    have "outcome (good env sec) (bindE (audit_validation_failure env ctx SignData ''Signing key not found'') (\<lambda>_.
        throwE (NotFound ''Signing key not found''))) (\<lambda>r t. good env sec t \<and> (\<forall>b. r = Inr b \<longrightarrow> (\<exists>v. sec ?x = Some (v, b))))"
      unfolding returnE_liftE by (rule outcome_audited [OF quiet_audit(4)]) simp_all
    then show ?thesis unfolding None option.case by (rule outcome_weaken) simp_all
  next
    case (Some k)
    show ?thesis
      unfolding Some option.case
    proof (rule outcome_matchE [OF outcome_pre [OF outcome_decrypt [OF assms(1), where x = ?x and k = k and sec = sec]]], goal_cases)
      case (2 b)
      have "outcome (good env sec) (bindE (preload_cache env (si_target_service input) (si_algorithm input) (kp_version k) b) (\<lambda>_. returnE b))
          (\<lambda>r t. good env sec t \<and> (\<forall>b. r = Inr b \<longrightarrow> (\<exists>v. sec ?x = Some (v, b))))"
        if "sec ?x = Some (kp_version k, b)"
        by (rule outcome_bindE [OF outcome_preload [where sec = sec, OF that]]) (auto intro!: outcome_returnE simp: that)
      note step = this
      show ?case by (rule outcome_given [where A = "sec ?x = Some (kp_version k, b)"], erule step) auto
    next
      case (3 e)
      have "outcome (good env sec) (bindE (audit_failure env ctx SignData (app_error_display e)) (\<lambda>_. throwE e))
          (\<lambda>r t. good env sec t \<and> (\<forall>b. r = Inr b \<longrightarrow> (\<exists>v. sec ?x = Some (v, b))))"
        unfolding returnE_liftE by (rule outcome_audited [OF quiet_audit(2)]) simp_all
      then show ?case by (rule outcome_weaken) simp_all
    qed auto
  qed
qed simp

text \<open>The version that an unversioned signature reports.\<close>

lemma outcome_active_version:
  assumes "sec (service, algo) = Some (v, b)"
  shows "outcome (good env sec) (on_db env (\<lambda>e. pg_get_active_key e service algo)) (\<lambda>r t. good env sec t
    \<and> (\<forall>found. r = Inr found \<longrightarrow> (case found of Some k \<Rightarrow> kp_version k | None \<Rightarrow> 0) = v))"
proof -
  have "(case found of Some k \<Rightarrow> kp_version k | None \<Rightarrow> 0) = v"
    if s: "good env sec s" and run: "on_db env (\<lambda>e. pg_get_active_key e service algo) s = (Inr found, t)" for s t found
  proof -
    have "secret_of env s (service, algo) = Some (v, b)" "repo_ok (ks_db s)"
      using s assms by (simp_all add: good_def service_inv_def)
    then show ?thesis
      using get_active_Inr(2,3) [OF run]
      by (cases found) (auto simp: secret_of_def unwrapped_def material_def bind_eq_Some_conv split: option.splits sum.splits)
  qed
  then show ?thesis
    using outcomeD [OF outcome_quiet [OF quiet_on_db [OF keys_pg_get(1)]]] by (fastforce simp: outcome_def)
qed

definition signed_post :: "svc_env \<Rightarrow> (slot \<rightharpoonup> u32 \<times> bytes) \<Rightarrow> SignDataInput \<Rightarrow> AppError + SignDataOutput \<Rightarrow> kms_state \<Rightarrow> bool" where
  "signed_post env sec input r t = (good env sec t \<and> (\<forall>out. r = Inr out \<longrightarrow>
     (\<exists>b. sec (si_target_service input, Ed25519) = Some (so_key_version out, b) \<and> 32 \<le> length b
        \<and> so_signature_bytes out = sv_ed_sign env (take 32 b) (si_payload input))))"

lemma outcome_signed:
  assumes sec: "sec (si_target_service input, Ed25519) = Some (v, b)" and input: "si_key_version input = None" "si_algorithm input = Ed25519"
  shows "outcome (good env sec)
    (if length b < 32 then bindE (audit_failure env ctx SignData m1) (\<lambda>_. throwE err)
     else let signature = sv_ed_sign env (take 32 b) (si_payload input) in
       bindE (case si_key_version input of
                     Some version \<Rightarrow> returnE version
                   | None \<Rightarrow>
                       bindE (on_db env (\<lambda>e. pg_get_active_key e (si_target_service input) (si_algorithm input))) (\<lambda>found.
                         returnE (case found of Some key \<Rightarrow> kp_version key | None \<Rightarrow> 0))) (\<lambda>output_version.
            bindE (audit_success env ctx SignData (details output_version)) (\<lambda>_.
              returnE \<lparr>so_service_id = si_target_service input, so_algorithm = si_algorithm input,
                       so_key_version = output_version, so_signature_bytes = signature\<rparr>)))
    (signed_post env sec input)"
proof (rule outcome_if, goal_cases)
  case 1
  show ?case unfolding returnE_liftE by (rule outcome_audited [OF quiet_audit(2)]) (simp_all add: signed_post_def)
next
  case 2
  have v: "outcome (good env sec) (bindE (on_db env (\<lambda>e. pg_get_active_key e (si_target_service input) Ed25519)) (\<lambda>found.
      returnE (case found of Some key \<Rightarrow> kp_version key | None \<Rightarrow> 0))) (\<lambda>r t. good env sec t \<and> (\<forall>w. r = Inr w \<longrightarrow> w = v))"
    by (rule outcome_bindE [OF outcome_active_version [where sec = sec, OF sec]]) (auto intro!: outcome_returnE)
  show ?case
    unfolding input option.case Let_def
  proof (rule outcome_bindE [OF v], goal_cases)
    case (1 w)
    have "outcome (good env sec) (bindE (audit_success env ctx SignData (details w)) (\<lambda>_.
        returnE \<lparr>so_service_id = si_target_service input, so_algorithm = Ed25519, so_key_version = w,
          so_signature_bytes = sv_ed_sign env (take 32 b) (si_payload input)\<rparr>)) (signed_post env sec input)"
      if "w = v"
      unfolding returnE_liftE by (rule outcome_audited [OF quiet_audit(1)]) (use 2 sec that in \<open>simp_all add: signed_post_def\<close>)
    note step = this
    show ?case by (rule outcome_given [where A = "w = v"], erule step) auto
  qed (simp add: signed_post_def)
qed

lemma outcome_sign_data:
  assumes "transport_ok env" "si_key_version input = None"
  shows "outcome (good env sec) (sign_data env ctx input) (signed_post env sec input)"
  unfolding sign_data_def
proof (intro outcome_if, goal_cases)
  case 1
  show ?case unfolding returnE_liftE by (rule outcome_audited [OF quiet_audit(4)]) (simp_all add: signed_post_def)
next
  case 2
  show ?case unfolding deny_def returnE_liftE by (rule outcome_audited [OF quiet_audit(3)]) (simp_all add: signed_post_def)
next
  case 3
  let ?x = "(si_target_service input, Ed25519)"
  from 3 have alg: "si_algorithm input = Ed25519" by simp
  have hit: "outcome (good env sec) (read_cache (with_key (si_target_service input) (si_algorithm input) (\<lambda>_ b. b)))
      (\<lambda>r t. good env sec t \<and> (\<forall>b. r = Inr (Some b) \<longrightarrow> (\<exists>v. sec ?x = Some (v, b))))"
    by (auto simp: outcome_def read_cache_def good_def coherent_def with_key_cached map_le_def dom_def alg)
  have load: "outcome (\<lambda>s. good env sec s \<and> (\<forall>b. h = Some b \<longrightarrow> (\<exists>v. sec ?x = Some (v, b))))
      (case h of Some b \<Rightarrow> returnE b | None \<Rightarrow> load_signing_key env ctx input)
      (\<lambda>r t. good env sec t \<and> (\<forall>b. r = Inr b \<longrightarrow> (\<exists>v. sec ?x = Some (v, b))))" for h
  proof (cases h)
    case None
    then show ?thesis using outcome_load_signing_key [OF assms, of sec ctx] by (simp add: alg)
  qed (auto intro: outcome_returnE)
  show ?case
  proof (rule outcome_bindE [OF hit], goal_cases)
    case (1 h)
    show ?case
    proof (rule outcome_bindE [OF outcome_pre [OF load [of h]]], goal_cases)
      case (2 b)
      show ?case
        by (rule outcome_given [where A = "\<exists>v. sec ?x = Some (v, b)"], erule exE, erule outcome_signed [OF _ assms(2) alg]) auto
    qed (auto simp: signed_post_def)
  qed (simp add: signed_post_def)
qed

subsection \<open>Background rounds\<close>

lemma good_forget: "good env sec s \<Longrightarrow> good env sec (s\<lparr>ks_cache := remove_all_for_service w (ks_cache s)\<rparr>)"
  using key_cache.agree_drop_owner [of "ks_cache s" sec "(w, Ed25519)" w "sec (w, Ed25519)"] key_cache.inv_drop_owner [of "ks_cache s" w]
  by (auto simp: good_def coherent_def service_inv_def)

lemma outcome_cleanup_each: "outcome (good env sec) (cleanup_each env t ks) (\<lambda>_. good env sec)"
proof (induction ks)
  case Nil
  show ?case unfolding cleanup_each.simps by (rule outcome_returnE)
next
  case (Cons k ks)
  have forget: "outcome (good env sec) (on_cache (remove_all_for_service w)) (\<lambda>_. good env sec)" for w
    by (auto simp: outcome_def on_cache_def good_forget)
  show ?case
    unfolding cleanup_each.simps
    by (rule outcome_matchE [OF outcome_quiet [OF quiet_on_db [OF keys_pg_get(3)]]])
       (auto intro: outcome_if outcome_bindE [OF forget] Cons.IH)
qed

lemma outcome_cache_cleanup: "outcome (good env sec) (cache_cleanup_round env) (\<lambda>_. good env sec)"
  unfolding cache_cleanup_round_def
  by (intro outcome_bindE [OF outcome_quiet] outcome_cleanup_each quiet_basic) simp_all

text \<open>A call of the repository that keeps the active keys keeps the service's keys.\<close>

lemma good_on_db:
  assumes "good env sec s" "on_db env m s = (r, t)" "repo_ok (ks_db t)" "active_key (ks_db t) = active_key (ks_db s)"
  shows "good env sec t"
proof -
  from assms(2) have t: "ks_cache t = ks_cache s" "ks_hsm t = ks_hsm s" by (auto elim: on_db_run)
  with assms(4) have "secret_of env t = secret_of env s" by (intro ext) (simp add: secret_of_def)
  with assms(1,3) t show ?thesis by (auto simp: good_def coherent_def service_inv_def)
qed

text \<open>Rows with these ids are not active.\<close>

definition idle :: "uuid set \<Rightarrow> kms_db \<Rightarrow> bool" where
  "idle ids db = (\<forall>r\<in>set (keys_tbl db). kr_id r \<in> ids \<longrightarrow> \<not> kr_is_active r)"

lemma expire_row:
  assumes "repo_ok db" "idle ids db" "i \<in> ids" "pg_update_key_status e i Expired until db = (r, db')"
  shows "repo_ok db'" "idle ids db'" "active_key db' = active_key db"
proof -
  show ok: "repo_ok db'" using preservesD [OF repo_ok_status assms(1), of e i Expired until] assms(4) by simp
  let ?f = "\<lambda>q. if kr_id q = i then q\<lparr>kr_status := ''Expired'', kr_is_active := False\<rparr> else q"
  from assms(4) have "keys_tbl db' = keys_tbl db \<or> keys_tbl db' = map ?f (keys_tbl db)"
    by (auto simp: pg_update_key_status_def update_key_row_status_def map_errE_def exec_def set_keys_def Let_def
        split: list.splits option.splits sum.splits prod.splits)
  then show "idle ids db'" "active_key db' = active_key db"
  proof (atomize (full), elim disjE, goal_cases)
    case 1
    with assms(2) active_key_cong [OF 1] show ?case by (simp add: idle_def)
  next
    case 2
    have "q \<in> set (keys_tbl db') \<longleftrightarrow> q \<in> set (keys_tbl db)" if "kr_is_active q" for q
      using assms(2,3) that unfolding 2 idle_def by (force simp: image_iff)
    then have "active_in ks (keys_tbl db') = active_in ks (keys_tbl db)" for ks
      using ok assms(1) by (intro active_in_cong) (auto simp: repo_ok_iff)
    then have "active_key db' = active_key db" by (intro ext) (simp add: active_key_def)
    moreover have "idle ids db'" using assms(2) unfolding 2 idle_def by auto
    ultimately show ?case by simp
  qed
qed

definition good_idle :: "svc_env \<Rightarrow> (slot \<rightharpoonup> u32 \<times> bytes) \<Rightarrow> uuid set \<Rightarrow> kms_state \<Rightarrow> bool" where
  "good_idle env sec ids s = (good env sec s \<and> idle ids (ks_db s))"

lemma good_idle_quiet: "quiet m \<Longrightarrow> outcome (good_idle env sec ids) m (\<lambda>_. good_idle env sec ids)"
  unfolding outcome_def
proof (intro allI impI)
  fix s r t assume m: "quiet m" "good_idle env sec ids s" "m s = (r, t)"
  then have st: "same_keys s t" by (blast dest: quietD)
  from good_same [OF st, of env sec] m(2) st show "good_idle env sec ids t"
    by (simp add: good_idle_def idle_def same_keys_def)
qed

lemma outcome_expire_each:
  assumes "kp_id ` set keys \<subseteq> ids"
  shows "outcome (good_idle env sec ids) (expire_each env keys) (\<lambda>_. good_idle env sec ids)"
  using assms
proof (induction keys)
  case Nil
  show ?case unfolding expire_each.simps by (rule outcome_returnE)
next
  case (Cons k keys)
  have step: "outcome (good_idle env sec ids) (on_db env (\<lambda>e. pg_update_key_status e (kp_id k) Expired None)) (\<lambda>_. good_idle env sec ids)"
    unfolding outcome_def
  proof (intro allI impI)
    fix s r t
    assume s: "good_idle env sec ids s" and run: "on_db env (\<lambda>e. pg_update_key_status e (kp_id k) Expired None) s = (r, t)"
    from run obtain db where db: "pg_update_key_status (sv_db env (ks_tick s)) (kp_id k) Expired None (ks_db s) = (r, db)" "ks_db t = db"
      by (rule on_db_run)
    have "repo_ok (ks_db s)" "idle ids (ks_db s)" using s by (simp_all add: good_idle_def good_def service_inv_def)
    from expire_row [OF this _ db(1)] Cons.prems have "repo_ok (ks_db t)" "idle ids (ks_db t)" "active_key (ks_db t) = active_key (ks_db s)"
      by (simp_all add: db(2))
    with good_on_db [OF _ run, of sec] s show "good_idle env sec ids t" by (simp add: good_idle_def)
  qed
  have rest: "outcome (good_idle env sec ids) (expire_each env keys) (\<lambda>_. good_idle env sec ids)"
    using Cons by simp
  show ?case
    unfolding expire_each.simps
    by (rule outcome_bindE [OF step], rule outcome_bindE [OF good_idle_quiet [OF quiet_basic(5)]],
        rule outcome_bindE [OF good_idle_quiet [OF quiet_basic(6)]],
        rule outcome_bindE [OF good_idle_quiet [OF quiet_on_db [OF keys_pg_audit]]], rule rest)
qed

lemma map_key_rows_set: "map_key_rows rows = Inr ks \<Longrightarrow> k \<in> set ks \<Longrightarrow> \<exists>r\<in>set rows. map_key_row r = Inr k"
  by (induction rows arbitrary: ks) (auto simp: bindR_eq_Inr_iff)

lemma map_key_row_source:
  assumes "map_key_row r = Inr k"
  shows "kp_id k = kr_id r" "epk_ciphertext (kp_encrypted_private_key k) = kr_encrypted_key_data r"
  using assms by (auto simp: map_key_row_def bindR_eq_Inr_iff)

lemma key_ids_inj: "repo_ok db \<Longrightarrow> inj_on kr_id (set (keys_tbl db))"
  by (simp add: repo_ok_iff key_violation_def distinct_map split: if_splits)

lemma deprecated_idle:
  assumes "repo_ok db" "pg_get_deprecated_keys_expired e t db = (Inr keys, db')"
  shows "idle (kp_id ` set keys) db'" "keys_tbl db' = keys_tbl db"
proof -
  from assms(2) obtain rows ks where q: "get_deprecated_key_rows db = (Inr rows, db')" and ks: "map_key_rows rows = Inr ks"
    and keys: "set keys \<subseteq> set ks"
    by (auto simp: pg_get_deprecated_keys_expired_def bindE_eq_Inr_iff map_errE_Inr_iff bindR_eq_Inr_iff)
  have db': "db' = db\<lparr>db_faults := tl (db_faults db)\<rparr>"
    using arg_cong [OF q, of snd] by (simp add: get_deprecated_key_rows_def query_state)
  then show "keys_tbl db' = keys_tbl db" by simp
  have rows: "set rows = {r \<in> set (keys_tbl db). kr_status r = ''Deprecated''}"
    using query_Inr [OF q [unfolded get_deprecated_key_rows_def]] by simp
  show "idle (kp_id ` set keys) db'"
    unfolding idle_def
  proof (intro ballI impI)
    fix r assume r: "r \<in> set (keys_tbl db')" and "kr_id r \<in> kp_id ` set keys"
    then obtain k where k: "k \<in> set ks" "kr_id r = kp_id k" using keys by auto
    from map_key_rows_set [OF ks k(1)] rows obtain q where q: "q \<in> set (keys_tbl db)" "kr_status q = ''Deprecated''" "map_key_row q = Inr k"
      by auto
    with k(2) map_key_row_source(1) have "kr_id r = kr_id q" by simp
    moreover have "r \<in> set (keys_tbl db)" using r db' by simp
    ultimately have "r = q" using inj_onD [OF key_ids_inj [OF assms(1)]] q(1) by blast
    with q(1,2) assms(1) show "\<not> kr_is_active r" by (simp add: repo_ok_iff row_ok_def)
  qed
qed

lemma outcome_process_expirations: "outcome (good env sec) (process_expirations env) (\<lambda>_. good env sec)"
  unfolding process_expirations_def
proof (rule outcome_bindE [OF outcome_quiet [OF quiet_basic(6)]], goal_cases)
  case (1 t)
  have "outcome (good env sec) (on_db env (\<lambda>e. pg_get_deprecated_keys_expired e t))
      (\<lambda>r u. good env sec u \<and> (\<forall>keys. r = Inr keys \<longrightarrow> idle (kp_id ` set keys) (ks_db u)))"
    unfolding outcome_def
  proof (intro allI impI)
    fix s r u assume s: "good env sec s" and run: "on_db env (\<lambda>e. pg_get_deprecated_keys_expired e t) s = (r, u)"
    have "quiet (on_db env (\<lambda>e. pg_get_deprecated_keys_expired e t))"
      unfolding pg_get_deprecated_keys_expired_def get_deprecated_key_rows_def
      by (intro quiet_on_db preserves_bindE preserves_map_errE preserves_query preserves_liftE) simp
    from good_same [OF quietD [OF this run]] s have "good env sec u" by simp
    moreover have "repo_ok (ks_db s)" using s by (simp add: good_def service_inv_def)
    moreover from run obtain db where
      "pg_get_deprecated_keys_expired (sv_db env (ks_tick s)) t (ks_db s) = (r, db)" "ks_db u = db" by (rule on_db_run)
    ultimately show "good env sec u \<and> (\<forall>keys. r = Inr keys \<longrightarrow> idle (kp_id ` set keys) (ks_db u))"
      using deprecated_idle(1) by blast
  qed
  then show ?case
  proof (rule outcome_bindE, goal_cases)
    case (1 keys)
    show ?case by (rule outcome_weaken [OF outcome_expire_each [OF subset_refl]]) (auto simp: good_idle_def)
  qed simp
qed simp

subsection \<open>Rewrapping\<close>

text \<open>What the daemon opens a wrapped key to, and the rows of the key table with their wrapped keys opened.\<close>

definition opened :: "svc_env \<Rightarrow> VhsmState \<Rightarrow> bytes \<Rightarrow> bytes option" where
  "opened env st c = Option.bind (master_key st) (\<lambda>k. case decrypt_bytes (core (sv_hsm env)) k c of Inl _ \<Rightarrow> None | Inr b \<Rightarrow> Some b)"

definition plain_row :: "svc_env \<Rightarrow> VhsmState \<Rightarrow> KeyDbRow \<Rightarrow> KeyDbRow \<times> bytes option" where
  "plain_row env st r = (r\<lparr>kr_encrypted_key_data := []\<rparr>, opened env st (kr_encrypted_key_data r))"

definition plain_rows :: "svc_env \<Rightarrow> VhsmState \<Rightarrow> kms_db \<Rightarrow> (KeyDbRow \<times> bytes option) list" where
  "plain_rows env st db = map (plain_row env st) (keys_tbl db)"

lemma unwrapped_opened: "unwrapped env st (v, c, pem, purpose) = map_option (Pair v) (opened env st c)"
  by (simp add: unwrapped_def opened_def split: option.split sum.split)

lemma plain_row_fields:
  assumes "plain_row env st r = plain_row env st q"
  shows "kr_is_active r = kr_is_active q" "key_slot r = key_slot q" "kr_id r = kr_id q"
    "opened env st (kr_encrypted_key_data r) = opened env st (kr_encrypted_key_data q)"
    "r\<lparr>kr_encrypted_key_data := []\<rparr> = q\<lparr>kr_encrypted_key_data := []\<rparr>"
proof -
  show eq: "r\<lparr>kr_encrypted_key_data := []\<rparr> = q\<lparr>kr_encrypted_key_data := []\<rparr>"
    "opened env st (kr_encrypted_key_data r) = opened env st (kr_encrypted_key_data q)"
    using assms by (simp_all add: plain_row_def)
  show "kr_is_active r = kr_is_active q" "key_slot r = key_slot q" "kr_id r = kr_id q"
    using arg_cong [OF eq(1), of kr_is_active] arg_cong [OF eq(1), of key_slot] arg_cong [OF eq(1), of kr_id] by simp_all
qed

definition row_secret :: "svc_env \<Rightarrow> VhsmState \<Rightarrow> KeyDbRow \<Rightarrow> (u32 \<times> bytes) option" where
  "row_secret env st r = (case map_key_row r of Inl _ \<Rightarrow> None | Inr k \<Rightarrow> unwrapped env st (material k))"

lemma map_key_row_blank:
  "map_key_row r = bindR (map_key_row (r\<lparr>kr_encrypted_key_data := []\<rparr>)) (\<lambda>k.
     Inr (k\<lparr>kp_encrypted_private_key := \<lparr>epk_ciphertext = kr_encrypted_key_data r, epk_master_key_version = 0\<rparr>\<rparr>))"
  by (cases "algorithm_of_row (kr_algorithm r)"; cases "purpose_of_row (kr_purpose r)"; cases "status_of_row (kr_status r) (kr_created_at r)")
     (simp_all add: map_key_row_def)

lemma row_secret_plain:
  assumes "plain_row env st r = plain_row env st q"
  shows "row_secret env st r = row_secret env st q"
proof -
  have "row_secret env st r = (case map_key_row (r\<lparr>kr_encrypted_key_data := []\<rparr>) of Inl _ \<Rightarrow> None
      | Inr k \<Rightarrow> map_option (Pair (kp_version k)) (opened env st (kr_encrypted_key_data r)))" for r
    by (subst row_secret_def, subst map_key_row_blank)
       (cases "map_key_row (r\<lparr>kr_encrypted_key_data := []\<rparr>)"; simp add: material_def unwrapped_opened)
  with plain_row_fields(4,5) [OF assms] show ?thesis by (simp only:)
qed

lemma find_plain:
  assumes "map (plain_row env st) rows = map (plain_row env st) rows'"
  shows "rel_option (\<lambda>r q. plain_row env st r = plain_row env st q) (active_in ks rows) (active_in ks rows')"
proof -
  from assms have "list_all2 (\<lambda>r q. plain_row env st r = plain_row env st q) rows rows'"
    by (simp add: list_all2_conv_all_nth list_eq_iff_nth_eq)
  then show ?thesis
    unfolding active_in_def by (induction rule: list_all2_induct) (auto dest: plain_row_fields)
qed

lemma secret_of_rows: "secret_of env s x = Option.bind (active_in (slot_key x) (keys_tbl (ks_db s))) (row_secret env (ks_hsm s))"
  by (simp add: secret_of_def active_key_def row_secret_def split: option.split sum.split)

lemma plain_rows_secret:
  assumes "plain_rows env (ks_hsm s) (ks_db t) = plain_rows env (ks_hsm s) (ks_db s)" "ks_hsm t = ks_hsm s"
  shows "secret_of env t = secret_of env s"
proof
  fix x
  from find_plain [OF assms(1) [unfolded plain_rows_def], of "slot_key x"] assms(2)
  show "secret_of env t x = secret_of env s x"
    unfolding secret_of_rows by (cases rule: option.rel_cases) (auto dest: row_secret_plain)
qed

text \<open>Updates that replace wrapped keys by other wraps of the same keys.\<close>

definition same_plain :: "svc_env \<Rightarrow> VhsmState \<Rightarrow> (KeyDbRow \<times> bytes option) list \<Rightarrow> uuid \<times> bytes \<Rightarrow> bool" where
  "same_plain env st V u = (\<forall>p\<in>set V. kr_id (fst p) = fst u \<longrightarrow> snd p = opened env st (snd u))"

lemma same_plain_update:
  assumes "same_plain env st V (i, c)"
  shows "preserves (\<lambda>db. plain_rows env st db = V) (update_encrypted_key_row i c)"
proof -
  have "plain_rows env st db' = V"
    if V: "plain_rows env st db = V" and run: "set_keys (map (\<lambda>r. if kr_id r = i then r\<lparr>kr_encrypted_key_data := c\<rparr> else r) (keys_tbl db)) db = Inr (u, db')"
    for db u db'
  proof -
    have "plain_row env st (if kr_id r = i then r\<lparr>kr_encrypted_key_data := c\<rparr> else r) = plain_row env st r" if "r \<in> set (keys_tbl db)" for r
      using assms that unfolding V [symmetric] by (auto simp: same_plain_def plain_rows_def plain_row_def)
    then have "map (plain_row env st) (map (\<lambda>r. if kr_id r = i then r\<lparr>kr_encrypted_key_data := c\<rparr> else r) (keys_tbl db))
        = map (plain_row env st) (keys_tbl db)" by simp
    with run V show ?thesis by (auto simp: set_keys_Inr_iff plain_rows_def simp del: map_map)
  qed
  then show ?thesis
    unfolding update_encrypted_key_row_def by (intro preserves_exec) (simp_all add: plain_rows_def)
qed

lemma good_rewrapped:
  assumes s: "good env sec s" and run: "on_db env (\<lambda>e. pg_update_encrypted_keys_batch e updates) s = (r, t)"
    and ok: "\<forall>(i, c, v)\<in>set updates. same_plain env (ks_hsm s) (plain_rows env (ks_hsm s) (ks_db s)) (i, epk_ciphertext c)"
  shows "good env sec t"
proof -
  let ?V = "plain_rows env (ks_hsm s) (ks_db s)"
  from run obtain db where db: "pg_update_encrypted_keys_batch (sv_db env (ks_tick s)) updates (ks_db s) = (r, db)" "ks_db t = db"
    and t: "ks_cache t = ks_cache s" "ks_hsm t = ks_hsm s" by (rule on_db_run)
  have "preserves (\<lambda>db. plain_rows env (ks_hsm s) db = ?V) (pg_update_encrypted_keys_batch (sv_db env (ks_tick s)) updates)"
    unfolding pg_update_encrypted_keys_batch_def update_encrypted_key_rows_def
    using ok by (intro preserves_map_errE preserves_transaction preserves_update_loop same_plain_update) (auto simp: plain_rows_def)
  from preservesD [OF this refl] db have "plain_rows env (ks_hsm s) (ks_db t) = ?V" by simp
  then have "secret_of env t = secret_of env s" using t(2) by (rule plain_rows_secret)
  moreover have "repo_ok (ks_db t)"
    using preservesD [OF repo_ok_batch, of "ks_db s" "sv_db env (ks_tick s)" updates] db s by (simp add: good_def service_inv_def)
  ultimately show ?thesis using s t by (auto simp: good_def coherent_def service_inv_def)
qed

lemma rewrap_candidates:
  assumes "on_db env (\<lambda>e. pg_get_keys_needing_rewrap e version batch_size) s = (Inr keys, t)" "k \<in> set keys"
  shows "\<exists>q\<in>set (keys_tbl (ks_db s)). map_key_row q = Inr k"
proof -
  from assms(1) obtain db where run: "pg_get_keys_needing_rewrap (sv_db env (ks_tick s)) version batch_size (ks_db s) = (Inr keys, db)"
    by (rule on_db_run)
  then obtain rows where q: "get_key_rows_needing_rewrap (ks_db s) = (Inr rows, db)" and ks: "map_key_rows (take batch_size rows) = Inr keys"
    by (auto simp: pg_get_keys_needing_rewrap_def bindE_eq_Inr_iff map_errE_Inr_iff)
  have "set rows = set (keys_tbl (ks_db s))" using query_Inr [OF q [unfolded get_key_rows_needing_rewrap_def]] by simp
  with map_key_rows_set [OF ks assms(2)] show ?thesis by (auto dest: in_set_takeD)
qed

lemma quiet_rewrap_each: "transport_ok env \<Longrightarrow> quiet (rewrap_each env version ks)"
proof (induction ks)
  case Nil
  show ?case unfolding rewrap_each.simps by (rule quiet_basic)
next
  case (Cons k ks)
  then show ?case unfolding rewrap_each.simps by (intro quiet_bindE quiet_basic(1) quiet_service(1,2)) simp_all
qed

lemma outcome_rewrap_each:
  assumes "env_ok env" "rewrap_each env version keys s = (r, t)" "service_inv s"
  shows "same_keys s t" "\<And>ups i c v. r = Inr ups \<Longrightarrow> (i, c, v) \<in> set ups \<Longrightarrow> \<exists>k\<in>set keys. i = kp_id k
    \<and> opened env (ks_hsm s) (epk_ciphertext c) = opened env (ks_hsm s) (epk_ciphertext (kp_encrypted_private_key k))
    \<and> opened env (ks_hsm s) (epk_ciphertext c) \<noteq> None"
proof -
  have ok: "transport_ok env" "daemon_crypto_ok env" using assms(1) by (simp_all add: env_ok_def)
  show "same_keys s t" by (rule quietD [OF quiet_rewrap_each [OF ok(1)] assms(2)])
  show "\<exists>k\<in>set keys. i = kp_id k
    \<and> opened env (ks_hsm s) (epk_ciphertext c) = opened env (ks_hsm s) (epk_ciphertext (kp_encrypted_private_key k))
    \<and> opened env (ks_hsm s) (epk_ciphertext c) \<noteq> None"
    if "r = Inr ups" "(i, c, v) \<in> set ups" for ups i c v
    using assms(2,3) that
  proof (induction keys arbitrary: s r ups)
    case (Cons k keys)
    from Cons.prems(1,3) obtain b s1 w s2 rest where
      dec: "decrypt_private_key env (kp_encrypted_private_key k) s = (Inr b, s1)"
      and enc: "encrypt_private_key env b s1 = (Inr w, s2)"
      and rest: "rewrap_each env version keys s2 = (Inr rest, t)" and ups: "ups = (kp_id k, w, version) # rest"
      by (auto simp: bindE_eq_Inr_iff)
    note d = decrypt_private_key_Inr [OF ok(1) dec]
    note h1 = same_keysD [OF d(1)] and h2 = same_keysD [OF quietD [OF quiet_service(1) [OF ok(1)] enc]]
    have inv: "service_inv s1" "service_inv s2" using Cons.prems(2) h1(1) h2(1) by simp_all
    from encrypt_private_key_Inr [OF ok service_inv_parts(2) [OF inv(1)] enc] d(2) h1(4)
    have "opened env (ks_hsm s) (epk_ciphertext w) = Some b"
      "opened env (ks_hsm s) (epk_ciphertext (kp_encrypted_private_key k)) = Some b"
      by (auto simp: opened_def)
    moreover note Cons.IH [OF rest inv(2) refl]
    ultimately show ?case using Cons.prems(4) h1(4) h2(4) by (auto simp: ups)
  qed (auto)
qed

lemma bindE_returnE_state:
  assumes "bindE m (\<lambda>x. returnE (f x)) s = (r, t)"
  obtains z where "m s = (z, t)"
proof (cases "m s")
  case (Pair z u)
  with assms that show ?thesis by (cases z) (simp_all add: bindE_def)
qed

lemma outcome_rewrap_round:
  assumes "env_ok env"
  shows "outcome (good env sec) (rewrap_round env version batch_size) (\<lambda>_. good env sec)"
  unfolding outcome_def
proof (intro allI impI)
  fix s r t assume s: "good env sec s" and run: "rewrap_round env version batch_size s = (r, t)"
  have "quiet (on_db env (\<lambda>e. pg_get_keys_needing_rewrap e version batch_size))"
    unfolding pg_get_keys_needing_rewrap_def get_key_rows_needing_rewrap_def
    by (intro quiet_on_db preserves_bindE preserves_map_errE preserves_query preserves_liftE) simp
  then obtain x s1 where get: "on_db env (\<lambda>e. pg_get_keys_needing_rewrap e version batch_size) s = (x, s1)" and g1: "same_keys s s1"
    by (cases "on_db env (\<lambda>e. pg_get_keys_needing_rewrap e version batch_size) s") (auto dest: quietD)
  note s1 = good_same [OF g1, of env sec]
  show "good env sec t"
  proof (cases x)
    case (Inl e)
    then have "rewrap_round env version batch_size s = (Inl e, s1)" using get by (simp add: rewrap_round_def bindE_def)
    with run s s1 show ?thesis by simp
  next
    case (Inr keys)
    let ?store = "\<lambda>ups. bindE (on_db env (\<lambda>e. pg_update_encrypted_keys_batch e ups)) (\<lambda>_. returnE (Some (length ups)))"
    have round: "rewrap_round env version batch_size s
        = (if keys = [] then returnE None else bindE (rewrap_each env version keys) ?store) s1"
      unfolding rewrap_round_def by (subst bindE_def) (simp add: get Inr)
    obtain y s2 where each: "rewrap_each env version keys s1 = (y, s2)" by (cases "rewrap_each env version keys s1")
    have inv: "service_inv s1" using s s1 by (simp add: good_def)
    note e = outcome_rewrap_each [OF assms each inv]
    note s2 = good_same [OF e(1), of env sec]
    consider "keys = []" | err where "keys \<noteq> []" "y = Inl err" | ups where "keys \<noteq> []" "y = Inr ups" by (cases y) auto
    then show ?thesis
    proof cases
      case 1
      with round run s s1 show ?thesis by simp
    next
      case 2
      then have "rewrap_round env version batch_size s = (Inl err, s2)" using round each by (simp add: bindE_def)
      with run s s1 s2 show ?thesis by simp
    next
      case y: 3
      then have "?store ups s2 = (r, t)" using run round each by (simp add: bindE_def)
      then obtain z where batch: "on_db env (\<lambda>e. pg_update_encrypted_keys_batch e ups) s2 = (z, t)"
        by (rule bindE_returnE_state)
      have "same_plain env (ks_hsm s2) (plain_rows env (ks_hsm s2) (ks_db s2)) (i, epk_ciphertext c)" if "(i, c, v) \<in> set ups" for i c v
      proof -
        from e(2) [OF y(2) that] obtain k where k: "k \<in> set keys" "i = kp_id k"
          "opened env (ks_hsm s1) (epk_ciphertext c) = opened env (ks_hsm s1) (epk_ciphertext (kp_encrypted_private_key k))" by blast
        obtain q where q: "q \<in> set (keys_tbl (ks_db s))" "map_key_row q = Inr k"
          using rewrap_candidates [OF get [unfolded Inr] k(1)] by blast
        have tbl: "keys_tbl (ks_db s2) = keys_tbl (ks_db s)" "ks_hsm s2 = ks_hsm s1" using g1 e(1) by (simp_all add: same_keys_def)
        have "inj_on kr_id (set (keys_tbl (ks_db s)))" using s by (intro key_ids_inj) (simp add: good_def service_inv_def)
        then have "q' = q" if "q' \<in> set (keys_tbl (ks_db s))" "kr_id q' = i" for q'
          using that q(1) k(2) map_key_row_source(1) [OF q(2)] by (auto dest: inj_onD)
        then show ?thesis
          using k(3) map_key_row_source(2) [OF q(2)] by (auto simp: same_plain_def plain_rows_def plain_row_def tbl)
      qed
      then show ?thesis using s s1 s2 by (intro good_rewrapped [OF _ batch]) auto
    qed
  qed
qed

subsection \<open>The sample service\<close>

lemma env_ok_sample: "env_ok sample_svc"
proof -
  have "serde_ok (sv_serde sample_svc)"
    by (auto simp: serde_ok_def sample_svc_def sample_req_to_vec_def sample_req_from_slice_def sample_resp_to_vec_def
        sample_resp_from_slice_def unat_of_nat split: HsmRequest.splits HsmResponse.splits if_splits)
  moreover have "serde_framed (sv_serde sample_svc)"
    by (auto simp: serde_framed_def sample_svc_def sample_req_to_vec_def sample_req_from_slice_def unat_of_nat take_Cons'
        split: HsmRequest.splits if_splits)
  ultimately show ?thesis
    by (simp add: env_ok_def transport_ok_def daemon_crypto_ok_def cut_rejected_def sample_svc_def sample_hop_def
        sample_req_from_slice_def sample_core aead_ok_sample sample_rnd_ok)
qed

lemma sample_kms_init: "service_init sample_kms"
proof -
  have "repo_ok (ks_db sample_kms)" by code_simp
  then show ?thesis
    by (simp add: service_init_def service_inv_def sample_kms_def sample_state_inv) (simp add: cache_ok_def cache_new_def)
qed

lemma sample_read_runs: "is_ok (fst (get_private_key sample_svc sample_rq sample_read sample_kms))"
  by code_simp

lemma sample_rotation_runs:
  "case rotate_key sample_svc sample_rq sample_rotation sample_kms of
     (r, t) \<Rightarrow> is_ok r \<and> is_ok (fst (get_private_key sample_svc sample_rq sample_read t))"
  by code_simp

end
