(* ===== verification/Key_Properties.thy ===== *)
theory Key_Properties
  imports Key_Theorems
begin

text \<open>The properties of the key service.\<close>

section \<open>Definitions used by the properties\<close>

text \<open>A request was refused: keys, cache and daemon are untouched, and the caller sees \<^verbatim>\<open>Unauthorized\<close> with the denial
  recorded under the actor of the request, or the database error of recording it.\<close>

definition refused :: "RequestContext \<Rightarrow> AuditAction \<Rightarrow> kms_state \<Rightarrow> (AppError + 'a) \<times> kms_state \<Rightarrow> bool" where
  "refused ctx action s out = (same_keys s (snd out) \<and>
     ((fst out = Inl Unauthorized \<and> (\<exists>row. audit_tbl (ks_db (snd out)) = audit_tbl (ks_db s) @ [row]
         \<and> ar_action row = action_debug action \<and> ar_status row = status_as_str AccessDenied
         \<and> ar_caller_service row = rq_actor_id ctx))
      \<or> (\<exists>m. fst out = Inl (DatabaseError m))))"

section \<open>Lemmas\<close>

lemma service_inv_step:
  assumes "env_ok env" "service_inv s" "coherent env s" "service_step env s t"
  shows "service_inv t \<and> coherent env t"
proof -
  have ok: "transport_ok env" using assms(1) by (simp add: env_ok_def)
  let ?sec = "secret_of env s"
  have s: "good env ?sec s" using assms(2,3) by (simp add: good_def)
  have keep: "service_inv (snd (m s)) \<and> coherent env (snd (m s))" if "outcome (good env ?sec) m (\<lambda>_. good env ?sec)" for m :: "'a kms"
    using outcomeD [OF that s, of "fst (m s)" "snd (m s)"] by (simp add: good_def)
  show ?thesis
    using assms(4)
  proof cases
    case (step_rotate ctx ri)
    then show ?thesis
      using outcomeD [OF outcome_rotate_key [OF assms(1)] s, of ctx ri "fst (rotate_key env ctx ri s)" t]
      by (auto simp: rotated_to_def good_def)
  next
    case (step_get_private ctx ki)
    then show ?thesis
      using outcomeD [OF outcome_read_key [OF ok] s, of ctx ki PrivateKey _ _ _ _ "fst (get_private_key env ctx ki s)" t]
      by (auto simp: read_key_instances read_post_def good_def)
  next
    case (step_get_symmetric ctx ki)
    then show ?thesis
      using outcomeD [OF outcome_read_key [OF ok] s, of ctx ki SymmetricKey _ _ _ _ "fst (get_symmetric_key env ctx ki s)" t]
      by (auto simp: read_key_instances read_post_def good_def)
  next
    case (step_sign si ctx)
    then show ?thesis
      using outcomeD [OF outcome_sign_data [OF ok step_sign(2)] s, of ctx "fst (sign_data env ctx si s)" t]
      by (auto simp: signed_post_def good_def)
  next
    case (step_get_public ctx service algo)
    then show ?thesis using keep [OF outcome_quiet [OF quiet_observers(1)]] by simp
  next
    case (step_data_key ctx caller algo)
    then show ?thesis using keep [OF outcome_quiet [OF quiet_observers(2) [OF ok]]] by simp
  next
    case (step_encrypt ctx plaintext)
    then show ?thesis using keep [OF outcome_quiet [OF quiet_observers(3) [OF ok]]] by simp
  next
    case (step_decrypt ctx encrypted)
    then show ?thesis using keep [OF outcome_quiet [OF quiet_observers(4) [OF ok]]] by simp
  next
    case step_cleanup
    then show ?thesis using keep [OF outcome_cache_cleanup] by simp
  next
    case step_expire
    then show ?thesis using keep [OF outcome_process_expirations] by simp
  next
    case (step_rewrap version batch_size)
    then show ?thesis using keep [OF outcome_rewrap_round [OF assms(1)]] by simp
  qed
qed

interpretation service: invariant_system "\<lambda>s. env_ok env \<and> service_init s" "service_step env"
    "\<lambda>s. env_ok env \<and> service_inv s \<and> coherent env s" for env
proof (unfold_locales, goal_cases)
  case (1 s)
  then show ?case by (simp add: service_init_def coherent_def key_cache.agree_void)
next
  case (2 s t)
  then show ?case using service_inv_step by blast
qed

lemma service_reachable_good:
  assumes "reachable (\<lambda>s. env_ok env \<and> service_init s) (service_step env) s"
  shows "env_ok env" "good env (secret_of env s) s"
  using service.inv_reachable [OF assms] by (simp_all add: good_def)

text \<open>A read that hits the cache returns what is cached.\<close>

lemma read_cached:
  assumes "cached (ks_cache s) (ki_target_service input, ki_algorithm input) = Some (v, b)"
    and "read_key env ctx input level action denied missing not_found s = (Inr out, t)"
  shows "ko_version out = v" "ko_bytes out = b"
proof -
  have hit: "read_cache (with_key (ki_target_service input) (ki_algorithm input) Pair) s = (Inr (Some (v, b)), s)"
    using assms(1) by (simp add: read_cache_def with_key_cached)
  from assms(2) have "authorize_key_access (sv_acl env) (ki_caller_service input) (ki_target_service input) (ki_algorithm input) level"
    by (cases "authorize_key_access (sv_acl env) (ki_caller_service input) (ki_target_service input) (ki_algorithm input) level")
       (auto simp: read_key_def deny_def bindE_eq_Inr_iff)
  with assms(2) hit have "bindE (audit_success env ctx action (Some (cache_hit_details input))) (\<lambda>_.
      returnE \<lparr>ko_service_id = ki_target_service input, ko_algorithm = ki_algorithm input, ko_version = v, ko_bytes = b\<rparr>) s = (Inr out, t)"
    by (simp add: read_key_def bindE_run)
  then show "ko_version out = v" "ko_bytes out = b" by (auto simp: bindE_eq_Inr_iff)
qed

lemma secret_version:
  assumes "secret_of env s x = Some (v, b)"
  obtains mat where "active_key (ks_db s) x = Some mat" "fst mat = v"
proof -
  from assms obtain mat where mat: "active_key (ks_db s) x = Some mat" "unwrapped env (ks_hsm s) mat = Some (v, b)"
    by (auto simp: secret_of_def bind_eq_Some_conv)
  moreover have "fst mat = v" using mat(2) by (cases mat) (simp add: unwrapped_def split: option.splits sum.splits)
  ultimately show thesis using that by blast
qed

text \<open>The rewrap loop.\<close>

lemma rewrap_loop_good:
  assumes "env_ok env" and ret: "rewrap_loop env version batch_size n s = Some rt" and "good env sec s"
  shows "good env sec (snd rt)"
proof -
  have "env = env0 \<longrightarrow> good env sec s \<longrightarrow> good env sec (snd rt)" if "env_ok env0" for env0
  proof (rule rewrap_loop.raw_induct [where P = "\<lambda>env version batch_size n s rt. env = env0 \<longrightarrow> good env sec s \<longrightarrow> good env sec (snd rt)", OF _ ret])
    fix f env version batch_size n s rt
    assume IH: "\<And>env version batch_size n s rt. f env version batch_size n s = Some rt \<Longrightarrow> env = env0 \<longrightarrow> good env sec s \<longrightarrow> good env sec (snd rt)"
      and eq: "(case rewrap_round env version batch_size s of
        (r, s1) \<Rightarrow> (case r of Inl e \<Rightarrow> Some (Inl e, s1)
           | Inr x \<Rightarrow> (case x of None \<Rightarrow> Some (Inr n, s1) | Some k \<Rightarrow> f env version batch_size (n + k) s1))) = Some rt"
    show "env = env0 \<longrightarrow> good env sec s \<longrightarrow> good env sec (snd rt)"
    proof (intro impI)
      assume env: "env = env0" and s: "good env sec s"
      obtain r s1 where round: "rewrap_round env version batch_size s = (r, s1)" by (cases "rewrap_round env version batch_size s")
      then have s1: "good env sec s1" using outcomeD [OF outcome_rewrap_round s] that env by blast
      consider "snd rt = s1" | k where "f env version batch_size (n + k) s1 = Some rt"
        using eq round by (auto split: sum.splits option.splits)
      then show "good env sec (snd rt)" using s1 IH env by cases auto
    qed
  qed
  with assms show ?thesis by blast
qed

lemma map_key_rows_empty: "map_key_rows rows = Inr [] \<Longrightarrow> rows = []"
  by (cases rows) (auto simp: bindR_eq_Inr_iff)

lemma rewrap_round_busy:
  assumes "rewrap_round env version batch_size s = (Inr x, t)" "transport_ok env" "keys_tbl (ks_db s) \<noteq> []" "0 < batch_size"
  shows "x \<noteq> None" "keys_tbl (ks_db t) \<noteq> []"
proof -
  from assms(1) obtain keys s1 where get: "on_db env (\<lambda>e. pg_get_keys_needing_rewrap e version batch_size) s = (Inr keys, s1)"
    and rest: "(if keys = [] then returnE None else bindE (rewrap_each env version keys) (\<lambda>ups.
        bindE (on_db env (\<lambda>e. pg_update_encrypted_keys_batch e ups)) (\<lambda>_. returnE (Some (length ups))))) s1 = (Inr x, t)"
    by (auto simp: rewrap_round_def bindE_eq_Inr_iff)
  from get obtain db where run: "pg_get_keys_needing_rewrap (sv_db env (ks_tick s)) version batch_size (ks_db s) = (Inr keys, db)" "ks_db s1 = db"
    by (rule on_db_run)
  then obtain rows where q: "get_key_rows_needing_rewrap (ks_db s) = (Inr rows, db)" and ks: "map_key_rows (take batch_size rows) = Inr keys"
    by (auto simp: pg_get_keys_needing_rewrap_def bindE_eq_Inr_iff map_errE_Inr_iff)
  note qi = query_Inr [OF q [unfolded get_key_rows_needing_rewrap_def]]
  have "set rows = set (keys_tbl (ks_db s))" using qi by simp
  then have "take batch_size rows \<noteq> []" using assms(3,4) by (auto simp: take_eq_Nil)
  with ks map_key_rows_empty have keys: "keys \<noteq> []" by blast
  with rest obtain ups s2 n s3 where each: "rewrap_each env version keys s1 = (Inr ups, s2)"
    and batch: "on_db env (\<lambda>e. pg_update_encrypted_keys_batch e ups) s2 = (Inr n, s3)" and x: "x = Some (length ups)" "t = s3"
    by (auto simp: bindE_eq_Inr_iff)
  show "x \<noteq> None" by (simp add: x)
  have "keys_tbl (ks_db s1) \<noteq> []" using run(2) qi assms(3) by simp
  then have s2: "keys_tbl (ks_db s2) \<noteq> []" using quietD [OF quiet_rewrap_each [OF assms(2)] each] by (simp add: same_keys_def)
  have update: "preserves (\<lambda>db. keys_tbl db \<noteq> []) (update_encrypted_key_row i c)" for i c
    unfolding update_encrypted_key_row_def by (rule preserves_exec) (auto simp: set_keys_Inr_iff)
  moreover have "preserves (\<lambda>db. keys_tbl db \<noteq> []) (pg_update_encrypted_keys_batch e ups)" for e
    unfolding pg_update_encrypted_keys_batch_def update_encrypted_key_rows_def
    by (intro preserves_map_errE preserves_transaction preserves_update_loop update; simp)
  moreover from batch obtain db where db: "pg_update_encrypted_keys_batch (sv_db env (ks_tick s2)) ups (ks_db s2) = (Inr n, db)" "ks_db s3 = db"
    by (rule on_db_run)
  ultimately show "keys_tbl (ks_db t) \<noteq> []"
    using preservesD [of "\<lambda>db. keys_tbl db \<noteq> []" "pg_update_encrypted_keys_batch (sv_db env (ks_tick s2)) ups" "ks_db s2"]
    by (simp add: db x(2) s2)
qed

lemma rewrap_loop_busy:
  assumes ret: "rewrap_loop env version batch_size n s = Some rt"
  shows "transport_ok env \<longrightarrow> keys_tbl (ks_db s) \<noteq> [] \<longrightarrow> 0 < batch_size \<longrightarrow> \<not> is_ok (fst rt)"
proof (rule rewrap_loop.raw_induct [where P = "\<lambda>env version batch_size n s rt.
    transport_ok env \<longrightarrow> keys_tbl (ks_db s) \<noteq> [] \<longrightarrow> 0 < batch_size \<longrightarrow> \<not> is_ok (fst rt)", OF _ ret])
  fix f env version batch_size n s rt
  assume IH: "\<And>env version batch_size n s rt. f env version batch_size n s = Some rt \<Longrightarrow>
      transport_ok env \<longrightarrow> keys_tbl (ks_db s) \<noteq> [] \<longrightarrow> 0 < batch_size \<longrightarrow> \<not> is_ok (fst rt)"
    and eq: "(case rewrap_round env version batch_size s of
        (r, s1) \<Rightarrow> (case r of Inl e \<Rightarrow> Some (Inl e, s1)
           | Inr x \<Rightarrow> (case x of None \<Rightarrow> Some (Inr n, s1) | Some k \<Rightarrow> f env version batch_size (n + k) s1))) = Some rt"
  show "transport_ok env \<longrightarrow> keys_tbl (ks_db s) \<noteq> [] \<longrightarrow> 0 < batch_size \<longrightarrow> \<not> is_ok (fst rt)"
  proof (intro impI)
    assume a: "transport_ok env" "keys_tbl (ks_db s) \<noteq> []" "0 < batch_size"
    obtain r s1 where round: "rewrap_round env version batch_size s = (r, s1)" by (cases "rewrap_round env version batch_size s")
    show "\<not> is_ok (fst rt)"
    proof (cases r)
      case (Inl e)
      with eq round show ?thesis by auto
    next
      case (Inr x)
      note b = rewrap_round_busy [OF round [unfolded Inr] a]
      then obtain k where "x = Some k" by auto
      with eq round Inr have "f env version batch_size (n + k) s1 = Some rt" by simp
      with IH a b(2) show ?thesis by blast
    qed
  qed
qed

text \<open>The wait for the vHSM.\<close>

lemma wait_sound:
  assumes ret: "wait_for_vhsm_unsealed sd tr path i = Some n"
  shows "i \<le> n \<and> poll_unsealed sd (tr n) path \<and> (\<forall>j. i \<le> j \<longrightarrow> j < n \<longrightarrow> \<not> poll_unsealed sd (tr j) path)"
proof (rule wait_for_vhsm_unsealed.raw_induct [where P = "\<lambda>sd tr path i n. i \<le> n \<and> poll_unsealed sd (tr n) path
    \<and> (\<forall>j. i \<le> j \<longrightarrow> j < n \<longrightarrow> \<not> poll_unsealed sd (tr j) path)", OF _ ret])
  fix f sd path i n and tr :: "nat \<Rightarrow> transport"
  assume IH: "\<And>sd tr path i n. f sd tr path i = Some n \<Longrightarrow> i \<le> n \<and> poll_unsealed sd (tr n) path
      \<and> (\<forall>j. i \<le> j \<longrightarrow> j < n \<longrightarrow> \<not> poll_unsealed sd (tr j) path)"
    and eq: "(if poll_unsealed sd (tr i) path then Some i else f sd tr path (Suc i)) = Some n"
  show "i \<le> n \<and> poll_unsealed sd (tr n) path \<and> (\<forall>j. i \<le> j \<longrightarrow> j < n \<longrightarrow> \<not> poll_unsealed sd (tr j) path)"
  proof (cases "poll_unsealed sd (tr i) path")
    case False
    with eq IH [of sd tr path "Suc i" n] have *: "Suc i \<le> n \<and> poll_unsealed sd (tr n) path
      \<and> (\<forall>j. Suc i \<le> j \<longrightarrow> j < n \<longrightarrow> \<not> poll_unsealed sd (tr j) path)" by simp
    have "\<not> poll_unsealed sd (tr j) path" if "i \<le> j" "j < n" for j
      using * False that by (cases "j = i") auto
    with * show ?thesis by simp
  qed (use eq in auto)
qed

lemma wait_complete:
  assumes "poll_unsealed sd (tr (i + k)) path" "\<forall>j<k. \<not> poll_unsealed sd (tr (i + j)) path"
  shows "wait_for_vhsm_unsealed sd tr path i = Some (i + k)"
  using assms
proof (induction k arbitrary: i)
  case 0
  then show ?case by (simp add: wait_for_vhsm_unsealed.simps)
next
  case (Suc k)
  have "\<not> poll_unsealed sd (tr i) path" using Suc.prems(2) by (metis Nat.add_0_right zero_less_Suc)
  moreover have "wait_for_vhsm_unsealed sd tr path (Suc i) = Some (Suc i + k)"
    using Suc.prems by (intro Suc.IH) (auto simp flip: add_Suc_right)
  ultimately show ?case by (simp add: wait_for_vhsm_unsealed.simps [of sd tr path i])
qed

text \<open>A refusal by the access policy.\<close>

lemma pg_audit_record_Inl:
  assumes "pg_audit_record lib e log db = (Inl err, db')"
  shows "\<exists>m. err = DatabaseError m"
proof -
  obtain r db1 where r: "read_prev_hash e db = (r, db1)" by (cases "read_prev_hash e db")
  show ?thesis
  proof (cases r)
    case (Inl e1)
    with r obtain e0 where "map_errE (db_error e) latest_hash db = (Inl e1, e0)"
      by (auto simp: read_prev_hash_def bindE_def split: prod.splits sum.splits)
    moreover have "err = e1" using assms r Inl by (simp add: pg_audit_record_def bindE_def)
    ultimately show ?thesis by (auto simp: map_errE_Inl_iff db_error_def)
  next
    case (Inr h)
    with assms r have "insert_chained lib e log h db1 = (Inl err, db')" by (simp add: pg_audit_record_def bindE_def)
    then show ?thesis by (auto simp: insert_chained_def map_errE_Inl_iff db_error_def)
  qed
qed

lemma deny_refused: "refused ctx action s (deny env ctx action reason s :: (AppError + 'a) \<times> kms_state)"
proof -
  obtain r :: "AppError + 'a" and t where run: "deny env ctx action reason s = (r, t)" by (cases "deny env ctx action reason s :: (AppError + 'a) \<times> kms_state")
  have same: "same_keys s t" by (rule quietD [OF quiet_deny run])
  define s2 where "s2 = s\<lparr>ks_tick := Suc (Suc (ks_tick s))\<rparr>"
  define log where "log = audit_log_of (sv_audit env) (new_canonical_entry (sv_uuid env (ks_tick s)) (sv_now env (Suc (ks_tick s))) ctx action
      AccessDenied (Some (JStr reason)) GENESIS_HASH AES256GCM) (sanitize_reason (Some reason)) AES256GCM"
  obtain x db where rec: "pg_audit_record (sv_audit env) (sv_db env (ks_tick s2)) log (ks_db s) = (x, db)"
    by (cases "pg_audit_record (sv_audit env) (sv_db env (ks_tick s2)) log (ks_db s)")
  have "audit_access_denied env ctx action reason s = (x, s2\<lparr>ks_db := db, ks_tick := Suc (ks_tick s2)\<rparr>)"
    using rec unfolding s2_def log_def
    by (simp add: audit_access_denied_def now_v7_def utc_now_def next_call_def bindE_def on_db_def record_access_denied_def record_internal_def)
  with run have rt: "r = (case x of Inl e \<Rightarrow> Inl e | Inr _ \<Rightarrow> Inl Unauthorized)" "ks_db t = db"
    by (auto simp: deny_def bindE_def split: sum.splits)
  show ?thesis
  proof (cases x)
    case (Inl e)
    with rec pg_audit_record_Inl rt same show ?thesis by (fastforce simp: refused_def run)
  next
    case (Inr u)
    note tbl = pg_audit_record_Inr(2) [OF rec [unfolded Inr]]
    from rt Inr same show ?thesis
      by (simp add: refused_def run tbl stored_entry_def chained_row_def Let_def log_def audit_log_of_def new_canonical_entry_def)
  qed
qed

text \<open>Signing with a named version.\<close>

lemma matchE_eq_Inr_iff:
  "matchE m f g s = (Inr y, t) \<longleftrightarrow>
     (\<exists>x u. m s = (Inr x, u) \<and> f x u = (Inr y, t)) \<or> (\<exists>e u. m s = (Inl e, u) \<and> g e u = (Inr y, t))"
  by (cases rule: matchE_cases [of m s f g]) auto

lemma key_by_version:
  assumes "on_db env (\<lambda>e. pg_get_key_by_version e service algo w) s = (Inr (Some k), t)"
  shows "kp_version k = w" "same_keys s t"
proof -
  show "same_keys s t" by (rule quietD [OF quiet_on_db [OF keys_pg_get(2)] assms])
  from assms obtain db where "pg_get_key_by_version (sv_db env (ks_tick s)) service algo w (ks_db s) = (Inr (Some k), db)" by (rule on_db_run)
  then obtain row where q: "get_key_row_by_version service (algorithm_debug algo) w (ks_db s) = (Inr row, db)" "map_optional_row row = Inr (Some k)"
    by (auto simp: pg_get_key_by_version_def bindE_eq_Inr_iff map_errE_Inr_iff)
  then obtain r where r: "row = Some r" "map_key_row r = Inr k" by (cases row) (auto simp: bindR_eq_Inr_iff)
  have "kr_version r = w"
    using query_Inr [OF q(1) [unfolded get_key_row_by_version_def]] r(1) by (auto simp: find_Some_iff dest!: sym [of "Some r"])
  with r(2) show "kp_version k = w" by (auto simp: map_key_row_def bindR_eq_Inr_iff)
qed

lemma load_versioned_key:
  assumes "transport_ok env" "load_signing_key env ctx si s = (Inr b, t)" "si_key_version si = Some w"
    and "should_preload_for (sv_acl env) (si_target_service si) (si_algorithm si)"
  shows "cached (ks_cache t) (si_target_service si, si_algorithm si) = Some (w, b)" "secret_of env t = secret_of env s"
proof -
  from assms(2,3) obtain found s1 where get: "on_db env (\<lambda>e. pg_get_key_by_version e (si_target_service si) (si_algorithm si) w) s = (Inr found, s1)"
    and rest: "(case found of None \<Rightarrow> bindE (audit_validation_failure env ctx SignData ''Signing key not found'') (\<lambda>_. throwE (NotFound ''Signing key not found''))
       | Some key \<Rightarrow> matchE (decrypt_private_key env (kp_encrypted_private_key key))
             (\<lambda>bytes. bindE (preload_cache env (si_target_service si) (si_algorithm si) (kp_version key) bytes) (\<lambda>_. returnE bytes))
             (\<lambda>err. bindE (audit_failure env ctx SignData (app_error_display err)) (\<lambda>_. throwE err))) s1 = (Inr b, t)"
    by (auto simp: load_signing_key_def bindE_eq_Inr_iff)
  from rest obtain k where k: "found = Some k" by (cases found) (auto simp: bindE_eq_Inr_iff)
  note v = key_by_version [OF get [unfolded k]]
  obtain c s2 where dec: "decrypt_private_key env (kp_encrypted_private_key k) s1 = (Inr c, s2)"
    and t: "bindE (preload_cache env (si_target_service si) (si_algorithm si) w c) (\<lambda>_. returnE c) s2 = (Inr b, t)"
    using rest v(1) unfolding k option.case
    by (auto simp: matchE_eq_Inr_iff bindE_eq_Inr_iff)
  from t assms(4) have t': "b = c" "t = s2\<lparr>ks_cache := cache_insert (si_target_service si) (si_algorithm si) w c (ks_cache s2)\<rparr>"
    by (auto simp: preload_cache_def on_cache_def bindE_def)
  then show "cached (ks_cache t) (si_target_service si, si_algorithm si) = Some (w, b)"
    using key_cache.look_put [of "(si_target_service si, si_algorithm si)" "(w, c)" "ks_cache s2"] by simp
  show "secret_of env t = secret_of env s"
    using same_keysD(2) [OF v(2), of env] same_keysD(2) [OF decrypt_private_key_Inr(1) [OF assms(1) dec], of env] t'(2) by simp
qed

lemma rewrap_keys_cases:
  assumes "current_master_key_version env s = (x, s1)" "rewrap_keys env target_version batch_size s = Some (r, t)"
  obtains "\<not> is_ok r" "t = s1" | "rewrap_loop env target_version batch_size 0 s1 = Some (r, t)"
proof (cases x)
  case (Inl e)
  with assms have "r = Inl e" "t = s1" by (simp_all add: rewrap_keys_def)
  with that(1) show ?thesis by simp
next
  case (Inr v)
  with assms consider "\<not> is_ok r \<and> t = s1" | "rewrap_loop env target_version batch_size 0 s1 = Some (r, t)"
    by (cases "v = target_version") (auto simp: rewrap_keys_def)
  then show ?thesis using that by cases blast+
qed

section \<open>Properties\<close>



text \<open>C7: After a rotation that succeeded, a caller who reads the key gets the key pair that the rotation generated, with
  the version after the one that was active before.\<close>

theorem rotation_takes_effect:
  assumes "reachable (\<lambda>s. env_ok env \<and> service_init s) (service_step env) s"
    and "rotate_key env ctx ri s = (Inr entity, t)"
    and "get_private_key env ctx2 ki t = (Inr out, u)"
    and "ki_target_service ki = ri_service_id ri" "ki_algorithm ki = ri_algorithm ri"
  shows "\<exists>mat i. active_key (ks_db s) (ri_service_id ri, ri_algorithm ri) = Some mat \<and> ko_version out = fst mat + 1
       \<and> fresh_private env (ri_algorithm ri) i = Some (ko_bytes out)"
proof -
  note g = service_reachable_good [OF assms(1)]
  have inv: "service_inv s" "coherent env s" using g(2) by (simp_all add: good_def)
  note r = rotate_key_Inr [OF g(1) inv(1) assms(2)]
  have "good env (secret_of env t) t"
    using r(1) coherent_rotate [OF g(1) inv assms(2)] by (simp add: good_def)
  from outcomeD [OF outcome_read_key this, of ctx2 ki _ _ _ _ _ "Inr out" u] g(1) assms(3)
  have "secret_of env t (ri_service_id ri, ri_algorithm ri) = Some (ko_version out, ko_bytes out)"
    unfolding read_key_instances by (auto simp: env_ok_def read_post_def assms(4,5))
  with r(3,4) show ?thesis by auto
qed


text \<open>C29: Whatever a rewrap run does before it ends, however it ends, every slot still holds the version and the
  private key it held before, and the cache is still coherent.\<close>

theorem rewrap_keeps_keys:
  assumes "reachable (\<lambda>s. env_ok env \<and> service_init s) (service_step env) s"
    and "rewrap_keys env target_version batch_size s = Some (r, t)"
  shows "secret_of env t = secret_of env s \<and> service_inv t \<and> coherent env t"
proof -
  note g = service_reachable_good [OF assms(1)]
  have "transport_ok env" using g(1) by (simp add: env_ok_def)
  then obtain x s1 where v: "current_master_key_version env s = (x, s1)" and s1: "good env (secret_of env s) s1"
    using outcomeD [OF outcome_quiet [OF quiet_service(3)] g(2)] by (cases "current_master_key_version env s") blast
  have "good env (secret_of env s) t"
    using v assms(2)
  proof (cases rule: rewrap_keys_cases)
    case 1
    with s1 show ?thesis by simp
  next
    case 2
    from rewrap_loop_good [OF g(1) this s1] show ?thesis by simp
  qed
  then show ?thesis by (simp add: good_def)
qed

text \<open>C30: On a table with at least one key and with a positive batch size, a rewrap run never reports success: the
  query for keys that need rewrapping returns the rewrapped keys again, so the loop ends only by an error.\<close>

theorem rewrap_never_succeeds:
  assumes "transport_ok env" "keys_tbl (ks_db s) \<noteq> []" "0 < batch_size"
  shows "rewrap_keys env target_version batch_size s \<noteq> Some (Inr n, t)"
proof
  assume run: "rewrap_keys env target_version batch_size s = Some (Inr n, t)"
  obtain x s1 where v: "current_master_key_version env s = (x, s1)" by (cases "current_master_key_version env s")
  have "keys_tbl (ks_db s1) \<noteq> []"
    using quietD [OF quiet_service(3) [OF assms(1)] v] assms(2) by (simp add: same_keys_def)
  with assms rewrap_loop_busy [of env target_version batch_size 0 s1 "(Inr n, t)"] show False
    by (cases rule: rewrap_keys_cases [OF v run]) simp_all
qed


text \<open>C33: Generating a key for a slot whose key is cached does not reach the cache: the next read still returns the old
  private key and the old version, while the database already holds the new key under the next version.\<close>

theorem generated_key_hidden_by_cache:
  assumes "reachable (\<lambda>s. env_ok env \<and> service_init s) (service_step env) s"
    and "cached (ks_cache s) (gi_service_id gi, gi_algorithm gi) = Some (v, b)"
    and "generate_key_pair env ctx gi s = (Inr entity, t)"
    and "get_private_key env ctx2 ki t = (Inr out, u)"
    and "ki_target_service ki = gi_service_id gi" "ki_algorithm ki = gi_algorithm gi"
  shows "ko_version out = v \<and> ko_bytes out = b
       \<and> (\<exists>b'. secret_of env t (gi_service_id gi, gi_algorithm gi) = Some (v + 1, b'))"
proof -
  note g = service_reachable_good [OF assms(1)]
  have inv: "service_inv s" "cached (ks_cache s) \<subseteq>\<^sub>m secret_of env s" using g(2) by (simp_all add: good_def coherent_def)
  note e = generate_key_pair_Inr [OF g(1) inv(1) assms(3)]
  have "secret_of env s (gi_service_id gi, gi_algorithm gi) = Some (v, b)"
    using inv(2) assms(2) by (metis domI map_le_def)
  then obtain mat where "active_key (ks_db s) (gi_service_id gi, gi_algorithm gi) = Some mat" "fst mat = v"
    by (rule secret_version)
  with e(3) have "kp_version entity = v + 1" by simp
  moreover have "ko_version out = v" "ko_bytes out = b"
    using read_cached [of t ki v b] assms(2,4-6) e(2) by (simp_all add: read_key_instances)
  ultimately show ?thesis using e(4) by auto
qed


text \<open>C32: A caller whom the access policy does not allow an operation on keys is refused: keys, cache and daemon stay as
  they were, and the answer is \<^verbatim>\<open>Unauthorized\<close> with the denial recorded, or the error of recording it.\<close>

theorem denied_requests_recorded:
  "(\<not> authorize_control_action (sv_acl env) (ri_caller_service ri) (required_action ri)
      \<longrightarrow> refused ctx KeyRotated s (rotate_key env ctx ri s))
   \<and> (\<not> may_generate (sv_acl env) (gi_caller_service gi) \<longrightarrow> refused ctx GenerateKey s (generate_key_pair env ctx gi s))
   \<and> (\<not> authorize_key_access (sv_acl env) (ki_caller_service ki) (ki_target_service ki) (ki_algorithm ki) PrivateKey
      \<longrightarrow> refused ctx GetPrivateKey s (get_private_key env ctx ki s))
   \<and> (\<not> authorize_key_access (sv_acl env) (ki_caller_service ki) (ki_target_service ki) (ki_algorithm ki) SymmetricKey
      \<longrightarrow> refused ctx GetSymmetricKey s (get_symmetric_key env ctx ki s))
   \<and> (\<not> authorize_key_access (sv_acl env) caller caller algorithm GenerateDataKeyAccess
      \<longrightarrow> refused ctx GenerateDataKeyAction s (generate_data_key_for env ctx caller algorithm s))
   \<and> (si_algorithm si = Ed25519 \<and> \<not> authorize_key_access (sv_acl env) (si_caller_service si) (si_target_service si) Ed25519 PrivateKey
      \<longrightarrow> refused ctx SignData s (sign_data env ctx si s))"
  by (simp add: rotate_key_def generate_key_pair_def get_private_key_def get_symmetric_key_def generate_data_key_for_def
      sign_data_def deny_refused)

section \<open>Witnesses\<close>

text \<open>The sample service, and the states it reaches by reading and by rotating its key.\<close>

lemma sample_kms_reachable: "reachable (\<lambda>s. env_ok sample_svc \<and> service_init s) (service_step sample_svc) sample_kms"
  by (rule reachable.intros) (simp add: env_ok_sample sample_kms_init)

lemma fst_Inr_iff: "fst p = Inr x \<longleftrightarrow> (\<exists>t. p = (Inr x, t))"
  by (cases p) auto



theorem rotation_takes_effect_witness:
  "\<exists>e out t u. rotate_key sample_svc sample_rq sample_rotation sample_kms = (Inr e, t)
     \<and> get_private_key sample_svc sample_rq sample_read t = (Inr out, u) \<and> ko_version out = 2"
proof -
  obtain e t out u where e: "rotate_key sample_svc sample_rq sample_rotation sample_kms = (Inr e, t)"
    and out: "get_private_key sample_svc sample_rq sample_read t = (Inr out, u)"
    using sample_rotation_runs by (auto simp: fst_Inr_iff is_ok_iff split: prod.splits)
  have "map_option fst (active_key (ks_db sample_kms) (''svc'', Ed25519)) = Some 1" by code_simp
  with rotation_takes_effect [OF sample_kms_reachable e out] have "ko_version out = 2"
    by (auto simp: sample_read_def sample_rotation_def)
  with e out show ?thesis by blast
qed

definition sample_signing :: "u32 option \<Rightarrow> SignDataInput" where
  "sample_signing v = \<lparr>si_caller_service = ''svc'', si_target_service = ''svc'', si_algorithm = Ed25519, si_payload = [7], si_key_version = v\<rparr>"


text \<open>A rewrap run that ends because the database fails in its second round.\<close>

definition sample_faulty :: kms_state where
  "sample_faulty = sample_kms\<lparr>ks_db := (ks_db sample_kms)\<lparr>db_faults := [None, None, None, None, Some (SqlFault [])]\<rparr>\<rparr>"

lemma sample_faulty_reachable: "reachable (\<lambda>s. env_ok sample_svc \<and> service_init s) (service_step sample_svc) sample_faulty"
  using sample_kms_init by (intro reachable_init) (auto simp: env_ok_sample sample_faulty_def service_init_def service_inv_def)

theorem rewrap_keeps_keys_witness:
  "\<exists>e t. rewrap_keys sample_svc 1 10 sample_faulty = Some (Inl e, t) \<and> secret_of sample_svc t = secret_of sample_svc sample_faulty
     \<and> secret_of sample_svc t (''svc'', Ed25519) = Some (1, replicate 32 8)"
proof -
  have "(case rewrap_keys sample_svc 1 10 sample_faulty of Some (Inl e, t) \<Rightarrow> True | _ \<Rightarrow> False)" by code_simp
  then obtain e t where run: "rewrap_keys sample_svc 1 10 sample_faulty = Some (Inl e, t)"
    by (auto split: option.splits sum.splits)
  have "secret_of sample_svc sample_faulty (''svc'', Ed25519) = Some (1, replicate 32 8)" by code_simp
  with rewrap_keeps_keys [OF sample_faulty_reachable run] run show ?thesis by auto
qed

theorem rewrap_never_succeeds_witness:
  "keys_tbl (ks_db sample_kms) \<noteq> [] \<and> (\<forall>n t. rewrap_keys sample_svc 1 10 sample_kms \<noteq> Some (Inr n, t))"
  using rewrap_never_succeeds [of sample_svc sample_kms 10 1] env_ok_sample by (simp add: env_ok_def sample_kms_def)

definition sample_polls :: "nat \<Rightarrow> transport" where
  "sample_polls i = (if i < 2 then \<lparr>tr_connect = \<lambda>_. Inl (Io ''refused''), tr_exchange = \<lambda>_. Inl (Io ''refused'')\<rparr>
     else daemon_transport sample_hsm (sv_serde sample_svc) (\<lambda>_ d. d) sample_ctx sample_state)"


definition sample_generation :: GenerateKeyPairInput where
  "sample_generation = \<lparr>gi_caller_service = ''svc'', gi_service_id = ''svc'', gi_algorithm = Ed25519, gi_purpose = Signing\<rparr>"

theorem generated_key_hidden_by_cache_witness:
  "\<exists>s e t out u. generate_key_pair sample_svc sample_rq sample_generation s = (Inr e, t)
     \<and> get_private_key sample_svc sample_rq sample_read t = (Inr out, u)
     \<and> ko_version out = 1 \<and> (\<exists>b'. secret_of sample_svc t (''svc'', Ed25519) = Some (2, b'))"
proof -
  have "case get_private_key sample_svc sample_rq sample_read sample_kms of
      (r, s) \<Rightarrow> cached (ks_cache s) (''svc'', Ed25519) = Some (1, replicate 32 8)
        \<and> (case generate_key_pair sample_svc sample_rq sample_generation s of
            (r1, t) \<Rightarrow> is_ok r1 \<and> is_ok (fst (get_private_key sample_svc sample_rq sample_read t)))"
    by code_simp
  then obtain r s e t out u where s: "get_private_key sample_svc sample_rq sample_read sample_kms = (r, s)"
    and c: "cached (ks_cache s) (''svc'', Ed25519) = Some (1, replicate 32 8)"
    and e: "generate_key_pair sample_svc sample_rq sample_generation s = (Inr e, t)"
    and out: "get_private_key sample_svc sample_rq sample_read t = (Inr out, u)"
    by (auto simp: fst_Inr_iff is_ok_iff split: prod.splits)
  have "reachable (\<lambda>s. env_ok sample_svc \<and> service_init s) (service_step sample_svc) s"
    using reachable_step [OF sample_kms_reachable step_get_private, of sample_rq sample_read] s by simp
  from generated_key_hidden_by_cache [OF this _ e out, of 1 "replicate 32 8"] c
  have "ko_version out = 1 \<and> (\<exists>b'. secret_of sample_svc t (''svc'', Ed25519) = Some (2, b'))"
    by (simp add: sample_generation_def sample_read_def)
  with e out show ?thesis by blast
qed


theorem denied_requests_recorded_witness:
  "refused sample_rq KeyRotated sample_kms (rotate_key sample_svc sample_rq (sample_rotation\<lparr>ri_caller_service := ''eve''\<rparr>) sample_kms)"
proof -
  have "\<not> authorize_control_action (sv_acl sample_svc) (ri_caller_service (sample_rotation\<lparr>ri_caller_service := ''eve''\<rparr>))
      (required_action (sample_rotation\<lparr>ri_caller_service := ''eve''\<rparr>))" by code_simp
  with denied_requests_recorded [of sample_svc "sample_rotation\<lparr>ri_caller_service := ''eve''\<rparr>"] show ?thesis by blast
qed

end
