(* ===== verification/Workload_Api.thy ===== *)
theory Workload_Api
  imports Kms_Types
begin

unbundle bit_operations_syntax

text \<open>The client of the SPIRE Workload API in \<^verbatim>\<open>kms-service/src/infrastructure/identity.rs\<close>: the
  protobuf decoder of the X.509 SVID response and the gRPC framing.  A decoding function reads at
  an offset that it advances, so it is a run of the state-and-error monad over the offset; the
  offset is a \<^verbatim>\<open>usize\<close> and additions that may overflow are written modulo \<open>2 ^ 64\<close>, as the release
  build computes them.  A slice whose end lies before its start panics, which is an outcome of
  its own beside the errors the code returns.\<close>

section \<open>Outcomes\<close>

datatype AuthError =
    Failed string
  | UntrustedIdentity string
  | MissingMetadata string

fun auth_error_display :: "AuthError \<Rightarrow> string" where
  "auth_error_display (Failed m) = ''authentication failed: '' @ m"
| "auth_error_display (UntrustedIdentity m) = ''identity is not trusted: '' @ m"
| "auth_error_display (MissingMetadata m) = ''missing identity metadata: '' @ m"

datatype fault = Rejected AuthError | Panicked

section \<open>UTF-8\<close>

text \<open>\<^verbatim>\<open>String::from_utf8\<close> of the standard library: \<^term>\<open>None\<close> for valid input, otherwise the number of
  valid bytes before the fault and the length of the offending sequence, \<^term>\<open>None\<close> when the input
  ends inside a character.\<close>

definition continuation :: "u8 \<Rightarrow> bool" where
  "continuation b = (0x80 \<le> b \<and> b \<le> 0xBF)"

definition char_width :: "u8 \<Rightarrow> nat" where
  "char_width b =
     (if b < 0x80 then 1 else if 0xC2 \<le> b \<and> b \<le> 0xDF then 2 else if 0xE0 \<le> b \<and> b \<le> 0xEF then 3
      else if 0xF0 \<le> b \<and> b \<le> 0xF4 then 4 else 0)"

definition second_ok :: "u8 \<Rightarrow> u8 \<Rightarrow> bool" where
  "second_ok a b =
     (if a = 0xE0 then 0xA0 \<le> b \<and> b \<le> 0xBF
      else if a = 0xED then 0x80 \<le> b \<and> b \<le> 0x9F
      else if a = 0xF0 then 0x90 \<le> b \<and> b \<le> 0xBF
      else if a = 0xF4 then 0x80 \<le> b \<and> b \<le> 0x8F
      else continuation b)"

fun tail_fault :: "nat \<Rightarrow> nat \<Rightarrow> bytes \<Rightarrow> nat option option" where
  "tail_fault n k [] = (if n = 0 then None else Some None)"
| "tail_fault n k (b # bs) =
     (if n = 0 then None
      else if continuation b then tail_fault (n - 1) (k + 1) bs else Some (Some k))"

definition char_fault :: "bytes \<Rightarrow> nat option option" where
  "char_fault bs =
     (case bs of [] \<Rightarrow> None
      | a # as \<Rightarrow>
        if char_width a = 0 then Some (Some 1)
        else if char_width a = 1 then None
        else (case as of [] \<Rightarrow> Some None
              | b # bs' \<Rightarrow> if second_ok a b then tail_fault (char_width a - 2) 2 bs' else Some (Some 1)))"

function utf8_fault :: "nat \<Rightarrow> bytes \<Rightarrow> (nat \<times> nat option) option" where
  "utf8_fault i bs =
     (if bs = [] then None
      else case char_fault bs of
        Some l \<Rightarrow> Some (i, l)
      | None \<Rightarrow> utf8_fault (i + char_width (hd bs)) (drop (char_width (hd bs)) bs))"
  by pat_completeness auto

fun utf8_error_display :: "nat \<times> nat option \<Rightarrow> string" where
  "utf8_error_display (i, Some l) =
     ''invalid utf-8 sequence of '' @ dec l @ '' bytes from index '' @ dec i"
| "utf8_error_display (i, None) = ''incomplete utf-8 byte sequence from index '' @ dec i"

lemma char_fault_None_width: "char_fault bs = None \<Longrightarrow> bs \<noteq> [] \<Longrightarrow> 0 < char_width (hd bs)"
  by (cases bs) (auto simp: char_fault_def split: if_splits)

termination utf8_fault
  by (relation "measure (length \<circ> snd)") (auto dest: char_fault_None_width)

declare utf8_fault.simps [simp del]

section \<open>Protobuf\<close>

record X509SVID =
  spiffe_id :: string
  x509_svid :: bytes
  x509_svid_key :: bytes
  svid_bundle :: bytes
  hint :: string

definition default_svid :: X509SVID where
  "default_svid =
     \<lparr>spiffe_id = '''', x509_svid = [], x509_svid_key = [], svid_bundle = [], hint = ''''\<rparr>"

type_synonym 'a decoder = "(nat, fault, 'a) sm"

definition usize_add :: "nat \<Rightarrow> nat \<Rightarrow> nat" where
  "usize_add a b = (a + b) mod 2 ^ 64"

function varint_loop :: "bytes \<Rightarrow> u64 \<Rightarrow> nat \<Rightarrow> u64 decoder" where
  "varint_loop data result shift offset =
     (if length data \<le> offset
      then (Inl (Rejected (Failed
             ''truncated protobuf varint while decoding SPIRE Workload API response'')), offset)
      else
        let byte = data ! offset;
            result' = result OR push_bit shift (ucast (byte AND 0x7F))
        in if byte AND 0x80 = 0 then (Inr result', offset + 1)
           else if 64 \<le> shift + 7
           then (Inl (Rejected (Failed
                  ''overlong protobuf varint while decoding SPIRE Workload API response'')), offset + 1)
           else varint_loop data result' (shift + 7) (offset + 1))"
  by pat_completeness auto

termination varint_loop
  by (relation "measure (\<lambda>(data, result, shift, offset). length data - offset)") auto

declare varint_loop.simps [simp del]

definition decode_varint :: "bytes \<Rightarrow> u64 decoder" where
  "decode_varint data = varint_loop data 0 0"

definition decode_length_delimited :: "bytes \<Rightarrow> bytes decoder" where
  "decode_length_delimited data =
     bindE (decode_varint data) (\<lambda>len offset.
       let stop = usize_add offset (unat len)
       in if length data < stop
          then (Inl (Rejected (Failed
                 ''protobuf length-delimited field exceeds the SPIRE Workload API response size'')), offset)
          else if stop < offset then (Inl Panicked, offset)
          else (Inr (take (stop - offset) (drop offset data)), stop))"

definition decode_string :: "bytes \<Rightarrow> string decoder" where
  "decode_string data =
     bindE (decode_length_delimited data) (\<lambda>b.
       case utf8_fault 0 b of
         None \<Rightarrow> returnE (from_bytes b)
       | Some e \<Rightarrow> throwE (Rejected (Failed
           (''invalid UTF-8 SPIRE Workload API string field: '' @ utf8_error_display e))))"

text \<open>One iteration of the loop over the fields of an SVID; \<^verbatim>\<open>(tag >> 3) as u32\<close> truncates.\<close>

definition wire_type :: "u64 \<Rightarrow> nat" where
  "wire_type tag = unat (tag AND 7)"

definition field_number :: "u64 \<Rightarrow> nat" where
  "field_number tag = unat (drop_bit 3 tag) mod 2 ^ 32"

definition svid_field :: "bytes \<Rightarrow> X509SVID \<Rightarrow> X509SVID decoder" where
  "svid_field value svid =
     bindE (decode_varint value) (\<lambda>tag.
       if wire_type tag = 0 then bindE (decode_varint value) (\<lambda>_. returnE svid)
       else if wire_type tag = 2 then
         (if field_number tag = 1 then
            bindE (decode_string value) (\<lambda>v. returnE (svid\<lparr>spiffe_id := v\<rparr>))
          else if field_number tag = 2 then
            bindE (decode_length_delimited value) (\<lambda>v. returnE (svid\<lparr>x509_svid := v\<rparr>))
          else if field_number tag = 3 then
            bindE (decode_length_delimited value) (\<lambda>v. returnE (svid\<lparr>x509_svid_key := v\<rparr>))
          else if field_number tag = 4 then
            bindE (decode_length_delimited value) (\<lambda>v. returnE (svid\<lparr>svid_bundle := v\<rparr>))
          else if field_number tag = 5 then
            bindE (decode_string value) (\<lambda>v. returnE (svid\<lparr>hint := v\<rparr>))
          else bindE (decode_length_delimited value) (\<lambda>_. returnE svid))
       else throwE (Rejected (Failed
         (''unsupported SPIRE Workload API wire type '' @ dec (wire_type tag) @ '' for field ''
            @ dec (field_number tag)))))"

function svid_loop :: "bytes \<Rightarrow> X509SVID \<Rightarrow> X509SVID decoder" where
  "svid_loop value svid inner =
     (if inner < length value
      then case svid_field value svid inner of
             (Inl e, inner') \<Rightarrow> (Inl e, inner')
           | (Inr svid', inner') \<Rightarrow> svid_loop value svid' inner'
      else (Inr svid, inner))"
  by pat_completeness auto

section \<open>A decoder advances\<close>

text \<open>A successful run ends beyond the offset it started at and within the data.\<close>

definition advances :: "bytes \<Rightarrow> 'a decoder \<Rightarrow> bool" where
  "advances data m = (\<forall>o1 x o2. m o1 = (Inr x, o2) \<longrightarrow> o1 < o2 \<and> o2 \<le> length data)"

lemma advancesD: "advances data m \<Longrightarrow> m o1 = (Inr x, o2) \<Longrightarrow> o1 < o2 \<and> o2 \<le> length data"
  unfolding advances_def by blast

lemma advances_bindE:
  assumes "advances data m" and "\<And>x. (\<forall>o1 y o2. f x o1 = (Inr y, o2) \<longrightarrow> o1 \<le> length data \<longrightarrow> o1 \<le> o2 \<and> o2 \<le> length data)"
  shows "advances data (bindE m f)"
  unfolding advances_def bindE_def
proof (intro allI impI)
  fix o1 y o2 assume run: "(case m o1 of (Inl e, t) \<Rightarrow> (Inl e, t) | (Inr x, t) \<Rightarrow> f x t) = (Inr y, o2)"
  then obtain x t where m: "m o1 = (Inr x, t)" and f: "f x t = (Inr y, o2)"
    by (auto split: prod.splits sum.splits)
  from advancesD[OF assms(1) m] assms(2)[of x] f show "o1 < o2 \<and> o2 \<le> length data" by fastforce
qed

lemma advances_stays: "advances data m \<Longrightarrow> m o1 = (Inr y, o2) \<Longrightarrow> o1 \<le> o2 \<and> o2 \<le> length data"
  using advancesD by fastforce

lemma varint_loop_advances:
  "varint_loop data r sh o1 = (Inr x, o2) \<Longrightarrow> o1 < o2 \<and> o2 \<le> length data"
proof (induction data r sh o1 rule: varint_loop.induct)
  case (1 data result shift offset)
  from "1.prems" show ?case
    by (subst (asm) varint_loop.simps) (auto simp: Let_def split: if_splits dest: "1.IH"[OF _ refl refl])
qed

lemma advances_varint: "advances data (decode_varint data)"
  unfolding advances_def decode_varint_def by (blast dest: varint_loop_advances)

lemma advances_length_delimited: "advances data (decode_length_delimited data)"
  unfolding decode_length_delimited_def
  by (rule advances_bindE[OF advances_varint]) (auto simp: Let_def split: if_splits)

lemma advances_string: "advances data (decode_string data)"
  unfolding decode_string_def
  by (rule advances_bindE[OF advances_length_delimited])
    (auto simp: returnE_def throwE_def split: option.splits)

lemma advances_returned: "advances data m \<Longrightarrow> advances data (bindE m (\<lambda>x. returnE (g x)))"
  by (rule advances_bindE) (auto simp: returnE_def)

lemma advances_svid_field: "advances value (svid_field value svid)"
  unfolding svid_field_def
  by (rule advances_bindE[OF advances_varint])
    (auto split: if_splits simp: throwE_def
      dest!: advances_stays[OF advances_returned[OF advances_varint]]
        advances_stays[OF advances_returned[OF advances_length_delimited]]
        advances_stays[OF advances_returned[OF advances_string]])

lemma svid_field_forward:
  "(Inr svid', inner') = svid_field data svid inner \<Longrightarrow> inner < inner'"
  using advancesD[OF advances_svid_field, of data svid inner svid' inner'] by simp

termination svid_loop
  by (relation "measure (\<lambda>(data, svid, inner). length data - inner)")
    (auto dest: svid_field_forward intro: diff_less_mono2)

declare svid_loop.simps [simp del]

text \<open>The outer loop: one iteration reads one field of the response, and a field 1 is an SVID.  The
  fixed-width wire types 1 and 5 are read as if they were length-delimited, as the code has it.\<close>

definition push_svid :: "X509SVID list \<Rightarrow> bytes \<Rightarrow> X509SVID list decoder" where
  "push_svid svids value =
     (case svid_loop value default_svid 0 of
        (Inl e, _) \<Rightarrow> throwE e
      | (Inr svid, _) \<Rightarrow> returnE (svids @ [svid]))"

definition response_field :: "bytes \<Rightarrow> X509SVID list \<Rightarrow> X509SVID list decoder" where
  "response_field data svids =
     bindE (decode_varint data) (\<lambda>tag.
       if wire_type tag = 0 then bindE (decode_varint data) (\<lambda>_. returnE svids)
       else if wire_type tag = 1 then bindE (decode_length_delimited data) (\<lambda>_. returnE svids)
       else if wire_type tag = 2 then
         bindE (decode_length_delimited data) (\<lambda>value.
           if field_number tag = 1 then push_svid svids value else returnE svids)
       else if wire_type tag = 5 then bindE (decode_length_delimited data) (\<lambda>_. returnE svids)
       else throwE (Rejected (Failed
         (''unsupported SPIRE Workload API protobuf wire type '' @ dec (wire_type tag)
            @ '' while decoding field '' @ dec (field_number tag)))))"

function response_loop :: "bytes \<Rightarrow> X509SVID list \<Rightarrow> X509SVID list decoder" where
  "response_loop data svids offset =
     (if offset < length data
      then case response_field data svids offset of
             (Inl e, offset') \<Rightarrow> (Inl e, offset')
           | (Inr svids', offset') \<Rightarrow> response_loop data svids' offset'
      else (Inr svids, offset))"
  by pat_completeness auto

lemma push_svid_stays: "push_svid svids value o1 = (r, o2) \<Longrightarrow> o2 = o1"
  by (auto simp: push_svid_def throwE_def returnE_def split: prod.splits sum.splits)

lemma advances_value:
  "advances data (bindE (decode_length_delimited data)
     (\<lambda>value. if field_number tag = 1 then push_svid svids value else returnE svids))"
  by (rule advances_bindE[OF advances_length_delimited])
    (auto simp: returnE_def dest!: push_svid_stays split: if_splits)

lemma advances_response_field: "advances data (response_field data svids)"
  unfolding response_field_def
  by (rule advances_bindE[OF advances_varint])
    (auto split: if_splits simp: throwE_def
      dest!: advances_stays[OF advances_value[unfolded One_nat_def]]
        advances_stays[OF advances_returned[OF advances_varint]]
        advances_stays[OF advances_returned[OF advances_length_delimited]])

lemma response_field_forward:
  "(Inr svids', offset') = response_field data svids offset \<Longrightarrow> offset < offset'"
  using advancesD[OF advances_response_field, of data svids offset svids' offset'] by simp

termination response_loop
  by (relation "measure (\<lambda>(data, svids, offset). length data - offset)")
    (auto dest: response_field_forward intro: diff_less_mono2)

declare response_loop.simps [simp del]

definition decode_x509_svid_response :: "bytes \<Rightarrow> fault + X509SVID list" where
  "decode_x509_svid_response data = fst (response_loop data [] 0)"

section \<open>gRPC frames\<close>

definition grpc_encode_message :: "bytes \<Rightarrow> bytes" where
  "grpc_encode_message payload = 0 # u32_to_be_bytes (word_of_nat (length payload)) @ payload"

function frames_loop :: "bytes \<Rightarrow> bytes list \<Rightarrow> nat \<Rightarrow> AuthError + bytes list" where
  "frames_loop data frames offset =
     (if offset + 5 \<le> length data
      then if data ! offset \<noteq> 0
           then Inl (Failed
             ''compressed gRPC messages are not supported by this SPIRE Workload API client'')
           else
             let len = unat (u32_from_be_bytes
                   [data ! (offset + 1), data ! (offset + 2), data ! (offset + 3), data ! (offset + 4)])
             in if length data < offset + 5 + len
                then Inl (Failed
                  ''truncated gRPC Workload API response payload received from SPIRE'')
                else frames_loop data (frames @ [take len (drop (offset + 5) data)]) (offset + 5 + len)
      else Inr frames)"
  by pat_completeness auto

termination frames_loop
  by (relation "measure (\<lambda>(data, frames, offset). length data - offset)") auto

declare frames_loop.simps [simp del]

definition parse_grpc_frames :: "bytes \<Rightarrow> AuthError + bytes list" where
  "parse_grpc_frames data = frames_loop data [] 0"

end
