(* ===== verification/Workload_Codec.thy ===== *)
theory Workload_Codec
  imports Workload_Api "HOL-Library.Code_Target_Nat"
begin

unbundle bit_operations_syntax

text \<open>Correctness of the Workload API decoder against a reference encoder that follows the protobuf
  encoding: a message is a list of fields, the last occurrence of a field wins, unknown fields
  are skipped.  Also the bounds of a decoded response, the one way in which the decoder panics,
  and the round trip of the gRPC frames.\<close>

section \<open>Reference encoder\<close>

fun encode_varint :: "nat \<Rightarrow> bytes" where
  "encode_varint n =
     (if n < 128 then [word_of_nat n] else word_of_nat (128 + n mod 128) # encode_varint (n div 128))"

declare encode_varint.simps [simp del]

type_synonym pb_field = "nat \<times> bytes"

definition encode_field :: "pb_field \<Rightarrow> bytes" where
  "encode_field f = encode_varint (fst f * 8 + 2) @ encode_varint (length (snd f)) @ snd f"

definition encode_fields :: "pb_field list \<Rightarrow> bytes" where
  "encode_fields fs = concat (map encode_field fs)"

fun set_field :: "X509SVID \<Rightarrow> pb_field \<Rightarrow> X509SVID" where
  "set_field svid (k, b) =
     (if k = 1 then svid\<lparr>spiffe_id := from_bytes b\<rparr>
      else if k = 2 then svid\<lparr>x509_svid := b\<rparr>
      else if k = 3 then svid\<lparr>x509_svid_key := b\<rparr>
      else if k = 4 then svid\<lparr>svid_bundle := b\<rparr>
      else if k = 5 then svid\<lparr>hint := from_bytes b\<rparr>
      else svid)"

definition svid_of :: "pb_field list \<Rightarrow> X509SVID" where
  "svid_of fs = foldl set_field default_svid fs"

definition svid_field_ok :: "pb_field \<Rightarrow> bool" where
  "svid_field_ok f = (fst f < 2 ^ 29 \<and> (fst f = 1 \<or> fst f = 5 \<longrightarrow> utf8_fault 0 (snd f) = None))"

text \<open>A response is a list of SVIDs and of other length-delimited fields.\<close>

datatype response_part = SvidPart "pb_field list" | OtherPart pb_field

fun encode_part :: "response_part \<Rightarrow> bytes" where
  "encode_part (SvidPart fs) = encode_field (1, encode_fields fs)"
| "encode_part (OtherPart f) = encode_field f"

fun part_ok :: "response_part \<Rightarrow> bool" where
  "part_ok (SvidPart fs) = list_all svid_field_ok fs"
| "part_ok (OtherPart f) = (fst f < 2 ^ 29 \<and> fst f \<noteq> 1)"

fun part_svids :: "response_part \<Rightarrow> X509SVID list" where
  "part_svids (SvidPart fs) = [svid_of fs]"
| "part_svids (OtherPart f) = []"

definition encode_response :: "response_part list \<Rightarrow> bytes" where
  "encode_response ps = concat (map encode_part ps)"

section \<open>Bit operations as arithmetic\<close>

lemma unat_low_mask: "unat (w AND mask n) = unat w mod 2 ^ n"
proof -
  have "unat (w AND mask n) = take_bit n (unat w)"
    by (simp only: take_bit_eq_mask[symmetric] unsigned_take_bit_eq)
  then show ?thesis by (simp add: take_bit_eq_mod)
qed

lemma unat_small: "n < 2 ^ 64 \<Longrightarrow> unat (word_of_nat n :: u64) = n"
  by (simp add: unat_of_nat)

lemma low_bits_byte: "unat ((w :: u8) AND 0x7F) = unat w mod 128"
  using unat_low_mask[of w 7] by (simp add: mask_eq_exp_minus_1)

lemma high_bit_iff: "((w :: u8) AND 0x80 = 0) = (unat w < 128)"
proof -
  have "((w :: u8) AND 0x80 = 0) = (\<not> bit w 7)"
    using and_exp_eq_0_iff_not_bit[of w 7] by simp
  also have "\<dots> = (\<not> bit (unat w) 7)" by (simp add: bit_unsigned_iff)
  also have "\<dots> = even (unat w div 128)" by (simp add: bit_iff_odd)
  also have "\<dots> = (unat w < 128)"
  proof -
    have "unat w < 256" using unsigned_less[of w, where ?'a = nat] by simp
    then have "unat w div 128 = (if unat w < 128 then 0 else 1)" by auto
    then show ?thesis by simp
  qed
  finally show ?thesis .
qed

lemma or_shifted:
  assumes "unat (r :: u64) < 2 ^ sh"
  shows "r OR push_bit sh w = r + w * 2 ^ sh"
proof -
  have "unat (take_bit sh r) = unat r"
    unfolding unsigned_take_bit_eq using assms by (simp add: take_bit_nat_eq_self)
  then have r: "take_bit sh r = r" by (simp only: word_eq_iff_unsigned[where ?'a = nat])
  have "r AND push_bit sh w = take_bit sh r AND push_bit sh w" by (simp add: r)
  also have "\<dots> = 0" by (rule bit_eqI) (auto simp: bit_simps)
  finally show ?thesis by (simp add: disjunctive_add_eq_or push_bit_eq_mult)
qed

lemma unat_tag: "k < 2 ^ 29 \<Longrightarrow> unat (word_of_nat (k * 8 + 2) :: u64) = k * 8 + 2"
  by (rule unat_small) simp

lemma wire_type_tag: "k < 2 ^ 29 \<Longrightarrow> wire_type (word_of_nat (k * 8 + 2)) = 2"
proof -
  assume k: "k < 2 ^ 29"
  have "wire_type (word_of_nat (k * 8 + 2)) = (k * 8 + 2) mod 2 ^ 3"
    using unat_low_mask[of "word_of_nat (k * 8 + 2) :: u64" 3]
    by (simp only: unat_tag[OF k] wire_type_def) (simp add: mask_eq_exp_minus_1)
  also have "\<dots> = 2" by simp presburger
  finally show ?thesis .
qed

lemma field_number_tag: "k < 2 ^ 29 \<Longrightarrow> field_number (word_of_nat (k * 8 + 2)) = k"
proof -
  assume k: "k < 2 ^ 29"
  have "field_number (word_of_nat (k * 8 + 2)) = (k * 8 + 2) div 2 ^ 3 mod 2 ^ 32"
    unfolding field_number_def unat_drop_bit_eq unat_tag[OF k] by (simp only: drop_bit_eq_div)
  also have "\<dots> = k" using k by auto
  finally show ?thesis .
qed

section \<open>Round trips\<close>

lemma nth_drop_hd: "drop off xs = y # ys \<Longrightarrow> off < length xs \<and> xs ! off = y \<and> drop (Suc off) xs = ys"
  by (metis drop_Suc drop_all drop_eq_Nil hd_drop_conv_nth linorder_not_less list.distinct(1) list.sel(1,3) tl_drop)

lemma encode_varint_Cons: "\<exists>b bs. encode_varint n = b # bs"
  by (subst encode_varint.simps) simp

lemma varint_loop_encoded:
  assumes "drop off data = encode_varint n @ rest" "unat r < 2 ^ sh" "unat r + n * 2 ^ sh < 2 ^ 64"
  shows "varint_loop data r sh off =
    (Inr (r + word_of_nat n * 2 ^ sh), off + length (encode_varint n))"
  using assms
proof (induction n arbitrary: off r sh rule: encode_varint.induct)
  case (1 n)
  define b where "b = data ! off"
  define r' where "r' = r OR push_bit sh (ucast (b AND 0x7F))"
  have r': "r' = r + word_of_nat (unat b mod 128) * 2 ^ sh"
    unfolding r'_def or_shifted[OF "1.prems"(2)] by (simp flip: low_bits_byte add: unsigned_ucast_eq)
  show ?case
  proof (cases "n < 128")
    case True
    with "1.prems"(1) have off: "off < length data" and b: "b = word_of_nat n"
      unfolding b_def by (auto simp: encode_varint.simps dest: nth_drop_hd)
    from b True have ub: "unat b = n" by (simp add: unat_of_nat)
    with r' True have "r' = r + word_of_nat n * 2 ^ sh" by simp
    with off ub True show ?thesis
      by (subst varint_loop.simps)
        (simp add: high_bit_iff Let_def encode_varint.simps[of n] flip: b_def r'_def)
  next
    case False
    then have enc: "encode_varint n = word_of_nat (128 + n mod 128) # encode_varint (n div 128)"
      by (subst encode_varint.simps) simp
    with "1.prems"(1) have off: "off < length data" and b: "b = word_of_nat (128 + n mod 128)"
      and rest: "drop (Suc off) data = encode_varint (n div 128) @ rest"
      unfolding b_def by (auto dest: nth_drop_hd)
    have "128 + n mod 128 < 2 ^ 8" by simp
    then have ub: "unat b = 128 + n mod 128" unfolding b unat_of_nat by simp
    have "n * 2 ^ sh = (n mod 128 + n div 128 * 128) * 2 ^ sh" by (simp only: mod_div_mult_eq)
    also have "\<dots> = (n mod 128) * 2 ^ sh + (n div 128) * 2 ^ (sh + 7)"
      unfolding add_mult_distrib power_add by simp
    finally have split: "n * 2 ^ sh = (n mod 128) * 2 ^ sh + (n div 128) * 2 ^ (sh + 7)" .
    have "r' = word_of_nat (unat r + (n mod 128) * 2 ^ sh)" unfolding r' ub by simp
    moreover have "unat r + (n mod 128) * 2 ^ sh < 2 ^ 64" using "1.prems"(3) split by linarith
    ultimately have ur': "unat r' = unat r + (n mod 128) * 2 ^ sh" by (simp only: unat_small)
    have "(n mod 128 + 1) * 2 ^ sh \<le> 128 * 2 ^ sh" by (rule mult_le_mono1) simp
    then have "unat r + (n mod 128) * 2 ^ sh < 128 * 2 ^ sh"
      using "1.prems"(2) unfolding add_mult_distrib by linarith
    then have small: "unat r' < 2 ^ (sh + 7)" unfolding ur' power_add by simp
    have "2 ^ (sh + 7) \<le> n * 2 ^ sh" using False by (simp add: power_add)
    then have "(2::nat) ^ (sh + 7) < 2 ^ 64" using "1.prems"(3) by linarith
    then have sh: "sh + 7 < 64" by (rule power_less_imp_less_exp[rotated]) simp
    have rec: "varint_loop data r' (sh + 7) (Suc off) =
      (Inr (r' + word_of_nat (n div 128) * 2 ^ (sh + 7)), Suc off + length (encode_varint (n div 128)))"
      by (rule "1.IH"[OF False rest small]) (use "1.prems"(3) split ur' in linarith)
    have "r' + word_of_nat (n div 128) * 2 ^ (sh + 7) = r + word_of_nat n * 2 ^ sh"
    proof -
      have "word_of_nat (n * 2 ^ sh) = (word_of_nat ((n mod 128) * 2 ^ sh + (n div 128) * 2 ^ (sh + 7)) :: u64)"
        by (simp only: split)
      then show ?thesis unfolding r' ub by (simp add: algebra_simps)
    qed
    with rec off sh ub show ?thesis
      by (subst varint_loop.simps) (simp add: high_bit_iff enc Let_def flip: b_def r'_def)
  qed
qed

lemma decode_varint_encoded:
  "drop off data = encode_varint n @ rest \<Longrightarrow> n < 2 ^ 64 \<Longrightarrow>
   decode_varint data off = (Inr (word_of_nat n), off + length (encode_varint n))"
  using varint_loop_encoded[of off data n rest 0 0] by (simp add: decode_varint_def)

lemma drop_step: "drop off xs = ys @ zs \<Longrightarrow> drop (off + length ys) xs = zs"
  by (metis add.commute append_eq_conv_conj drop_drop)

lemma drop_length: "drop off xs = ys @ zs \<Longrightarrow> ys \<noteq> [] \<Longrightarrow> off + length ys + length zs = length xs"
  by (metis Nat.add_diff_assoc add.assoc add.commute append_is_Nil_conv diff_add_inverse drop_all length_append
      length_drop linorder_le_cases nat_le_iff_add)

lemma decode_length_delimited_encoded:
  assumes data: "drop off data = encode_varint (length b) @ b @ rest" and len: "length data < 2 ^ 64"
  shows "decode_length_delimited data off =
    (Inr b, off + length (encode_varint (length b)) + length b)"
proof -
  let ?o = "off + length (encode_varint (length b))"
  have le: "?o + length b \<le> length data"
    using drop_length[OF data] encode_varint_Cons[of "length b"] by auto
  then have small: "length b < 2 ^ 64" using len by linarith
  have "drop ?o data = b @ rest" by (rule drop_step[OF data])
  moreover have "usize_add ?o (length b) = ?o + length b"
    using le len unfolding usize_add_def by simp
  ultimately show ?thesis
    using decode_varint_encoded[OF data small] le
    by (simp add: decode_length_delimited_def bindE_def unat_small[OF small])
qed

lemma decode_string_encoded:
  assumes "drop off data = encode_varint (length b) @ b @ rest" "length data < 2 ^ 64" "utf8_fault 0 b = None"
  shows "decode_string data off = (Inr (from_bytes b), off + length (encode_varint (length b)) + length b)"
  using decode_length_delimited_encoded[OF assms(1,2)] assms(3)
  by (simp add: decode_string_def bindE_def returnE_def)

lemma tag_encoded:
  assumes "drop off data = encode_field f @ rest" "fst f < 2 ^ 29"
  shows "decode_varint data off = (Inr (word_of_nat (fst f * 8 + 2)), off + length (encode_varint (fst f * 8 + 2)))"
    and "drop (off + length (encode_varint (fst f * 8 + 2))) data = encode_varint (length (snd f)) @ snd f @ rest"
proof -
  have data: "drop off data = encode_varint (fst f * 8 + 2) @ encode_varint (length (snd f)) @ snd f @ rest"
    using assms(1) by (simp add: encode_field_def)
  show "decode_varint data off = (Inr (word_of_nat (fst f * 8 + 2)), off + length (encode_varint (fst f * 8 + 2)))"
    by (rule decode_varint_encoded[OF data]) (use assms(2) in simp)
  show "drop (off + length (encode_varint (fst f * 8 + 2))) data = encode_varint (length (snd f)) @ snd f @ rest"
    by (rule drop_step[OF data])
qed

lemma length_encode_field:
  "length (encode_field f) = length (encode_varint (fst f * 8 + 2)) + length (encode_varint (length (snd f))) + length (snd f)"
  by (simp add: encode_field_def)

lemma svid_field_run:
  assumes "decode_varint data off = (Inr tag, o1)" "wire_type tag = 2" "field_number tag = fst f"
    and "decode_length_delimited data o1 = (Inr (snd f), o2)"
    and "fst f = 1 \<or> fst f = 5 \<Longrightarrow> utf8_fault 0 (snd f) = None"
  shows "svid_field data svid off = (Inr (set_field svid f), o2)"
  by (cases f) (use assms in \<open>auto simp: svid_field_def bindE_def returnE_def decode_string_def\<close>)

lemma svid_field_encoded:
  assumes data: "drop off data = encode_field f @ rest" and len: "length data < 2 ^ 64" and ok: "svid_field_ok f"
  shows "svid_field data svid off = (Inr (set_field svid f), off + length (encode_field f))"
proof -
  have k: "fst f < 2 ^ 29" using ok by (simp add: svid_field_ok_def)
  note tag = tag_encoded[OF data k]
  show ?thesis
    by (rule svid_field_run[OF tag(1) wire_type_tag[OF k] field_number_tag[OF k]])
      (use decode_length_delimited_encoded[OF tag(2) len] ok in \<open>simp_all add: length_encode_field svid_field_ok_def\<close>)
qed

lemma svid_loop_encoded:
  "drop off data = encode_fields fs \<Longrightarrow> length data < 2 ^ 64 \<Longrightarrow> list_all svid_field_ok fs \<Longrightarrow>
   fst (svid_loop data svid off) = Inr (foldl set_field svid fs)"
proof (induction fs arbitrary: off svid)
  case Nil
  then show ?case by (subst svid_loop.simps) (simp add: encode_fields_def)
next
  case (Cons f fs)
  have data: "drop off data = encode_field f @ encode_fields fs"
    using Cons.prems(1) by (simp add: encode_fields_def)
  have "off < length data"
    using data encode_varint_Cons[of "fst f * 8 + 2"] by (auto simp: encode_field_def intro: ccontr)
  moreover have "svid_field data svid off = (Inr (set_field svid f), off + length (encode_field f))"
    using svid_field_encoded[OF data Cons.prems(2)] Cons.prems(3) by simp
  moreover have "fst (svid_loop data (set_field svid f) (off + length (encode_field f)))
      = Inr (foldl set_field (set_field svid f) fs)"
    using Cons.IH[OF drop_step[OF data]] Cons.prems by simp
  ultimately show ?case by (subst svid_loop.simps) simp
qed

lemma part_header:
  obtains f where "encode_part p = encode_field f" "part_ok p \<Longrightarrow> fst f < 2 ^ 29"
    "(\<exists>fs. p = SvidPart fs \<and> f = (1, encode_fields fs)) \<or> (p = OtherPart f \<and> (part_ok p \<longrightarrow> fst f \<noteq> 1))"
  by (cases p) auto

lemma push_svid_encoded:
  "length (encode_fields fs) < 2 ^ 64 \<Longrightarrow> list_all svid_field_ok fs \<Longrightarrow>
   push_svid svids (encode_fields fs) off = (Inr (svids @ [svid_of fs]), off)"
  using svid_loop_encoded[of 0 "encode_fields fs" fs default_svid]
  by (auto simp: push_svid_def svid_of_def returnE_def split: prod.splits sum.splits)

lemma response_field_run:
  assumes "decode_varint data off = (Inr tag, o1)" "wire_type tag = 2" "field_number tag = k"
    and "decode_length_delimited data o1 = (Inr v, o2)"
  shows "response_field data svids off = (if k = 1 then push_svid svids v o2 else (Inr svids, o2))"
  using assms by (simp add: response_field_def bindE_def returnE_def)

lemma length_value: "length (snd f) \<le> length (encode_field f)"
  by (simp add: encode_field_def)

lemma encode_field_nonempty: "encode_field f \<noteq> []"
  using encode_varint_Cons[of "fst f * 8 + 2"] by (auto simp: encode_field_def)

lemma response_field_encoded:
  assumes data: "drop off data = encode_part p @ rest" and len: "length data < 2 ^ 64" and ok: "part_ok p"
  shows "response_field data svids off = (Inr (svids @ part_svids p), off + length (encode_part p))"
proof -
  obtain f where f: "encode_part p = encode_field f" "fst f < 2 ^ 29"
    and kind: "(\<exists>fs. p = SvidPart fs \<and> f = (1, encode_fields fs)) \<or> (p = OtherPart f \<and> fst f \<noteq> 1)"
    using part_header[of p] ok by metis
  have data': "drop off data = encode_field f @ rest" using data f(1) by simp
  note tag = tag_encoded[OF data' f(2)]
  have run: "response_field data svids off =
      (if fst f = 1 then push_svid svids (snd f) (off + length (encode_part p))
       else (Inr svids, off + length (encode_part p)))"
    by (rule response_field_run[OF tag(1) wire_type_tag[OF f(2)] field_number_tag[OF f(2)]])
      (use decode_length_delimited_encoded[OF tag(2) len] in \<open>simp add: length_encode_field f(1)\<close>)
  have "length (encode_field f) \<le> length data"
    using drop_length[OF data' encode_field_nonempty] by linarith
  then have "length (snd f) < 2 ^ 64" using length_value[of f] len by linarith
  with kind ok run show ?thesis by (auto simp: push_svid_encoded)
qed

lemma response_loop_encoded:
  "drop off data = encode_response ps @ rest \<Longrightarrow> length data < 2 ^ 64 \<Longrightarrow> list_all part_ok ps \<Longrightarrow>
   response_loop data svids off =
     response_loop data (svids @ concat (map part_svids ps)) (off + length (encode_response ps))"
proof (induction ps arbitrary: off svids)
  case Nil
  then show ?case by (simp add: encode_response_def)
next
  case (Cons p ps)
  have data: "drop off data = encode_part p @ encode_response ps @ rest"
    using Cons.prems(1) by (simp add: encode_response_def)
  obtain f where f: "encode_part p = encode_field f" by (cases p) auto
  have "off < length data" using data encode_field_nonempty[of f] f by (auto intro: ccontr)
  then have "response_loop data svids off =
      response_loop data (svids @ part_svids p) (off + length (encode_part p))"
    using response_field_encoded[OF data Cons.prems(2)] Cons.prems(3)
    by (subst response_loop.simps) simp
  also have "\<dots> = response_loop data ((svids @ part_svids p) @ concat (map part_svids ps))
      (off + length (encode_part p) + length (encode_response ps))"
    using Cons.IH[OF drop_step[OF data]] Cons.prems by simp
  finally show ?case by (simp add: encode_response_def add.assoc)
qed

section \<open>Frames\<close>

lemma frames_loop_step:
  assumes data: "drop off data = grpc_encode_message p @ rest" and p: "length p < 2 ^ 32"
  shows "frames_loop data frames off = frames_loop data (frames @ [p]) (off + length (grpc_encode_message p))"
proof -
  define len where "len = u32_to_be_bytes (word_of_nat (length p))"
  obtain a b c d where four: "len = [a, b, c, d]" unfolding len_def u32_to_be_bytes_def by blast
  have data': "drop off data = 0 # a # b # c # d # p @ rest"
    using data four by (simp add: grpc_encode_message_def flip: len_def)
  have lens: "length data = off + 5 + length p + length rest"
    using drop_length[OF data] by (simp add: grpc_encode_message_def)
  have at: "data ! (off + i) = (0 # a # b # c # d # p @ rest) ! i" if "i < 5" for i
    using data' that lens by (metis nth_drop nat_le_iff_add add.assoc)
  have bytes: "data ! off = 0" "data ! (off + 1) = a" "data ! (off + 2) = b" "data ! (off + 3) = c" "data ! (off + 4) = d"
    using at[of 0] at[of 1] at[of 2] at[of 3] at[of 4] by simp_all
  have "unat (u32_from_be_bytes [a, b, c, d]) = length p"
    using u32_be_roundtrip[of "word_of_nat (length p)"] p by (simp flip: four add: len_def unat_of_nat)
  moreover have "drop (off + 5) data = p @ rest"
    using drop_step[of off data "[0, a, b, c, d]"] data' by (simp add: numeral_eq_Suc)
  ultimately show ?thesis
    by (subst frames_loop.simps)
      (simp only: bytes lens Let_def, simp add: grpc_encode_message_def add.assoc del: u32_from_be_bytes.simps)
qed

lemma frames_loop_encoded:
  "drop off data = concat (map grpc_encode_message ps) @ rest \<Longrightarrow> list_all (\<lambda>p. length p < 2 ^ 32) ps \<Longrightarrow>
   length rest < 5 \<Longrightarrow> off \<le> length data \<Longrightarrow> frames_loop data frames off = Inr (frames @ ps)"
proof (induction ps arbitrary: off frames)
  case Nil
  then have "length data - off < 5" by (metis append_Nil concat.simps(1) length_drop list.simps(8))
  then have "\<not> off + 5 \<le> length data" by linarith
  then show ?case by (subst frames_loop.simps) simp
next
  case (Cons p ps)
  have data: "drop off data = grpc_encode_message p @ concat (map grpc_encode_message ps) @ rest"
    using Cons.prems(1) by simp
  have "off + length (grpc_encode_message p) \<le> length data"
    using drop_length[OF data] by (simp add: grpc_encode_message_def)
  then show ?case
    using frames_loop_step[OF data] Cons.IH[OF drop_step[OF data]] Cons.prems by simp
qed

section \<open>Panics and types\<close>

lemma varint_loop_error: "varint_loop data r sh off = (Inl e, off') \<Longrightarrow> e \<noteq> Panicked"
proof (induction data r sh off rule: varint_loop.induct)
  case (1 data result shift offset)
  from "1.prems" show ?case
    by (subst (asm) varint_loop.simps) (auto simp: Let_def split: if_splits dest: "1.IH"[OF _ refl refl])
qed

lemma length_delimited_panics_iff:
  assumes "length data < 2 ^ 63"
  shows "decode_length_delimited data off = (Inl Panicked, off') \<longleftrightarrow>
    (\<exists>len. decode_varint data off = (Inr len, off') \<and> 2 ^ 64 \<le> off' + unat len)"
proof (cases "decode_varint data off")
  case (Pair r o1)
  show ?thesis
  proof (cases r)
    case (Inl e)
    then show ?thesis using Pair varint_loop_error[of data 0 0 off e o1]
      by (auto simp: decode_length_delimited_def bindE_def decode_varint_def)
  next
    case (Inr len)
    have o1: "o1 \<le> length data" using advancesD[OF advances_varint] Pair Inr by blast
    have "unat len < 2 ^ 64" using unsigned_less[of len, where ?'a = nat] by simp
    then have "usize_add o1 (unat len) = (if o1 + unat len < 2 ^ 64 then o1 + unat len else o1 + unat len - 2 ^ 64)"
      using o1 assms unfolding usize_add_def by (simp add: mod_if)
    then show ?thesis using Pair Inr o1 \<open>unat len < 2 ^ 64\<close>
      by (auto simp: decode_length_delimited_def bindE_def Let_def)
  qed
qed

definition svid_typed :: "nat \<Rightarrow> X509SVID \<Rightarrow> bool" where
  "svid_typed n svid =
     (utf8_fault 0 (as_bytes (spiffe_id svid)) = None \<and> utf8_fault 0 (as_bytes (hint svid)) = None \<and>
      length (spiffe_id svid) \<le> n \<and> length (x509_svid svid) \<le> n \<and> length (x509_svid_key svid) \<le> n \<and>
      length (svid_bundle svid) \<le> n \<and> length (hint svid) \<le> n)"

lemma default_svid_typed: "svid_typed n default_svid"
  by (simp add: svid_typed_def default_svid_def as_bytes_def utf8_fault.simps)

lemma length_delimited_size: "decode_length_delimited data off = (Inr v, off') \<Longrightarrow> length v \<le> length data"
  by (auto simp: decode_length_delimited_def bindE_eq_Inr_iff Let_def split: if_splits)

lemma string_typed:
  "decode_string data off = (Inr v, off') \<Longrightarrow> length v \<le> length data \<and> utf8_fault 0 (as_bytes v) = None"
proof -
  assume run: "decode_string data off = (Inr v, off')"
  then obtain b u where b: "decode_length_delimited data off = (Inr b, u)"
    and rest: "(case utf8_fault 0 b of None \<Rightarrow> returnE (from_bytes b)
       | Some e \<Rightarrow> throwE (Rejected (Failed
           (''invalid UTF-8 SPIRE Workload API string field: '' @ utf8_error_display e)))) u = (Inr v, off')"
    unfolding decode_string_def bindE_eq_Inr_iff by blast
  then show ?thesis using length_delimited_size[OF b]
    by (cases "utf8_fault 0 b") (auto simp: returnE_def throwE_def)
qed

lemma svid_field_typed:
  "svid_field data svid off = (Inr svid', off') \<Longrightarrow> svid_typed (length data) svid \<Longrightarrow>
   svid_typed (length data) svid'"
  by (auto simp: svid_field_def bindE_eq_Inr_iff returnE_def throwE_def svid_typed_def
      dest!: length_delimited_size string_typed split: if_splits)

lemma svid_loop_typed:
  "svid_loop data svid off = (Inr svid', off') \<Longrightarrow> svid_typed (length data) svid \<Longrightarrow>
   svid_typed (length data) svid'"
proof (induction data svid off rule: svid_loop.induct)
  case (1 data svid off)
  show ?case
  proof (cases "off < length data")
    case True
    with "1.prems"(1) obtain mid o1 where field: "svid_field data svid off = (Inr mid, o1)"
      and rest: "svid_loop data mid o1 = (Inr svid', off')"
      by (subst (asm) svid_loop.simps) (auto split: prod.splits sum.splits)
    show ?thesis by (rule "1.IH"[OF True field[symmetric] refl rest svid_field_typed[OF field "1.prems"(2)]])
  next
    case False
    with "1.prems" show ?thesis by (subst (asm) svid_loop.simps) simp
  qed
qed

lemma svid_typed_mono: "svid_typed m svid \<Longrightarrow> m \<le> n \<Longrightarrow> svid_typed n svid"
  by (auto simp: svid_typed_def)

lemma response_field_typed:
  "response_field data svids off = (Inr svids', off') \<Longrightarrow> list_all (svid_typed (length data)) svids \<Longrightarrow>
   list_all (svid_typed (length data)) svids'"
  by (auto simp: response_field_def bindE_eq_Inr_iff returnE_def throwE_def push_svid_def default_svid_typed
      dest!: length_delimited_size svid_loop_typed intro: svid_typed_mono
      split: if_splits prod.splits sum.splits)

lemma response_loop_typed:
  "response_loop data svids off = (Inr svids', off') \<Longrightarrow> list_all (svid_typed (length data)) svids \<Longrightarrow>
   list_all (svid_typed (length data)) svids'"
proof (induction data svids off rule: response_loop.induct)
  case (1 data svids off)
  show ?case
  proof (cases "off < length data")
    case True
    with "1.prems"(1) obtain mid o1 where field: "response_field data svids off = (Inr mid, o1)"
      and rest: "response_loop data mid o1 = (Inr svids', off')"
      by (subst (asm) response_loop.simps) (auto split: prod.splits sum.splits)
    show ?thesis by (rule "1.IH"[OF True field[symmetric] refl rest response_field_typed[OF field "1.prems"(2)]])
  next
    case False
    with "1.prems" show ?thesis by (subst (asm) response_loop.simps) simp
  qed
qed

section \<open>Properties\<close>

definition sample_fields :: "pb_field list" where
  "sample_fields = [(1, as_bytes ''spiffe://example.org/kms''), (2, [7, 8]), (9, []), (2, [9]), (4, [5])]"

definition sample_parts :: "response_part list" where
  "sample_parts = [OtherPart (3, [1, 2]), SvidPart sample_fields]"

text \<open>C12: Decoding what the protobuf encoding writes returns the SVIDs of the message, in order: the
  last occurrence of a field wins, fields with other numbers are skipped, in any order of fields,
  in the response as in an SVID.\<close>

theorem svid_response_roundtrip:
  assumes "list_all part_ok ps" "length (encode_response ps) < 2 ^ 64"
  shows "decode_x509_svid_response (encode_response ps) = Inr (concat (map part_svids ps))"
  using response_loop_encoded[of 0 "encode_response ps" ps "[]" "[]"] assms
  by (simp add: decode_x509_svid_response_def response_loop.simps[of _ _ "length (encode_response ps)"])

theorem svid_response_roundtrip_witness:
  "decode_x509_svid_response (encode_response sample_parts) =
     Inr [\<lparr>spiffe_id = ''spiffe://example.org/kms'', x509_svid = [9], x509_svid_key = [], svid_bundle = [5], hint = []\<rparr>]"
proof -
  have "list_all part_ok sample_parts" "length (encode_response sample_parts) < 2 ^ 64" by code_simp+
  moreover have "concat (map part_svids sample_parts) =
     [\<lparr>spiffe_id = ''spiffe://example.org/kms'', x509_svid = [9], x509_svid_key = [], svid_bundle = [5], hint = []\<rparr>]"
    by code_simp
  ultimately show ?thesis using svid_response_roundtrip[of sample_parts] by simp
qed

text \<open>C13: Every SVID of a decoded response has a SPIFFE id and a hint in valid UTF-8, and none of its
  fields is longer than the response.\<close>

theorem decoded_svids_typed:
  assumes "decode_x509_svid_response data = Inr svids"
  shows "list_all (svid_typed (length data)) svids"
  using assms response_loop_typed[of data "[]" 0 svids]
  by (cases "response_loop data [] 0") (simp add: decode_x509_svid_response_def)

theorem decoded_svids_typed_witness:
  "list_all (svid_typed (length (encode_response sample_parts))) [svid_of sample_fields]"
proof -
  have "decode_x509_svid_response (encode_response sample_parts) = Inr [svid_of sample_fields]"
    by code_simp
  then show ?thesis by (rule decoded_svids_typed)
qed

text \<open>C21: A field length close to \<open>2 ^ 64\<close> makes the service panic: after any well-formed fields, a field
  whose length wraps around the address space passes the bounds check and the slice aborts.\<close>

theorem overflowing_length_panics:
  assumes "list_all part_ok ps" "k < 2 ^ 29" "n < 2 ^ 64"
    and "data = encode_response ps @ encode_varint (k * 8 + 2) @ encode_varint n @ rest" "length data < 2 ^ 63"
    and "2 ^ 64 \<le> length (encode_response ps @ encode_varint (k * 8 + 2) @ encode_varint n) + n"
  shows "decode_x509_svid_response data = Inl Panicked"
proof -
  define o0 where "o0 = length (encode_response ps)"
  define o1 where "o1 = o0 + length (encode_varint (k * 8 + 2))"
  define o2 where "o2 = o1 + length (encode_varint n)"
  have data: "drop o0 data = encode_varint (k * 8 + 2) @ encode_varint n @ rest"
    using assms(4) by (simp add: o0_def)
  have tag: "decode_varint data o0 = (Inr (word_of_nat (k * 8 + 2)), o1)"
    unfolding o1_def by (rule decode_varint_encoded[OF data]) (use assms(2) in simp)
  have "decode_varint data o1 = (Inr (word_of_nat n), o2)"
    unfolding o1_def o2_def by (rule decode_varint_encoded[OF drop_step[OF data] assms(3)])
  moreover have "2 ^ 64 \<le> o2 + unat (word_of_nat n :: u64)"
    using assms(6) unfolding unat_small[OF assms(3)] by (simp add: o0_def o1_def o2_def)
  ultimately have "decode_length_delimited data o1 = (Inl Panicked, o2)"
    using length_delimited_panics_iff[OF assms(5)] by blast
  then have "response_field data svids o0 = (Inl Panicked, o2)" for svids
    unfolding response_field_def bindE_def tag prod.case sum.case wire_type_tag[OF assms(2)] by simp
  moreover have "o0 < length data" using assms(4) encode_varint_Cons[of n] by (auto simp: o0_def)
  moreover have "response_loop data [] 0 = response_loop data (concat (map part_svids ps)) o0"
    using response_loop_encoded[of 0 data ps "encode_varint (k * 8 + 2) @ encode_varint n @ rest" "[]"] assms
    by (simp add: o0_def)
  ultimately show ?thesis
    by (simp add: decode_x509_svid_response_def response_loop.simps[of _ _ o0])
qed

theorem overflowing_length_panics_witness:
  "decode_x509_svid_response [10, 255, 255, 255, 255, 255, 255, 255, 255, 255, 1] = Inl Panicked"
proof -
  have "encode_varint (1 * 8 + 2) = [10]"
    "encode_varint (2 ^ 64 - 1) = [255, 255, 255, 255, 255, 255, 255, 255, 255, 1]"
    by (simp_all add: encode_varint.simps)
  from overflowing_length_panics[of "[]" 1 "2 ^ 64 - 1" _ "[]", unfolded this]
  show ?thesis by (simp add: encode_response_def)
qed

text \<open>The frames of a gRPC body are recovered exactly: encoding messages and parsing the
  concatenation returns them, and an incomplete header of fewer than five bytes after them is
  dropped without an error.\<close>

theorem grpc_frames_roundtrip:
  assumes "list_all (\<lambda>p. length p < 2 ^ 32) ps" "length rest < 5"
  shows "parse_grpc_frames (concat (map grpc_encode_message ps) @ rest) = Inr ps"
  using frames_loop_encoded[of 0 _ ps rest "[]"] assms by (simp add: parse_grpc_frames_def)

theorem grpc_frames_roundtrip_witness:
  "parse_grpc_frames [0, 0, 0, 0, 2, 7, 8, 0, 0, 0, 0, 0, 0, 0] = Inr [[7, 8], []]"
  using grpc_frames_roundtrip[of "[[7, 8], []]" "[0, 0]"]
  by (simp add: grpc_encode_message_def u32_to_be_bytes_def)

end
