(* ===== verification/Workload_Identity.thy ===== *)
theory Workload_Identity
  imports Workload_Codec
begin

text \<open>The SPIFFE identity of the service: the principals and authenticators of
  \<^verbatim>\<open>kms-service/src/domain/auth.rs\<close>, the identity provider of \<^verbatim>\<open>infrastructure/identity.rs\<close> on top of
  the Workload API client, and the mTLS configuration of \<^verbatim>\<open>server/http.rs\<close>.  X.509 and PEM
  parsing, path validation, base64 and the HTTP/2 exchange with the agent are the fields of a
  parameter record.\<close>

section \<open>Principals and authenticators\<close>

type_synonym attributes = "string \<rightharpoonup> string"

datatype AuthenticationMethod = Hmac | Spiffe | Mtls | Legacy | UnknownMethod

datatype PrincipalKind =
  ServiceKind | SpiffeKind | MtlsKind | OperatorKind | SystemKind | OtherKind

datatype Principal =
    ServicePrincipal string attributes
  | SpiffePrincipal string attributes
  | OperatorPrincipal string attributes
  | SystemPrincipal string attributes
  | UnknownPrincipal string attributes

definition principal_service :: "string \<Rightarrow> Principal" where
  "principal_service i = ServicePrincipal i Map.empty"

definition principal_spiffe :: "string \<Rightarrow> Principal" where
  "principal_spiffe uri = SpiffePrincipal uri Map.empty"

fun principal_as_str :: "Principal \<Rightarrow> string" where
  "principal_as_str (ServicePrincipal i _) = i"
| "principal_as_str (SpiffePrincipal uri _) = uri"
| "principal_as_str (OperatorPrincipal i _) = i"
| "principal_as_str (SystemPrincipal i _) = i"
| "principal_as_str (UnknownPrincipal i _) = i"

fun principal_kind :: "Principal \<Rightarrow> PrincipalKind" where
  "principal_kind (ServicePrincipal _ _) = ServiceKind"
| "principal_kind (SpiffePrincipal _ _) = SpiffeKind"
| "principal_kind (OperatorPrincipal _ _) = OperatorKind"
| "principal_kind (SystemPrincipal _ _) = SystemKind"
| "principal_kind (UnknownPrincipal _ _) = OtherKind"

record AuthenticationContext =
  ctx_principal :: Principal
  authentication_method :: AuthenticationMethod
  ctx_metadata :: attributes
  ctx_request_id :: "string option"
  ctx_session_id :: "string option"

definition hmac_authenticate :: "string \<Rightarrow> attributes \<Rightarrow> AuthError + AuthenticationContext" where
  "hmac_authenticate subject metadata =
     Inr \<lparr>ctx_principal = principal_service subject, authentication_method = Hmac, ctx_metadata = metadata,
          ctx_request_id = metadata ''request_id'', ctx_session_id = metadata ''session_id''\<rparr>"

definition spiffe_authenticate :: "string \<Rightarrow> attributes \<Rightarrow> AuthError + AuthenticationContext" where
  "spiffe_authenticate subject metadata =
     (if trim subject = [] then Inl (Failed ''empty SPIFFE subject'')
      else Inr \<lparr>ctx_principal = principal_spiffe subject, authentication_method = Spiffe,
                ctx_metadata = metadata(''identity_source'' \<mapsto> ''spiffe''),
                ctx_request_id = metadata ''request_id'', ctx_session_id = metadata ''session_id''\<rparr>)"

definition mtls_authenticate :: "string \<Rightarrow> attributes \<Rightarrow> AuthError + AuthenticationContext" where
  "mtls_authenticate subject metadata =
     (if trim subject = [] then Inl (UntrustedIdentity ''empty mTLS peer identity'')
      else Inr \<lparr>ctx_principal = principal_spiffe subject, authentication_method = Mtls, ctx_metadata = metadata,
                ctx_request_id = metadata ''request_id'', ctx_session_id = metadata ''session_id''\<rparr>)"

record TlsIdentity =
  certificate_path :: "string option"
  key_path :: "string option"
  trust_bundle_path :: "string option"
  tls_workload_id :: "string option"
  tls_spiffe_id :: "string option"

record TlsIdentitySnapshot =
  certificate_chain_pem :: bytes
  private_key :: bytes
  trust_bundle_pem :: bytes
  snapshot_spiffe_id :: string
  not_before :: int
  not_after :: int
  generation :: nat

datatype SpiffeIdentityMode = Authoritative | FileFallback

record WorkloadIdentityConfig =
  identity_enabled :: bool
  trust_domain :: "string option"
  workload_id :: "string option"
  spire_agent_socket_path :: "string option"
  tls_identity :: TlsIdentity
  rotation_interval_secs :: nat
  identity_mode :: SpiffeIdentityMode

section \<open>The code the provider calls\<close>

record EndEntity =
  ee_der :: bytes
  ee_uri_names :: "string list"
  ee_spki :: bytes

record AgentReply =
  reply_status :: nat
  reply_status_text :: string
  grpc_status :: "string option"
  grpc_message :: "string option"
  reply_body :: "string + bytes"

record tls_env =
  agent_connect :: "string \<Rightarrow> string + unit"
  agent_handshake :: "string \<Rightarrow> string + unit"
  agent_send :: "string \<Rightarrow> bytes \<Rightarrow> string + AgentReply"
  base64_std :: "bytes \<Rightarrow> bytes"
  from_pem_slice :: "bytes \<Rightarrow> bytes option"
  pem_slice_iter :: "bytes \<Rightarrow> string + bytes list"
  end_entity :: "bytes \<Rightarrow> string + EndEntity"
  parse_anchor :: "bytes \<Rightarrow> bytes option"
  verify_for_usage :: "bytes list \<Rightarrow> EndEntity \<Rightarrow> nat \<Rightarrow> string + unit"
  spki_public_key :: "bytes \<Rightarrow> string + bytes option"
  private_key_info :: "bytes \<Rightarrow> string + bytes option"
  document_from_pem :: "string \<Rightarrow> string + bytes"
  read_file :: "string \<Rightarrow> string + bytes"
  private_key_from_pem :: "bytes \<Rightarrow> bytes option"
  client_verifier :: "bytes list \<Rightarrow> bool"
  with_single_cert :: "bytes list \<Rightarrow> bytes \<Rightarrow> bool"

section \<open>The Workload API client\<close>

fun chunks :: "nat \<Rightarrow> 'a list \<Rightarrow> 'a list list" where
  "chunks n xs = (if xs = [] \<or> n = 0 then [] else take n xs # chunks n (drop n xs))"

declare chunks.simps [simp del]

definition der_to_pem :: "tls_env \<Rightarrow> bytes \<Rightarrow> string \<Rightarrow> bytes" where
  "der_to_pem env der label =
     as_bytes (''-----BEGIN '' @ label @ ''-----'' @ [CHR 0x0A])
     @ concat (map (\<lambda>c. c @ [10]) (chunks 64 (base64_std env der)))
     @ as_bytes (''-----END '' @ label @ ''-----'' @ [CHR 0x0A])"

text \<open>\<^verbatim>\<open>fetch_x509_svid_response\<close>: the request is an empty message in a frame; the first non-empty
  frame of the reply is decoded.\<close>

fun invalid_response :: "fault \<Rightarrow> fault" where
  "invalid_response (Rejected e) =
     Rejected (Failed (''invalid SPIRE Workload API X509SVID response: '' @ auth_error_display e))"
| "invalid_response Panicked = Panicked"

definition reply_message :: "AgentReply \<Rightarrow> AuthError + bytes" where
  "reply_message r =
     (if reply_status r \<noteq> 200
      then Inl (Failed (''SPIRE Workload API rejected FetchX509SVID with HTTP status '' @ reply_status_text r))
      else
        let status = (case grpc_status r of None \<Rightarrow> ''0'' | Some v \<Rightarrow> v) in
        if status \<noteq> ''0''
        then Inl (Failed (''SPIRE Workload API returned gRPC status '' @ [CHR 0x27] @ status @ [CHR 0x27] @ '': ''
               @ (case grpc_message r of None \<Rightarrow> ''unknown gRPC SPIRE error'' | Some m \<Rightarrow> m)))
        else bindR (map_err (\<lambda>e. Failed (''failed to read SPIRE Workload API response body: '' @ e)) (reply_body r)) (\<lambda>chunks.
             bindR (parse_grpc_frames chunks) (\<lambda>frames.
             ok_or (UntrustedIdentity ''SPIRE Workload API returned an empty X.509 SVID stream'')
               (find (\<lambda>frame. frame \<noteq> []) frames))))"

definition fetch_x509_svid_response :: "tls_env \<Rightarrow> string \<Rightarrow> fault + X509SVID list" where
  "fetch_x509_svid_response env socket_path =
     bindR (map_err (\<lambda>e. Rejected (MissingMetadata
              (''failed to connect to SPIRE agent socket '' @ [CHR 0x27] @ socket_path @ [CHR 0x27] @ '': '' @ e)))
            (agent_connect env socket_path)) (\<lambda>_.
     bindR (map_err (\<lambda>e. Rejected (Failed
              (''failed to establish HTTP/2 connection to SPIRE Workload API: '' @ e)))
            (agent_handshake env socket_path)) (\<lambda>_.
     bindR (map_err (\<lambda>e. Rejected (Failed (''failed to send SPIRE gRPC FetchX509SVID request: '' @ e)))
            (agent_send env socket_path (grpc_encode_message []))) (\<lambda>reply.
     bindR (map_err Rejected (reply_message reply)) (\<lambda>message.
     map_err invalid_response (decode_x509_svid_response message)))))"

definition fetch_workload_svid :: "tls_env \<Rightarrow> string \<Rightarrow> fault + bytes" where
  "fetch_workload_svid env socket_path =
     bindR (fetch_x509_svid_response env socket_path) (\<lambda>svids.
     bindR (ok_or (Rejected (UntrustedIdentity
              ''SPIRE Workload API returned no X.509 SVID records for the workload''))
            (find (\<lambda>s. spiffe_id s \<noteq> []) svids)) (\<lambda>svid.
     Inr (der_to_pem env (x509_svid svid) ''CERTIFICATE'')))"

definition fetch_trust_bundle :: "tls_env \<Rightarrow> string \<Rightarrow> fault + bytes" where
  "fetch_trust_bundle env socket_path =
     bindR (fetch_x509_svid_response env socket_path) (\<lambda>svids.
     bindR (ok_or (Rejected (UntrustedIdentity
              ''SPIRE Workload API returned no trust bundle for the workload''))
            (find (\<lambda>s. spiffe_id s \<noteq> []) svids)) (\<lambda>svid.
     if svid_bundle svid = []
     then Inl (Rejected (UntrustedIdentity
            ''SPIRE Workload API returned an empty trust bundle; fail closed''))
     else Inr (der_to_pem env (svid_bundle svid) ''CERTIFICATE'')))"

section \<open>Certificates and keys\<close>

definition trim_start_char :: "char \<Rightarrow> string \<Rightarrow> string" where
  "trim_start_char c s = dropWhile (\<lambda>x. x = c) s"

definition trim_end_char :: "char \<Rightarrow> string \<Rightarrow> string" where
  "trim_end_char c s = rev (dropWhile (\<lambda>x. x = c) (rev s))"

definition normalize_workload_id :: "string \<Rightarrow> string" where
  "normalize_workload_id v =
     (let trimmed = trim v;
          without_scheme = (case strip_prefix ''spiffe://'' trimmed of None \<Rightarrow> trimmed | Some r \<Rightarrow> r);
          normalized = trim_start_char (CHR ''/'') without_scheme
      in if normalized = [] then ''/'' else ''/'' @ trim_end_char (CHR ''/'') normalized)"

definition parse_leaf_certificate :: "tls_env \<Rightarrow> bytes \<Rightarrow> AuthError + bytes" where
  "parse_leaf_certificate env cert_bytes =
     (let cert = (case from_pem_slice env cert_bytes of Some c \<Rightarrow> c | None \<Rightarrow> cert_bytes)
      in if cert = []
         then Inl (UntrustedIdentity ''certificate payload is empty: mTLS verification must fail closed'')
         else Inr cert)"

text \<open>\<^verbatim>\<open>add_parsable_certificates\<close> skips what is not a trust anchor.\<close>

definition load_trust_anchors :: "tls_env \<Rightarrow> bytes \<Rightarrow> AuthError + bytes list" where
  "load_trust_anchors env trust_bundle =
     bindR (map_err (\<lambda>e. UntrustedIdentity (''invalid trust bundle PEM: '' @ e)) (pem_slice_iter env trust_bundle)) (\<lambda>certs.
     if certs = [] then Inl (UntrustedIdentity ''trust bundle is empty; mTLS verification must fail closed'')
     else Inr (List.map_filter (parse_anchor env) certs))"

definition extract_spiffe_uri_from_cert :: "tls_env \<Rightarrow> bytes \<Rightarrow> AuthError + string" where
  "extract_spiffe_uri_from_cert env cert_bytes =
     bindR (parse_leaf_certificate env cert_bytes) (\<lambda>cert_der.
     bindR (map_err (\<lambda>e. UntrustedIdentity (''invalid X.509 certificate: '' @ e)) (end_entity env cert_der)) (\<lambda>ee.
     ok_or (UntrustedIdentity ''SPIFFE certificate does not contain a valid spiffe:// URI SAN'')
       (find (\<lambda>uri. starts_with uri ''spiffe://'') (ee_uri_names ee))))"

definition expected_spiffe_uri :: "WorkloadIdentityConfig \<Rightarrow> AuthError + string" where
  "expected_spiffe_uri config =
     bindR (ok_or (MissingMetadata ''SPIFFE trust domain is not configured'') (trust_domain config)) (\<lambda>td.
     bindR (ok_or (MissingMetadata ''SPIFFE workload ID is not configured'') (workload_id config)) (\<lambda>wid.
     let normalized = normalize_workload_id wid
     in if normalized = ''/'' then Inr (''spiffe://'' @ td) else Inr (''spiffe://'' @ td @ normalized)))"

definition validate_spiffe_identity :: "tls_env \<Rightarrow> WorkloadIdentityConfig \<Rightarrow> bytes \<Rightarrow> AuthError + Principal" where
  "validate_spiffe_identity env config cert_bytes =
     (if \<not> identity_enabled config
      then Inl (UntrustedIdentity ''SPIFFE workload identity verification is disabled'')
      else
        bindR (extract_spiffe_uri_from_cert env cert_bytes) (\<lambda>uri.
        bindR (expected_spiffe_uri config) (\<lambda>expected.
        if uri \<noteq> expected
        then Inl (UntrustedIdentity (''SPIFFE identity mismatch: expected '' @ [CHR 0x27] @ expected @ [CHR 0x27]
               @ '' but certificate identified '' @ [CHR 0x27] @ uri @ [CHR 0x27]))
        else Inr (principal_spiffe uri))))"

definition validate_certificate_chain :: "tls_env \<Rightarrow> nat \<Rightarrow> bytes \<Rightarrow> bytes \<Rightarrow> AuthError + unit" where
  "validate_certificate_chain env clock cert trust_bundle =
     bindR (parse_leaf_certificate env cert) (\<lambda>leaf_cert.
     bindR (load_trust_anchors env trust_bundle) (\<lambda>trust_anchors.
     if trust_anchors = []
     then Inl (UntrustedIdentity ''trust bundle is empty; mTLS verification must fail closed'')
     else
       bindR (map_err (\<lambda>e. UntrustedIdentity (''invalid leaf certificate: '' @ e)) (end_entity env leaf_cert)) (\<lambda>leaf.
       map_err (\<lambda>e. UntrustedIdentity (''certificate chain validation failed: '' @ e))
         (verify_for_usage env trust_anchors leaf clock))))"

definition missing_public_key :: AuthError where
  "missing_public_key =
     UntrustedIdentity ''private key is missing its embedded public key; reject identity snapshot''"

definition pkcs8_public_key_from_private_key :: "tls_env \<Rightarrow> bytes \<Rightarrow> AuthError + bytes" where
  "pkcs8_public_key_from_private_key env key_bytes =
     (case private_key_info env key_bytes of
        Inr public_key \<Rightarrow> ok_or missing_public_key public_key
      | Inl _ \<Rightarrow>
        bindR (case utf8_fault 0 key_bytes of
                 Some e \<Rightarrow> Inl (UntrustedIdentity (''invalid private key payload: '' @ utf8_error_display e))
               | None \<Rightarrow> Inr (from_bytes key_bytes)) (\<lambda>pem.
        bindR (map_err (\<lambda>e. UntrustedIdentity (''invalid private key for certificate validation: '' @ e))
               (document_from_pem env pem)) (\<lambda>document.
        bindR (map_err (\<lambda>e. UntrustedIdentity (''invalid PKCS#8 private key for certificate validation: '' @ e))
               (private_key_info env document)) (\<lambda>public_key.
        ok_or missing_public_key public_key))))"

definition validate_private_key_matches_cert :: "tls_env \<Rightarrow> bytes \<Rightarrow> bytes \<Rightarrow> AuthError + unit" where
  "validate_private_key_matches_cert env cert key_bytes =
     bindR (parse_leaf_certificate env cert) (\<lambda>cert_der.
     bindR (map_err (\<lambda>e. UntrustedIdentity (''invalid certificate for private-key validation: '' @ e))
            (end_entity env cert_der)) (\<lambda>ee.
     bindR (map_err (\<lambda>e. UntrustedIdentity (''failed to decode certificate public key info: '' @ e))
            (spki_public_key env (ee_spki ee))) (\<lambda>cert_public.
     bindR (ok_or (UntrustedIdentity ''certificate public key is malformed; reject identity snapshot'') cert_public) (\<lambda>cert_public_bytes.
     bindR (pkcs8_public_key_from_private_key env key_bytes) (\<lambda>private_public.
     if cert_public_bytes = private_public then Inr ()
     else Inl (UntrustedIdentity ''certificate and private key do not match; reject identity snapshot''))))))"

section \<open>The provider\<close>

definition load_pem_from_file :: "tls_env \<Rightarrow> string \<Rightarrow> AuthError + bytes" where
  "load_pem_from_file env path =
     map_err (\<lambda>e. MissingMetadata (''failed to read certificate file: '' @ e)) (read_file env path)"

definition current_runtime_identity :: "tls_env \<Rightarrow> WorkloadIdentityConfig \<Rightarrow> fault + Principal" where
  "current_runtime_identity env config =
     bindR (ok_or (Rejected (MissingMetadata ''SPIRE agent socket path is not configured for workload identity''))
            (spire_agent_socket_path config)) (\<lambda>socket_path.
     bindR (fetch_workload_svid env socket_path) (\<lambda>certs.
     map_err Rejected (validate_spiffe_identity env config certs)))"

definition current_principal :: "tls_env \<Rightarrow> WorkloadIdentityConfig \<Rightarrow> AuthError + Principal" where
  "current_principal env config =
     bindR (ok_or (MissingMetadata ''TLS certificate path is not configured'')
            (certificate_path (tls_identity config))) (\<lambda>cert_path.
     bindR (load_pem_from_file env cert_path) (\<lambda>pem.
     validate_spiffe_identity env config pem))"

text \<open>\<^verbatim>\<open>fetch_identity\<close> on Unix; the clock is read at each of the two chain validations and for the
  snapshot.\<close>

record clocks =
  clock_first :: nat
  clock_second :: nat
  clock_snapshot :: nat

definition matching_svid :: "string \<Rightarrow> X509SVID list \<Rightarrow> AuthError + X509SVID" where
  "matching_svid expected svids =
     (let exact_match = filter (\<lambda>svid. spiffe_id svid = expected) svids
      in if length exact_match \<noteq> 1
         then Inl (UntrustedIdentity (''authoritative SPIRE identity mismatch: expected exactly one SVID for ''
                @ [CHR 0x27] @ expected @ [CHR 0x27] @ '' but found '' @ dec (length exact_match)))
         else Inr (hd exact_match))"

definition checked_svid :: "tls_env \<Rightarrow> nat \<Rightarrow> string \<Rightarrow> X509SVID \<Rightarrow> AuthError + (bytes \<times> bytes \<times> bytes \<times> string)" where
  "checked_svid env clock expected svid =
     (let cert = der_to_pem env (x509_svid svid) ''CERTIFICATE'';
          trust = der_to_pem env (svid_bundle svid) ''CERTIFICATE'';
          key_bytes = x509_svid_key svid
      in bindR (validate_private_key_matches_cert env cert key_bytes) (\<lambda>_.
         bindR (validate_certificate_chain env clock cert trust) (\<lambda>_.
         bindR (extract_spiffe_uri_from_cert env cert) (\<lambda>uri.
         if uri \<noteq> expected
         then Inl (UntrustedIdentity (''authoritative SPIRE SVID mismatch: expected '' @ [CHR 0x27] @ expected
                @ [CHR 0x27] @ '' but got '' @ [CHR 0x27] @ uri @ [CHR 0x27]))
         else Inr (cert, trust, key_bytes, uri)))))"

definition snapshot_of :: "nat \<Rightarrow> bytes \<Rightarrow> bytes \<Rightarrow> bytes \<Rightarrow> string \<Rightarrow> TlsIdentitySnapshot" where
  "snapshot_of clock cert trust key_bytes uri =
     \<lparr>certificate_chain_pem = cert, private_key = key_bytes, trust_bundle_pem = trust,
      snapshot_spiffe_id = uri, not_before = int clock - 60, not_after = int clock + 86400,
      generation = clock\<rparr>"

definition fetch_identity :: "tls_env \<Rightarrow> WorkloadIdentityConfig \<Rightarrow> clocks \<Rightarrow> fault + TlsIdentitySnapshot" where
  "fetch_identity env config ck =
     bindR (map_err Rejected (expected_spiffe_uri config)) (\<lambda>expected.
     bindR (ok_or (Rejected (MissingMetadata
              ''SPIRE agent socket path is not configured for authoritative identity''))
            (spire_agent_socket_path config)) (\<lambda>socket_path.
     bindR (fetch_x509_svid_response env socket_path) (\<lambda>svids.
     bindR (map_err Rejected (matching_svid expected svids)) (\<lambda>svid.
     bindR (map_err Rejected (checked_svid env (clock_first ck) expected svid)) (\<lambda>(cert, trust, key_bytes, uri).
     bindR (map_err Rejected (validate_certificate_chain env (clock_second ck) cert trust)) (\<lambda>_.
     bindR (map_err Rejected (validate_private_key_matches_cert env cert key_bytes)) (\<lambda>_.
     Inr (snapshot_of (clock_snapshot ck) cert trust key_bytes uri))))))))"

section \<open>The mTLS server\<close>

datatype startup_fault = Anyhow string | StartupPanicked

fun startup_fault_of :: "fault \<Rightarrow> startup_fault" where
  "startup_fault_of (Rejected e) = Anyhow (auth_error_display e)"
| "startup_fault_of Panicked = StartupPanicked"

record SpiffeConfig =
  set_enabled :: bool
  set_trust_domain :: "string option"
  set_workload_id :: "string option"
  set_agent_socket_path :: "string option"
  set_rotation_interval_secs :: "nat option"
  set_identity_mode :: SpiffeIdentityMode
  set_tls_cert_path :: "string option"
  set_tls_key_path :: "string option"
  set_trust_bundle_path :: "string option"

definition spiffe_provider_from_settings :: "SpiffeConfig \<Rightarrow> WorkloadIdentityConfig" where
  "spiffe_provider_from_settings s =
     \<lparr>identity_enabled = True, trust_domain = set_trust_domain s, workload_id = set_workload_id s,
      spire_agent_socket_path = set_agent_socket_path s,
      tls_identity = \<lparr>certificate_path = None, key_path = None, trust_bundle_path = None,
                      tls_workload_id = None, tls_spiffe_id = None\<rparr>,
      rotation_interval_secs = (case set_rotation_interval_secs s of None \<Rightarrow> 300 | Some n \<Rightarrow> n),
      identity_mode = set_identity_mode s\<rparr>"

definition identity_from_agent ::
  "tls_env \<Rightarrow> WorkloadIdentityConfig \<Rightarrow> clocks \<Rightarrow> startup_fault + (bytes \<times> bytes \<times> bytes)" where
  "identity_from_agent env config ck =
     bindR (map_err startup_fault_of (fetch_identity env config ck)) (\<lambda>snapshot.
     Inr (certificate_chain_pem snapshot, private_key snapshot, trust_bundle_pem snapshot))"

definition tls_material ::
  "tls_env \<Rightarrow> SpiffeConfig \<Rightarrow> WorkloadIdentityConfig \<Rightarrow> clocks \<Rightarrow> startup_fault + (bytes \<times> bytes \<times> bytes)" where
  "tls_material env s config ck =
     (case (set_tls_cert_path s, set_tls_key_path s, set_trust_bundle_path s) of
        (Some cert_file, Some key_file, Some bundle_file) \<Rightarrow>
          (case (read_file env cert_file, read_file env key_file, read_file env bundle_file) of
             (Inr cp, Inr kp, Inr bp) \<Rightarrow> Inr (cp, kp, bp)
           | _ \<Rightarrow> identity_from_agent env config ck)
      | _ \<Rightarrow> identity_from_agent env config ck)"

record ServerConfig =
  server_chain :: "bytes list"
  server_key :: bytes
  client_roots :: "bytes list"

definition build_mtls_server_config ::
  "tls_env \<Rightarrow> SpiffeConfig \<Rightarrow> WorkloadIdentityConfig \<Rightarrow> clocks \<Rightarrow> startup_fault + ServerConfig" where
  "build_mtls_server_config env s config ck =
     bindR (tls_material env s config ck) (\<lambda>(cert, key, trust).
     bindR (map_err (\<lambda>_. Anyhow ''invalid server certificate PEM from workload snapshot or file'')
            (pem_slice_iter env cert)) (\<lambda>cert_chain.
     bindR (ok_or (Anyhow ''invalid private key PEM from workload snapshot or file'')
            (private_key_from_pem env key)) (\<lambda>private_key.
     bindR (map_err (\<lambda>_. Anyhow ''invalid client trust bundle PEM from workload snapshot or file'')
            (pem_slice_iter env trust)) (\<lambda>client_anchors.
     let roots = List.map_filter (parse_anchor env) client_anchors in
     if \<not> client_verifier env roots
     then Inl (Anyhow ''invalid mTLS client certificate verifier configuration'')
     else if \<not> with_single_cert env cert_chain private_key
     then Inl (Anyhow ''failed to configure rustls server certificate and mTLS verifier'')
     else Inr \<lparr>server_chain = cert_chain, server_key = private_key, client_roots = roots\<rparr>))))"

definition peer_principal_from_tls ::
  "tls_env \<Rightarrow> WorkloadIdentityConfig \<Rightarrow> bytes list option \<Rightarrow> startup_fault + Principal" where
  "peer_principal_from_tls env config peer_certificates =
     (case peer_certificates of
        Some (cert # _) \<Rightarrow>
          map_err (\<lambda>_. Anyhow ''mTLS client certificate is not a valid SPIFFE identity for this service'')
            (validate_spiffe_identity env config cert)
      | _ \<Rightarrow> Inl (Anyhow ''mTLS peer did not present a client certificate''))"

section \<open>What the checks establish\<close>

text \<open>Documented behaviour of the PEM and trust-store code: a PEM block written by the service is read
  back, and text without a PEM header holds no private key.\<close>

definition pem_laws :: "tls_env \<Rightarrow> bool" where
  "pem_laws env \<longleftrightarrow>
     (\<forall>der. from_pem_slice env (der_to_pem env der ''CERTIFICATE'') = Some der) \<and>
     (\<forall>der. pem_slice_iter env (der_to_pem env der ''CERTIFICATE'') = Inr [der]) \<and>
     (\<forall>b. \<not> contains_sub b (as_bytes ''-----BEGIN'') \<longrightarrow> private_key_from_pem env b = None)"

text \<open>The leaf is the certificate the agent delivered, its key is the public half of the private key,
  it verifies under the bundle, and it names the workload.\<close>

definition key_matches :: "tls_env \<Rightarrow> EndEntity \<Rightarrow> bytes \<Rightarrow> bool" where
  "key_matches env ee key_bytes \<longleftrightarrow>
     (\<exists>pub. spki_public_key env (ee_spki ee) = Inr (Some pub) \<and>
            pkcs8_public_key_from_private_key env key_bytes = Inr pub)"

definition chain_verified :: "tls_env \<Rightarrow> nat \<Rightarrow> EndEntity \<Rightarrow> bytes \<Rightarrow> bool" where
  "chain_verified env clock ee trust \<longleftrightarrow>
     (\<exists>anchor. parse_anchor env trust = Some anchor \<and> verify_for_usage env [anchor] ee clock = Inr ())"

definition names_workload :: "EndEntity \<Rightarrow> string \<Rightarrow> bool" where
  "names_workload ee uri \<longleftrightarrow> find (\<lambda>u. starts_with u ''spiffe://'') (ee_uri_names ee) = Some uri"

lemma parse_leaf_pem:
  "pem_laws env \<Longrightarrow> parse_leaf_certificate env (der_to_pem env der ''CERTIFICATE'') = Inr c \<longleftrightarrow> c = der \<and> der \<noteq> []"
  by (auto simp: pem_laws_def parse_leaf_certificate_def)

lemma validate_chain_iff:
  assumes "pem_laws env"
  shows "validate_certificate_chain env clock (der_to_pem env der ''CERTIFICATE'') (der_to_pem env trust ''CERTIFICATE'') = Inr () \<longleftrightarrow>
    der \<noteq> [] \<and> (\<exists>ee. end_entity env der = Inr ee \<and> chain_verified env clock ee trust)"
proof -
  have anchors: "load_trust_anchors env (der_to_pem env trust ''CERTIFICATE'') =
      Inr (case parse_anchor env trust of None \<Rightarrow> [] | Some a \<Rightarrow> [a])"
    using assms by (auto simp: load_trust_anchors_def pem_laws_def bindR_def map_err_def List.map_filter_def split: option.splits)
  show ?thesis
    by (auto simp: validate_certificate_chain_def bindR_eq_Inr_iff parse_leaf_pem[OF assms] anchors
        chain_verified_def split: option.splits)
qed

lemma validate_key_iff:
  assumes "pem_laws env"
  shows "validate_private_key_matches_cert env (der_to_pem env der ''CERTIFICATE'') key_bytes = Inr () \<longleftrightarrow>
    der \<noteq> [] \<and> (\<exists>ee. end_entity env der = Inr ee \<and> key_matches env ee key_bytes)"
  by (auto simp: validate_private_key_matches_cert_def bindR_eq_Inr_iff parse_leaf_pem[OF assms]
      key_matches_def split: if_splits)

lemma extract_uri_iff:
  assumes "pem_laws env"
  shows "extract_spiffe_uri_from_cert env (der_to_pem env der ''CERTIFICATE'') = Inr uri \<longleftrightarrow>
    der \<noteq> [] \<and> (\<exists>ee. end_entity env der = Inr ee \<and> names_workload ee uri)"
  by (auto simp: extract_spiffe_uri_from_cert_def bindR_eq_Inr_iff parse_leaf_pem[OF assms]
      names_workload_def)

definition svid_trusted :: "tls_env \<Rightarrow> clocks \<Rightarrow> string \<Rightarrow> X509SVID \<Rightarrow> bool" where
  "svid_trusted env ck uri svid \<longleftrightarrow>
     x509_svid svid \<noteq> [] \<and>
     (\<exists>ee. end_entity env (x509_svid svid) = Inr ee \<and> key_matches env ee (x509_svid_key svid) \<and>
           chain_verified env (clock_first ck) ee (svid_bundle svid) \<and>
           chain_verified env (clock_second ck) ee (svid_bundle svid) \<and> names_workload ee uri)"

definition svid_snapshot :: "tls_env \<Rightarrow> clocks \<Rightarrow> string \<Rightarrow> X509SVID \<Rightarrow> TlsIdentitySnapshot" where
  "svid_snapshot env ck uri svid =
     snapshot_of (clock_snapshot ck) (der_to_pem env (x509_svid svid) ''CERTIFICATE'')
       (der_to_pem env (svid_bundle svid) ''CERTIFICATE'') (x509_svid_key svid) uri"

lemma matching_svid_iff:
  "matching_svid expected svids = Inr svid \<longleftrightarrow> filter (\<lambda>s. spiffe_id s = expected) svids = [svid]"
  by (auto simp: matching_svid_def Let_def length_Suc_conv split: if_splits)

lemma checked_svid_iff:
  assumes "pem_laws env"
  shows "checked_svid env clock expected svid = Inr (cert, trust, key, uri) \<longleftrightarrow>
    cert = der_to_pem env (x509_svid svid) ''CERTIFICATE'' \<and> trust = der_to_pem env (svid_bundle svid) ''CERTIFICATE'' \<and>
    key = x509_svid_key svid \<and> uri = expected \<and> x509_svid svid \<noteq> [] \<and>
    (\<exists>ee. end_entity env (x509_svid svid) = Inr ee \<and> key_matches env ee (x509_svid_key svid) \<and>
      chain_verified env clock ee (svid_bundle svid) \<and> names_workload ee expected)"
  by (auto simp: checked_svid_def Let_def bindR_eq_Inr_iff validate_chain_iff[OF assms] validate_key_iff[OF assms]
      extract_uri_iff[OF assms] split: if_splits)

lemma fetch_identity_iff:
  assumes "pem_laws env"
  shows "fetch_identity env config ck = Inr snap \<longleftrightarrow>
    (\<exists>uri socket svids svid. expected_spiffe_uri config = Inr uri \<and> spire_agent_socket_path config = Some socket \<and>
       fetch_x509_svid_response env socket = Inr svids \<and> filter (\<lambda>s. spiffe_id s = uri) svids = [svid] \<and>
       svid_trusted env ck uri svid \<and> snap = svid_snapshot env ck uri svid)"
  by (auto simp: fetch_identity_def bindR_eq_Inr_iff matching_svid_iff
      checked_svid_iff[OF assms] validate_chain_iff[OF assms] validate_key_iff[OF assms]
      svid_trusted_def svid_snapshot_def)

lemma fetch_response_encoded:
  assumes "agent_connect env socket = Inr ()" "agent_handshake env socket = Inr ()"
    and "agent_send env socket (grpc_encode_message []) = Inr reply" "reply_status reply = 200"
    and "grpc_status reply \<in> {None, Some ''0''}"
    and "reply_body reply = Inr (grpc_encode_message (encode_response ps) @ rest)" "length rest < 5"
    and "list_all part_ok ps" "ps \<noteq> []" "length (encode_response ps) < 2 ^ 32"
  shows "fetch_x509_svid_response env socket = Inr (concat (map part_svids ps))"
proof -
  have "encode_response ps \<noteq> []"
  proof (cases ps)
    case (Cons p qs)
    obtain f where "encode_part p = encode_field f" by (cases p) auto
    then show ?thesis using encode_field_nonempty[of f] Cons by (simp add: encode_response_def)
  qed (use assms in simp)
  moreover have "frames_loop (grpc_encode_message (encode_response ps) @ rest) [] 0 = Inr [encode_response ps]"
    using frames_loop_encoded[of 0 _ "[encode_response ps]" rest "[]"] assms(7,10) by simp
  ultimately have "reply_message reply = Inr (encode_response ps)"
    using assms(4,5,6) by (auto simp: reply_message_def parse_grpc_frames_def)
  moreover have "decode_x509_svid_response (encode_response ps) = Inr (concat (map part_svids ps))"
    using response_loop_encoded[of 0 "encode_response ps" ps "[]" "[]"] assms(8,10)
    by (simp add: decode_x509_svid_response_def response_loop.simps[of _ _ "length (encode_response ps)"])
  ultimately show ?thesis using assms(1-3) by (simp add: fetch_x509_svid_response_def)
qed

section \<open>A sample agent\<close>

fun unchunk :: "'a list \<Rightarrow> 'a list" where
  "unchunk xs = (if length xs \<le> 65 then butlast xs else take 64 xs @ unchunk (drop 65 xs))"

declare unchunk.simps [simp del]

definition unpem :: "bytes \<Rightarrow> bytes" where
  "unpem b = unchunk (drop 28 (take (length b - 26) b))"

lemma unchunk_chunks: "unchunk (concat (map (\<lambda>c. c @ [x]) (chunks 64 b))) = b"
proof (induction "64 :: nat" b rule: chunks.induct)
  case (1 b)
  show ?case
  proof (cases "length b \<le> 64")
    case True
    then show ?thesis by (cases "b = []") (simp_all add: chunks.simps[of 64 b] chunks.simps[of 64 "[]"] unchunk.simps)
  next
    case False
    define tl where "tl = concat (map (\<lambda>c. c @ [x]) (chunks 64 (drop 64 b)))"
    have "tl \<noteq> []" using False by (simp add: tl_def chunks.simps[of 64 "drop 64 b"])
    moreover have "concat (map (\<lambda>c. c @ [x]) (chunks 64 b)) = take 64 b @ x # tl"
      using False by (auto simp: tl_def chunks.simps[of 64 b])
    moreover have "b \<noteq> []" using False by auto
    then have "unchunk tl = drop 64 b" using 1 by (simp add: tl_def)
    ultimately show ?thesis using False
      by (subst unchunk.simps) (simp add: Suc_le_eq)
  qed
qed

definition sample_reply :: AgentReply where
  "sample_reply =
     \<lparr>reply_status = 200, reply_status_text = ''200 OK'', grpc_status = None, grpc_message = None,
      reply_body = Inr (grpc_encode_message (encode_response
        [SvidPart [(1, as_bytes ''spiffe://example.org/kms''), (2, [48, 3]), (3, [1]), (4, [48, 4])]]) @ [])\<rparr>"

definition sample_tls :: tls_env where
  "sample_tls =
     \<lparr>agent_connect = \<lambda>_. Inr (), agent_handshake = \<lambda>_. Inr (), agent_send = \<lambda>_ _. Inr sample_reply,
      base64_std = \<lambda>b. b, from_pem_slice = \<lambda>b. if length b < 54 then None else Some (unpem b),
      pem_slice_iter = \<lambda>b. Inr [unpem b],
      end_entity = \<lambda>d. Inr \<lparr>ee_der = d, ee_uri_names = [''dns'', ''spiffe://example.org/kms''], ee_spki = [1]\<rparr>,
      parse_anchor = Some, verify_for_usage = \<lambda>_ _ _. Inr (), spki_public_key = \<lambda>b. Inr (Some b),
      private_key_info = \<lambda>b. Inr (Some b), document_from_pem = \<lambda>s. Inr (as_bytes s),
      read_file = \<lambda>_. Inl ''not found'',
      private_key_from_pem = \<lambda>b. if contains_sub b (as_bytes ''-----BEGIN'') then Some b else None,
      client_verifier = \<lambda>r. r \<noteq> [], with_single_cert = \<lambda>_ _. True\<rparr>"

definition sample_settings :: SpiffeConfig where
  "sample_settings =
     \<lparr>set_enabled = True, set_trust_domain = Some ''example.org'', set_workload_id = Some ''kms'', set_agent_socket_path = Some ''agent'',
      set_rotation_interval_secs = None, set_identity_mode = Authoritative,
      set_tls_cert_path = None, set_tls_key_path = None, set_trust_bundle_path = None\<rparr>"

definition sample_clocks :: clocks where
  "sample_clocks = \<lparr>clock_first = 100, clock_second = 101, clock_snapshot = 102\<rparr>"

definition sample_svid :: X509SVID where
  "sample_svid =
     \<lparr>spiffe_id = ''spiffe://example.org/kms'', x509_svid = [48, 3], x509_svid_key = [1], svid_bundle = [48, 4], hint = []\<rparr>"

lemma sample_pem_roundtrip: "unpem (der_to_pem sample_tls der ''CERTIFICATE'') = der"
  by (simp add: der_to_pem_def unpem_def sample_tls_def as_bytes_def unchunk_chunks)

lemma sample_pem_laws: "pem_laws sample_tls"
proof -
  have "54 \<le> length (der_to_pem sample_tls der ''CERTIFICATE'')" for der
    by (simp add: der_to_pem_def as_bytes_def)
  then show ?thesis using sample_pem_roundtrip
    by (simp add: pem_laws_def) (simp add: sample_tls_def not_less[symmetric])
qed

lemma sample_expected: "expected_spiffe_uri (spiffe_provider_from_settings sample_settings) = Inr ''spiffe://example.org/kms''"
  by code_simp

section \<open>Properties\<close>

text \<open>C8: When the agent answers with a framed protobuf response, the service obtains an identity
  exactly if one SVID of the response carries the configured SPIFFE id, its private key matches
  the certificate, the certificate verifies under the delivered bundle at both checks, and its
  first spiffe URI is the configured one; the snapshot then holds that certificate, key and
  bundle.\<close>

theorem workload_identity_accepted_iff:
  assumes "pem_laws env" "agent_connect env socket = Inr ()" "agent_handshake env socket = Inr ()"
    and "agent_send env socket (grpc_encode_message []) = Inr reply" "reply_status reply = 200"
    and "grpc_status reply \<in> {None, Some ''0''}"
    and "reply_body reply = Inr (grpc_encode_message (encode_response ps) @ rest)" "length rest < 5"
    and "list_all part_ok ps" "ps \<noteq> []" "length (encode_response ps) < 2 ^ 32"
    and "spire_agent_socket_path config = Some socket" "expected_spiffe_uri config = Inr uri"
  shows "fetch_identity env config ck = Inr snap \<longleftrightarrow>
    (\<exists>svid. filter (\<lambda>s. spiffe_id s = uri) (concat (map part_svids ps)) = [svid] \<and>
       svid_trusted env ck uri svid \<and> snap = svid_snapshot env ck uri svid)"
  using fetch_identity_iff[OF assms(1)] fetch_response_encoded[OF assms(2-11)] assms(12,13) by auto

theorem workload_identity_accepted_iff_witness:
  "fetch_identity sample_tls (spiffe_provider_from_settings sample_settings) sample_clocks =
     Inr (svid_snapshot sample_tls sample_clocks ''spiffe://example.org/kms'' sample_svid)"
proof -
  let ?ps = "[SvidPart [(1, as_bytes ''spiffe://example.org/kms''), (2, [48, 3]), (3, [1]), (4, [48, 4])]]"
  let ?uri = "''spiffe://example.org/kms''"
  have ps: "list_all part_ok ?ps" "length (encode_response ?ps) < 2 ^ 32"
    "filter (\<lambda>s. spiffe_id s = ?uri) (concat (map part_svids ?ps)) = [sample_svid]"
    by code_simp+
  have "svid_trusted sample_tls sample_clocks ?uri sample_svid"
    by (auto simp: svid_trusted_def sample_svid_def sample_tls_def key_matches_def chain_verified_def
        names_workload_def pkcs8_public_key_from_private_key_def)
  with workload_identity_accepted_iff[where env = sample_tls and socket = "''agent''" and reply = sample_reply
      and ps = ?ps and rest = "[]" and config = "spiffe_provider_from_settings sample_settings" and uri = ?uri
      and ck = sample_clocks, OF sample_pem_laws _ _ _ _ _ _ _ ps(1) _ ps(2) _ sample_expected] ps(3)
  show ?thesis
    by (simp add: sample_tls_def sample_reply_def spiffe_provider_from_settings_def sample_settings_def)
qed

text \<open>C22: Every client that the mTLS listener admits is given one and the same principal, the SPIFFE id
  configured for the service itself: a workload with another SPIFFE id is always turned away, and
  two admitted peers cannot be told apart.\<close>

theorem mtls_peers_share_identity:
  assumes "peer_principal_from_tls env config certs = Inr p" "peer_principal_from_tls env config certs' = Inr p'"
  shows "p = p' \<and> expected_spiffe_uri config = Inr (principal_as_str p)"
  using assms
  by (auto simp: peer_principal_from_tls_def validate_spiffe_identity_def bindR_eq_Inr_iff principal_spiffe_def
      split: option.splits list.splits if_splits)

theorem mtls_peers_share_identity_witness:
  "expected_spiffe_uri (spiffe_provider_from_settings sample_settings) = Inr (principal_as_str (principal_spiffe ''spiffe://example.org/kms''))"
proof -
  have "peer_principal_from_tls sample_tls (spiffe_provider_from_settings sample_settings) (Some [[n]]) =
      Inr (principal_spiffe ''spiffe://example.org/kms'')" for n
    using sample_expected
    by (simp add: peer_principal_from_tls_def validate_spiffe_identity_def extract_spiffe_uri_from_cert_def
        parse_leaf_certificate_def sample_tls_def) (simp add: spiffe_provider_from_settings_def)
  from mtls_peers_share_identity[OF this this] show ?thesis by simp
qed

text \<open>With the identity taken from the agent the mTLS server never starts when the agent delivers
  the private key in DER, the encoding of the Workload API: the key passed the identity checks
  and is then read as PEM.\<close>

theorem der_key_stops_mtls_server:
  assumes "pem_laws env" "fetch_identity env (spiffe_provider_from_settings s) ck = Inr snap"
    and "set_tls_cert_path s = None" "\<not> contains_sub (private_key snap) (as_bytes ''-----BEGIN'')"
  shows "build_mtls_server_config env s (spiffe_provider_from_settings s) ck =
    Inl (Anyhow ''invalid private key PEM from workload snapshot or file'')"
proof -
  from assms(2) obtain uri svid where "snap = svid_snapshot env ck uri svid"
    unfolding fetch_identity_iff[OF assms(1)] by blast
  then have snap: "certificate_chain_pem snap = der_to_pem env (x509_svid svid) ''CERTIFICATE''"
    by (simp add: svid_snapshot_def snapshot_of_def)
  have "private_key_from_pem env (private_key snap) = None" using assms(1,4) by (simp add: pem_laws_def)
  moreover have "pem_slice_iter env (certificate_chain_pem snap) = Inr [x509_svid svid]"
    using assms(1) snap by (simp add: pem_laws_def)
  ultimately show ?thesis using assms(2,3)
    by (simp add: build_mtls_server_config_def tls_material_def identity_from_agent_def)
qed

theorem der_key_stops_mtls_server_witness:
  "build_mtls_server_config sample_tls sample_settings (spiffe_provider_from_settings sample_settings) sample_clocks =
     Inl (Anyhow ''invalid private key PEM from workload snapshot or file'')"
proof -
  have "fetch_identity sample_tls (spiffe_provider_from_settings sample_settings) sample_clocks =
     Inr (svid_snapshot sample_tls sample_clocks ''spiffe://example.org/kms'' sample_svid)"
    by code_simp
  moreover have "set_tls_cert_path sample_settings = None" by (simp add: sample_settings_def)
  moreover have "\<not> contains_sub (private_key (svid_snapshot sample_tls sample_clocks ''spiffe://example.org/kms'' sample_svid)) (as_bytes ''-----BEGIN'')"
    by code_simp
  ultimately show ?thesis by (rule der_key_stops_mtls_server[OF sample_pem_laws])
qed

text \<open>A workload id written as a full SPIFFE URI repeats the trust domain in the expected identity.\<close>

theorem full_uri_workload_id:
  "expected_spiffe_uri ((spiffe_provider_from_settings sample_settings)\<lparr>workload_id := Some ''spiffe://example.org/kms''\<rparr>)
    = Inr ''spiffe://example.org/example.org/kms''"
  by code_simp

end
