(* ===== verification/Spec2Isabelle.thy ===== *)
theory Spec2Isabelle
  imports Kms_Prelude Hsm_Protocol Core_Crypto Vhsm_Certificates Vhsm_Handler Vhsm_System Vhsm_Theorems
    Kms_Types Acl_Policy Request_Auth Kms_Db Key_Repository Audit_Entries Audit_Log
    Key_Cache Kms_Service Key_Usecases Key_Workers Key_Lifecycle Key_Theorems Key_Properties
    Workload_Api Workload_Codec Workload_Identity
begin

text \<open>A verification development of the KMS platform, the Rust workspace under \<^verbatim>\<open>src/crates\<close>.

  \<^bold>\<open>The program.\<close>  A daemon, the vHSM (\<^verbatim>\<open>vhsm-daemon\<close>), holds the master key in memory and serves
  framed JSON requests on a Unix socket: a ceremony splits a fresh key into shares, a quorum of
  shares unseals the daemon after a restart, and an unsealed daemon encrypts, decrypts, generates
  data keys and acts as certificate authority.  The service (\<^verbatim>\<open>kms-service\<close>) authenticates HTTP
  requests by HMAC, decides on them by access policies, keeps private keys encrypted under the
  master key in PostgreSQL (\<^verbatim>\<open>kms-db\<close>), caches some of them, and writes a hash-chained audit log.
  Its own identity for mTLS comes from a SPIRE agent.  \<^verbatim>\<open>kms-core\<close> has what both sides share:
  the protocol, the secret sharing, the storage encryption and the audit hash.

  \<^bold>\<open>Conventions.\<close>  A \<^verbatim>\<open>Result\<close> is a sum with the error on the left.  Code that threads a store is a
  run of the monad \<^typ>\<open>('s, 'e, 'a) sm\<close>, in which a failure keeps the store it left behind.
  Machine integers are words where they can wrap, strings are lists of bytes read as characters.
  Third-party code (ciphers, digests, elliptic curves, JSON, base64, X.509, the random source, the
  clock) is a field of a parameter record; what a theorem needs of it is a named predicate, such as
  \<^term>\<open>aead_ok\<close>, \<^term>\<open>ssss_ok\<close>, \<^term>\<open>serde_ok\<close>, \<^term>\<open>audit_lib_ok\<close> or \<^term>\<open>pem_laws\<close>, and the witnesses
  instantiate the records with concrete functions that satisfy them.

  \<^bold>\<open>Shared vocabulary.\<close>
  \<^item> \<^verbatim>\<open>Kms_Prelude\<close>: results, the monad with its triples \<^term>\<open>outcome\<close> and \<^term>\<open>preserves\<close>, strings, lengths
    in four bytes, reachability, and the locale \<^verbatim>\<open>invariant_system\<close> for step relations.
  \<^item> \<^verbatim>\<open>Kms_Types\<close>: \<^verbatim>\<open>errors/app_error.rs\<close>, \<^verbatim>\<open>domain/crypto.rs\<close>, \<^verbatim>\<open>domain/keys/models.rs\<close>.

  \<^bold>\<open>The vHSM.\<close>
  \<^item> \<^verbatim>\<open>Hsm_Protocol\<close> (\<^verbatim>\<open>kms-core/src/hsm\<close>): messages, frames, one exchange, the typed calls.  A stream of
    frames determines the payloads (locale \<^verbatim>\<open>framing\<close>).
  \<^item> \<^verbatim>\<open>Core_Crypto\<close> (\<^verbatim>\<open>kms-core/src/crypto\<close>): generating, splitting and combining a master key, password
    containers and the encryption of stored bytes (locale \<^verbatim>\<open>key_sealing\<close>).
  \<^item> \<^verbatim>\<open>Vhsm_Certificates\<close>, \<^verbatim>\<open>Vhsm_Handler\<close> (\<^verbatim>\<open>handler.rs\<close>, \<^verbatim>\<open>state.rs\<close>): the certificates and every request.
    A request that gives up its lock is two steps, \<^term>\<open>begin_request\<close> and \<^term>\<open>finish_request\<close>; a panic is
    the reply \<^term>\<open>None\<close>.  The abstract vHSM is sealed or holds one key and the loaded authorities.
  \<^item> \<^verbatim>\<open>Vhsm_System\<close> (\<^verbatim>\<open>listener.rs\<close>, \<^verbatim>\<open>main.rs\<close>): one connection, and the step relation of the daemon with
    requests in flight in any interleaving.
  \<^item> \<^verbatim>\<open>Vhsm_Theorems\<close>: data outlives a restart by any quorum, ciphertexts stay decryptable, the handler
    refines the abstract vHSM, the invariant of the interleaved system, a locked daemon refuses, client
    and daemon compose to the handler, certificates, and the two ways in which the daemon goes wrong.

  \<^bold>\<open>Policies and requests.\<close>
  \<^item> \<^verbatim>\<open>Acl_Policy\<close> (\<^verbatim>\<open>config/acl.rs\<close>, \<^verbatim>\<open>iam_json.rs\<close>, \<^verbatim>\<open>providers_acl.rs\<close>): the compiled policy decides as the
    settings do, and a deny statement overrides.
  \<^item> \<^verbatim>\<open>Request_Auth\<close> (\<^verbatim>\<open>middleware/security.rs\<close>, \<^verbatim>\<open>rate_limiter.rs\<close>): what the middleware passes on is authentic,
    nonces are accepted once (locale \<^verbatim>\<open>replay_guard\<close>), the limiter holds in every window.

  \<^bold>\<open>Keys and audit.\<close>
  \<^item> \<^verbatim>\<open>Kms_Db\<close> (\<^verbatim>\<open>kms-db/src/repositories.rs\<close> and the migrations): tables as lists of rows, statements as
    functions that may hit an injected fault, the unique constraints, transactions.
  \<^item> \<^verbatim>\<open>Key_Repository\<close> (\<^verbatim>\<open>postgres/keys.rs\<close>): every operation keeps at most one active key per slot; the
    locale \<^verbatim>\<open>key_store\<close> states lookup, save and rotation.
  \<^item> \<^verbatim>\<open>Audit_Entries\<close>, \<^verbatim>\<open>Audit_Log\<close> (\<^verbatim>\<open>kms-core/src/audit.rs\<close>, \<^verbatim>\<open>domain/audit\<close>, \<^verbatim>\<open>postgres/audit.rs\<close>,
    \<^verbatim>\<open>handlers/audit.rs\<close>): redaction, the hash chain and its verification; recorded entries verify,
    tampering is detected unless digests collide, and two ways in which an honest log fails to verify.
  \<^item> \<^verbatim>\<open>Key_Cache\<close> (\<^verbatim>\<open>server/state.rs\<close>, locale \<^verbatim>\<open>slot_cache\<close>), \<^verbatim>\<open>Kms_Service\<close> (\<^verbatim>\<open>infrastructure/crypto\<close>),
    \<^verbatim>\<open>Key_Usecases\<close> (\<^verbatim>\<open>application/use_cases\<close>), \<^verbatim>\<open>Key_Workers\<close> (\<^verbatim>\<open>bootstrap.rs\<close>, \<^verbatim>\<open>workers\<close>): the service as a state of
    database, cache and daemon, in which a use case calls the modelled handler for every exchange.
  \<^item> \<^verbatim>\<open>Key_Lifecycle\<close>, \<^verbatim>\<open>Key_Theorems\<close>, \<^verbatim>\<open>Key_Properties\<close>: the abstraction \<^term>\<open>secret_of\<close> maps a state to the
    private key and version of each slot.  Reads return the active key, rotation takes effect, the cache
    stays coherent in every reachable state of \<^term>\<open>service_step\<close>, refusals are recorded, and the
    operations that break coherence are named and proved to do so.

  \<^bold>\<open>Workload identity.\<close>
  \<^item> \<^verbatim>\<open>Workload_Api\<close>, \<^verbatim>\<open>Workload_Codec\<close> (\<^verbatim>\<open>infrastructure/identity.rs\<close>): the protobuf and gRPC decoders as
    runs over an offset, with the additions of the release build modulo \<open>2 ^ 64\<close>; they invert a
    reference encoder, what they return is well typed, and one class of lengths makes them panic.
  \<^item> \<^verbatim>\<open>Workload_Identity\<close> (\<^verbatim>\<open>identity.rs\<close>, \<^verbatim>\<open>domain/auth.rs\<close>, \<^verbatim>\<open>server/http.rs\<close>): the exact condition under which an
    identity is accepted, the material of the mTLS server and the principal of its peers.

  \<^bold>\<open>Loops and bounds.\<close>  Loops over lists are structural.  The decoders terminate because every field
  advances the offset (\<^term>\<open>advances\<close>).  The wait for the daemon at start-up and the rewrap loop may run
  forever and are partial functions whose value \<^term>\<open>None\<close> means that they do not return; the theorems
  on them say exactly when they do.  \<^term>\<open>dec_digits\<close> takes one unit of fuel more than the number it
  prints, which bounds its digits.

  \<^bold>\<open>Not modelled.\<close>  Sockets, files, signals, timers and the HTTP framework are the runtime.  The handlers
  other than the audit handlers only unpack requests for the use cases.  Credential provisioning and
  its providers act on foreign servers; the bootstrap import and the root CA use cases are left
  out, while the statements and daemon requests they use are there.  The Redis limiter is a
  server-side script.  Configuration loading, the migration tool and the ceremony command line are
  input and output, and the SPIRE plugin is a separate process around generated services.\<close>

end
